(* ===== verification/Prelude.thy ===== *)
theory Prelude
  imports
    Main
    "HOL-Library.State_Monad"
    "HOL-Library.Word"
    "HOL-Library.Finite_Map"
begin

text \<open>
  The shared vocabulary of the development: the error values of the program, the state monad in
  which every handler is written (with a weakest-precondition reading and its rules), fixed-width
  arithmetic, and the generic lemmas the components share.

  A Go function that returns \<open>(T, error)\<close> is a HOL function into \<open>go_error + T\<close>: \<open>Inl\<close> is the
  branch with a non-nil error.  A handler that also talks to the API server is a computation
  \<open>('w, go_error + 'a) state\<close>, where \<open>'w\<close> is the (abstract) outside world.
\<close>

section \<open>Errors\<close>

text \<open>
  The reasons an API call can report.  \<open>errors.IsNotFound\<close>, \<open>client.IgnoreNotFound\<close> and
  \<open>retry.RetryOnConflict\<close> look at nothing but the reason.
\<close>

datatype api_reason = NotFound | Conflict | AlreadyExists | OtherReason string

datatype go_error =
    ApiErr api_reason
  | ErrTimezone                \<comment> \<open>invalid timezone\<close>
  | ErrWakeAt                  \<comment> \<open>invalid wakeAt format\<close>
  | ErrSleepAt                 \<comment> \<open>invalid sleepAt format\<close>
  | ErrDate                    \<comment> \<open>invalid date format\<close>
  | ErrAtoi                    \<comment> \<open>the error of strconv.Atoi, or one that wraps it\<close>
  | ErrNoAnnotations           \<comment> \<open>annotation not found\<close>
  | ErrUnsupportedType         \<comment> \<open>unsupported resource type\<close>
  | ErrOwnerRef                \<comment> \<open>the error of SetControllerReference\<close>
  | ErrTooManyPolicies nat     \<comment> \<open>found n sleep policies on the namespace\<close>

definition IsNotFound :: "go_error \<Rightarrow> bool" where
  "IsNotFound e = (e = ApiErr NotFound)"

definition IsConflict :: "go_error \<Rightarrow> bool" where
  "IsConflict e = (e = ApiErr Conflict)"

text \<open>\<open>client.IgnoreNotFound\<close>: a not-found error becomes nil.\<close>

definition IgnoreNotFound :: "go_error \<Rightarrow> go_error option" where
  "IgnoreNotFound e = (if IsNotFound e then None else Some e)"

lemma IsNotFound_simps [simp]:
  "IsNotFound (ApiErr NotFound)"
  "IsNotFound (ApiErr r) \<longleftrightarrow> r = NotFound"
  "\<not> IsNotFound ErrTimezone" "\<not> IsNotFound ErrWakeAt" "\<not> IsNotFound ErrSleepAt"
  "\<not> IsNotFound ErrAtoi" "\<not> IsNotFound ErrNoAnnotations" "\<not> IsNotFound ErrUnsupportedType"
  by (simp_all add: IsNotFound_def)

lemma IsConflict_simps [simp]:
  "IsConflict (ApiErr r) \<longleftrightarrow> r = Conflict"
  "\<not> IsConflict ErrAtoi" "\<not> IsConflict ErrNoAnnotations" "\<not> IsConflict ErrUnsupportedType"
  by (simp_all add: IsConflict_def)

lemma IgnoreNotFound_simps [simp]:
  "IgnoreNotFound (ApiErr NotFound) = None"
  "IgnoreNotFound e = None \<longleftrightarrow> IsNotFound e"
  "\<not> IsNotFound e \<Longrightarrow> IgnoreNotFound e = Some e"
  by (simp_all add: IgnoreNotFound_def)

section \<open>Computations and their weakest preconditions\<close>

text \<open>
  \<open>wp m Q w\<close>: started in world \<open>w\<close>, the computation \<open>m\<close> ends with a result and a world that
  satisfy \<open>Q\<close>.  Computations are total, so this is total correctness.
\<close>

abbreviation ret :: "'a \<Rightarrow> ('w, 'a) state" where
  "ret \<equiv> State_Monad.return"

definition wp :: "('w, 'a) state \<Rightarrow> ('a \<Rightarrow> 'w \<Rightarrow> bool) \<Rightarrow> 'w \<Rightarrow> bool" where
  "wp m Q w = (case run_state m w of (a, w') \<Rightarrow> Q a w')"

named_theorems wp_rules "weakest-precondition rules of the external operations"

lemma wp_return [simp]: "wp (ret a) Q w = Q a w"
  by (simp add: wp_def)

lemma wp_bind [simp]: "wp (State_Monad.bind m f) Q w = wp m (\<lambda>a. wp (f a) Q) w"
  by (simp add: wp_def split: prod.splits)

lemma wp_mono: "wp m Q w \<Longrightarrow> (\<And>a w'. Q a w' \<Longrightarrow> R a w') \<Longrightarrow> wp m R w"
  by (auto simp: wp_def split: prod.splits)

lemma wp_conj: "wp m Q w \<Longrightarrow> wp m R w \<Longrightarrow> wp m (\<lambda>a w'. Q a w' \<and> R a w') w"
  by (auto simp: wp_def split: prod.splits)

lemma wp_run: "wp m Q w \<Longrightarrow> run_state m w = (a, w') \<Longrightarrow> Q a w'"
  by (simp add: wp_def)

lemma run_wp: "(\<And>a w'. run_state m w = (a, w') \<Longrightarrow> Q a w') \<Longrightarrow> wp m Q w"
  by (simp add: wp_def split: prod.splits)

lemma wp_eqI: "run_state m w = (a, w') \<Longrightarrow> Q a w' \<Longrightarrow> wp m Q w"
  by (simp add: wp_def)

section \<open>Fixed-width integers\<close>

text \<open>
  Go's \<open>int\<close> and \<open>time.Duration\<close> are 64-bit and wrap around; a value is kept as the integer it
  denotes and \<open>wrap64\<close> is applied to the result of an operation that can leave the range.
  Replica counts are \<open>int32\<close>, kept as \<open>32 word\<close> and read with \<open>sint\<close>.
\<close>

type_synonym int32 = "32 word"

definition wrap64 :: "int \<Rightarrow> int" where
  "wrap64 x = (x + 2 ^ 63) mod 2 ^ 64 - 2 ^ 63"

definition min_int64 :: int where "min_int64 = - (2 ^ 63)"
definition max_int64 :: int where "max_int64 = 2 ^ 63 - 1"

lemma wrap64_id [simp]: "- (2 ^ 63) \<le> x \<Longrightarrow> x < 2 ^ 63 \<Longrightarrow> wrap64 x = x"
  by (simp add: wrap64_def)

lemma wrap64_range: "min_int64 \<le> wrap64 x \<and> wrap64 x \<le> max_int64"
proof -
  have "0 \<le> (x + 2 ^ 63) mod 2 ^ 64" "(x + 2 ^ 63) mod 2 ^ 64 < 2 ^ 64" by simp_all
  then show ?thesis by (simp add: wrap64_def min_int64_def max_int64_def)
qed

lemma sint32_range: "- (2 ^ 31) \<le> sint (r :: int32) \<and> sint (r :: int32) < 2 ^ 31"
  using sint_greater_eq [of r] sint_less [of r] by simp

lemma word_of_sint32 [simp]: "(word_of_int (sint (r :: int32)) :: int32) = r"
  by simp

lemma div_mod_uniq:
  "(a :: int) = k * q + r \<Longrightarrow> 0 \<le> r \<Longrightarrow> r < k \<Longrightarrow> a div k = q \<and> a mod k = r"
  by (simp add: int_div_pos_eq int_mod_pos_eq)

text \<open>Two integers that agree modulo \<open>k\<close> and lie in the same window of length \<open>k\<close> are equal.\<close>

lemma same_block: "(k :: int) * q \<le> a \<Longrightarrow> a < k * q + k \<Longrightarrow> a div k = q"
  by (rule div_mod_uniq [of a k q "a - k * q", THEN conjunct1]) auto

lemma div_bounds: "0 < (k :: int) \<Longrightarrow> k * (a div k) \<le> a \<and> a < k * (a div k) + k"
  using pos_mod_bound [of k a] pos_mod_sign [of k a] minus_mod_eq_mult_div [of a k] by linarith

section \<open>Lists and maps\<close>

lemma dropWhile_hd_False: "xs = [] \<or> \<not> P (hd xs) \<Longrightarrow> dropWhile P xs = xs"
  by (cases xs) auto

lemma takeWhile_all_id: "\<forall>x \<in> set xs. P x \<Longrightarrow> takeWhile P xs = xs"
  by (simp add: takeWhile_eq_all_conv)

end
