(* ===== verification/Go_Strings.thy ===== *)
theory Go_Strings
  imports Prelude
begin

text \<open>
  What the program uses of the Go packages \<open>strings\<close> and \<open>strconv\<close>: \<open>ToLower\<close>, \<open>TrimSpace\<close>,
  \<open>Split\<close>, \<open>Contains\<close>, \<open>EqualFold\<close>, \<open>Join\<close>, \<open>Atoi\<close>, \<open>Itoa\<close> and \<open>ParseBool\<close>.  A Go string is
  a list of bytes (\<open>char list\<close>).  Case folding and white space are those of ASCII text, the range
  of the names, weekday names and times of day the program handles; on other bytes the functions
  here are the identity.  The lemmas give the round trips \<open>Split\<close>/\<open>Join\<close> and \<open>Atoi\<close>/\<open>Itoa\<close>.
\<close>

section \<open>Case and white space\<close>

definition lower_char :: "char \<Rightarrow> char" where
  "lower_char c = (let n = (of_char c :: nat) in if 65 \<le> n \<and> n \<le> 90 then char_of (n + 32) else c)"

definition ToLower :: "string \<Rightarrow> string" where
  "ToLower s = map lower_char s"

definition EqualFold :: "string \<Rightarrow> string \<Rightarrow> bool" where
  "EqualFold s t = (ToLower s = ToLower t)"

definition is_space :: "char \<Rightarrow> bool" where
  "is_space c = (let n = (of_char c :: nat) in n = 32 \<or> (9 \<le> n \<and> n \<le> 13))"

definition TrimSpace :: "string \<Rightarrow> string" where
  "TrimSpace s = rev (dropWhile is_space (rev (dropWhile is_space s)))"

lemma lower_char_code:
  "(of_char (lower_char c) :: nat) =
     (if 65 \<le> (of_char c :: nat) \<and> (of_char c :: nat) \<le> 90 then of_char c + 32 else of_char c)"
  by (auto simp: lower_char_def Let_def)

lemma lower_char_idem [simp]: "lower_char (lower_char c) = lower_char c"
  using lower_char_code [of c] by (auto simp: lower_char_def Let_def split: if_splits)

lemma ToLower_idem [simp]: "ToLower (ToLower s) = ToLower s"
  by (simp add: ToLower_def)

lemma is_space_lower [simp]: "is_space (lower_char c) = is_space c"
  using lower_char_code [of c] by (auto simp: is_space_def Let_def split: if_splits)

lemma ToLower_append [simp]: "ToLower (s @ t) = ToLower s @ ToLower t"
  by (simp add: ToLower_def)

lemma TrimSpace_ToLower: "TrimSpace (ToLower s) = ToLower (TrimSpace s)"
  by (simp add: TrimSpace_def ToLower_def dropWhile_map rev_map o_def)

lemma TrimSpace_id:
  "s = [] \<or> \<not> is_space (hd s) \<and> \<not> is_space (last s) \<Longrightarrow> TrimSpace s = s"
  by (cases "s = []") (auto simp: TrimSpace_def dropWhile_hd_False hd_rev)

lemma dropWhile_decomp:
  "\<exists>u. s = u @ dropWhile P s \<and> (\<forall>c \<in> set u. P c) \<and> (dropWhile P s = [] \<or> \<not> P (hd (dropWhile P s)))"
  by (rule exI [of _ "takeWhile P s"])
    (use hd_dropWhile [of P s] in \<open>auto dest: set_takeWhileD\<close>)

text \<open>\<open>TrimSpace\<close> removes white space at both ends and nothing else.\<close>

lemma TrimSpace_decomp:
  "\<exists>u v. s = u @ TrimSpace s @ v \<and> (\<forall>c \<in> set u \<union> set v. is_space c)"
proof -
  obtain u where u: "s = u @ dropWhile is_space s" "\<forall>c \<in> set u. is_space c"
    using dropWhile_decomp [of s is_space] by blast
  let ?t = "dropWhile is_space s"
  obtain v where v: "rev ?t = v @ dropWhile is_space (rev ?t)" "\<forall>c \<in> set v. is_space c"
    using dropWhile_decomp [of "rev ?t" is_space] by blast
  from v(1) have "?t = TrimSpace s @ rev v"
    unfolding TrimSpace_def by (metis rev_append rev_rev_ident)
  with u v(2) show ?thesis by (metis Un_iff set_rev)
qed

section \<open>Split and Join\<close>

text \<open>\<open>strings.Split(s, sep)\<close> for a separator of one byte.\<close>

fun Split :: "char \<Rightarrow> string \<Rightarrow> string list" where
  "Split c [] = [[]]"
| "Split c (x # xs) =
     (if x = c then [] # Split c xs
      else (case Split c xs of [] \<Rightarrow> [[x]] | p # ps \<Rightarrow> (x # p) # ps))"

fun Join :: "string list \<Rightarrow> string \<Rightarrow> string" where
  "Join [] sep = []"
| "Join [p] sep = p"
| "Join (p # ps) sep = p @ sep @ Join ps sep"

lemma Split_not_Nil [simp]: "Split c s \<noteq> []"
  by (cases s) (auto split: list.splits)

lemma Join_Cons: "ps \<noteq> [] \<Longrightarrow> Join (p # ps) sep = p @ sep @ Join ps sep"
  by (cases ps) auto

lemma Join_Cons_char: "Join ((x # p) # ps) sep = x # Join (p # ps) sep"
  by (cases ps) auto

lemma Join_Split: "Join (Split c s) [c] = s"
  by (induction s) (auto simp: Join_Cons Join_Cons_char split: list.splits)

lemma Split_no_sep: "c \<notin> set s \<Longrightarrow> Split c s = [s]"
  by (induction s) auto

lemma Split_append: "c \<notin> set p \<Longrightarrow> Split c (p @ c # s) = p # Split c s"
  by (induction p) auto

lemma Split_Join:
  "ps \<noteq> [] \<Longrightarrow> \<forall>p \<in> set ps. c \<notin> set p \<Longrightarrow> Split c (Join ps [c]) = ps"
proof (induction ps)
  case Nil
  then show ?case by simp
next
  case (Cons p ps)
  show ?case
  proof (cases "ps = []")
    case True
    with Cons.prems show ?thesis by (simp add: Split_no_sep)
  next
    case False
    with Cons show ?thesis by (simp add: Join_Cons Split_append)
  qed
qed

lemma Split_parts_no_sep: "p \<in> set (Split c s) \<Longrightarrow> c \<notin> set p"
  by (induction s arbitrary: p) (auto split: if_splits list.splits)

lemma lower_char_sep: "c \<in> {CHR '','', CHR ''-''} \<Longrightarrow> lower_char x = c \<longleftrightarrow> x = c"
proof -
  assume c: "c \<in> {CHR '','', CHR ''-''}"
  have "(of_char c :: nat) < 65" using c by auto
  moreover have "lower_char c = c" using c by (auto simp: lower_char_def)
  moreover have "lower_char x = c \<Longrightarrow> (of_char x :: nat) = of_char c"
    using lower_char_code [of x] calculation(1) by (auto split: if_splits)
  ultimately show ?thesis by (metis of_char_eq_iff)
qed

lemma Split_ToLower: "c \<in> {CHR '','', CHR ''-''} \<Longrightarrow> Split c (ToLower s) = map ToLower (Split c s)"
proof (induction s)
  case Nil
  then show ?case by (simp add: ToLower_def)
next
  case (Cons x s)
  then show ?case
    by (cases "Split c s") (auto simp: ToLower_def lower_char_sep)
qed

section \<open>Decimal numbers\<close>

definition digit_char :: "nat \<Rightarrow> char" where
  "digit_char d = char_of (48 + d)"

definition digit_val :: "char \<Rightarrow> nat option" where
  "digit_val c = (let n = (of_char c :: nat) in if 48 \<le> n \<and> n \<le> 57 then Some (n - 48) else None)"

fun show_nat :: "nat \<Rightarrow> string" where
  "show_nat n = (if n < 10 then [digit_char n] else show_nat (n div 10) @ [digit_char (n mod 10)])"

declare show_nat.simps [simp del]

fun read_digits :: "nat \<Rightarrow> string \<Rightarrow> nat option" where
  "read_digits acc [] = Some acc"
| "read_digits acc (c # cs) =
     (case digit_val c of None \<Rightarrow> None | Some d \<Rightarrow> read_digits (10 * acc + d) cs)"

definition Itoa :: "int \<Rightarrow> string" where
  "Itoa i = (if i < 0 then CHR ''-'' # show_nat (nat (- i)) else show_nat (nat i))"

definition Atoi :: "string \<Rightarrow> int option" where
  "Atoi s =
     (let neg = (s \<noteq> [] \<and> hd s = CHR ''-'');
          body = (if s \<noteq> [] \<and> (hd s = CHR ''-'' \<or> hd s = CHR ''+'') then tl s else s)
      in if body = [] then None
         else case read_digits 0 body of
             None \<Rightarrow> None
           | Some n \<Rightarrow>
               (let v = (if neg then - int n else int n)
                in if min_int64 \<le> v \<and> v \<le> max_int64 then Some v else None))"

definition ParseBool :: "string \<Rightarrow> bool option" where
  "ParseBool s =
     (if s \<in> set [''1'', ''t'', ''T'', ''true'', ''TRUE'', ''True''] then Some True
      else if s \<in> set [''0'', ''f'', ''F'', ''false'', ''FALSE'', ''False''] then Some False
      else None)"

lemma digit_val_char [simp]: "d < 10 \<Longrightarrow> digit_val (digit_char d) = Some d"
  by (simp add: digit_val_def digit_char_def)

lemma digit_val_bound: "digit_val c = Some d \<Longrightarrow> d < 10"
  by (auto simp: digit_val_def Let_def split: if_splits)

lemma digit_char_val: "digit_val c = Some d \<Longrightarrow> digit_char d = c"
  by (auto simp: digit_val_def digit_char_def Let_def split: if_splits)

lemma show_nat_not_Nil [simp]: "show_nat n \<noteq> []"
  by (subst show_nat.simps) simp

lemma show_nat_digits: "c \<in> set (show_nat n) \<Longrightarrow> \<exists>d < 10. c = digit_char d"
proof (induction n rule: show_nat.induct)
  case (1 n)
  then show ?case
    by (cases "n < 10") (auto simp: show_nat.simps [of n] intro: exI [of _ "n mod 10"])
qed

lemma read_digits_append:
  "read_digits acc (s @ t) =
     (case read_digits acc s of None \<Rightarrow> None | Some n \<Rightarrow> read_digits n t)"
  by (induction acc s rule: read_digits.induct) (auto split: option.splits)

lemma read_show_nat [simp]: "read_digits 0 (show_nat n) = Some n"
proof (induction n rule: show_nat.induct)
  case (1 n)
  then show ?case
    by (cases "n < 10") (auto simp: show_nat.simps [of n] read_digits_append)
qed

lemma digit_char_inj: "a < 10 \<Longrightarrow> b < 10 \<Longrightarrow> digit_char a = digit_char b \<longleftrightarrow> a = b"
  by (metis digit_val_char option.inject)

lemma digit_char_neq [simp]:
  "d < 10 \<Longrightarrow> digit_char d \<noteq> CHR ''-''" "d < 10 \<Longrightarrow> digit_char d \<noteq> CHR ''+''"
proof -
  have "digit_val (CHR ''-'') = None" "digit_val (CHR ''+'') = None"
    by (simp_all add: digit_val_def)
  then show "d < 10 \<Longrightarrow> digit_char d \<noteq> CHR ''-''" "d < 10 \<Longrightarrow> digit_char d \<noteq> CHR ''+''"
    by (metis digit_val_char option.distinct(1))+
qed

lemma show_nat_hd: "\<exists>d < 10. hd (show_nat n) = digit_char d"
  using show_nat_digits [of "hd (show_nat n)" n] by simp

text \<open>Printing and parsing a 64-bit integer is the identity.\<close>

lemma Atoi_Itoa [simp]: "min_int64 \<le> i \<Longrightarrow> i \<le> max_int64 \<Longrightarrow> Atoi (Itoa i) = Some i"
proof -
  assume range: "min_int64 \<le> i" "i \<le> max_int64"
  show ?thesis
  proof (cases "i < 0")
    case True
    with range show ?thesis by (simp add: Atoi_def Itoa_def)
  next
    case False
    obtain d where "d < 10" "hd (show_nat (nat i)) = digit_char d"
      using show_nat_hd by blast
    with False range show ?thesis by (simp add: Atoi_def Itoa_def)
  qed
qed

lemma Atoi_Itoa_int32 [simp]: "Atoi (Itoa (sint (r :: int32))) = Some (sint r)"
proof (rule Atoi_Itoa)
  show "min_int64 \<le> sint r" "sint r \<le> max_int64"
    using sint32_range [of r] by (simp_all add: min_int64_def max_int64_def)
qed

lemma Itoa_not_Nil [simp]: "Itoa i \<noteq> []"
  by (simp add: Itoa_def)

lemma Atoi_Nil [simp]: "Atoi [] = None"
  by (simp add: Atoi_def)

lemma Atoi_range: "Atoi s = Some v \<Longrightarrow> min_int64 \<le> v \<and> v \<le> max_int64"
  unfolding Atoi_def by (auto simp: Let_def split: if_splits option.splits)

end
