(* ===== verification/Go_Time.thy ===== *)
theory Go_Time
  imports Go_Strings
begin

text \<open>
  What the program uses of the Go package \<open>time\<close>: instants, locations, the proleptic Gregorian
  calendar, \<open>Date\<close>, \<open>AddDate\<close>, \<open>Weekday\<close>, comparison, \<open>Sub\<close>, \<open>In\<close>, \<open>LoadLocation\<close>, and \<open>Parse\<close>
  and \<open>Format\<close> for the two layouts of the program, \<open>15:04\<close> and \<open>02/01/2006\<close>.

  An instant is the number of nanoseconds since the Unix epoch; the range of \<open>time.Time\<close> is some
  292 billion years, so it is kept as an unbounded integer.  A \<open>*time.Location\<close> is its lookup
  function, from a Unix second to the zone in force (offset and validity interval).  The zones of
  the tz database are data outside the repository: \<open>tzinfo\<close> is a parameter of what uses it.
\<close>

section \<open>Locations and instants\<close>

record zone =
  z_offset :: int
  z_start :: int
  z_end :: int

type_synonym location = "int \<Rightarrow> zone"

definition alpha :: int where "alpha = - (2 ^ 63)"
definition omega :: int where "omega = 2 ^ 63 - 1"

text \<open>A location with one zone; \<open>time.UTC\<close> is the one with offset 0.\<close>

definition fixed_zone :: "int \<Rightarrow> location" where
  "fixed_zone off = (\<lambda>_. \<lparr>z_offset = off, z_start = alpha, z_end = omega\<rparr>)"

definition utc :: location where
  "utc = fixed_zone 0"

record time =
  t_ns :: int
  t_loc :: location

record tzinfo =
  tz_local :: location                       \<comment> \<open>\<open>time.Local\<close>\<close>
  tz_db :: "string \<Rightarrow> location option"       \<comment> \<open>the tz database\<close>

text \<open>\<open>containsDotDot\<close> and the name checks of \<open>time.LoadLocation\<close>.\<close>

fun containsDotDot :: "string \<Rightarrow> bool" where
  "containsDotDot (a # b # s) =
     (if a = CHR ''.'' \<and> b = CHR ''.'' then True else containsDotDot (b # s))"
| "containsDotDot _ = False"

definition LoadLocation :: "tzinfo \<Rightarrow> string \<Rightarrow> location option" where
  "LoadLocation tz name =
     (if name = '''' \<or> name = ''UTC'' then Some utc
      else if name = ''Local'' then Some (tz_local tz)
      else if containsDotDot name \<or> hd name = CHR ''/'' \<or> (of_char (hd name) :: nat) = 92 then None
      else tz_db tz name)"

abbreviation ns_per_sec :: int where "ns_per_sec \<equiv> 1000000000"
abbreviation sec_per_day :: int where "sec_per_day \<equiv> 86400"
abbreviation ns_per_day :: int where "ns_per_day \<equiv> 86400000000000"

definition Before :: "time \<Rightarrow> time \<Rightarrow> bool" where "Before t u = (t_ns t < t_ns u)"
definition After :: "time \<Rightarrow> time \<Rightarrow> bool" where "After t u = (t_ns t > t_ns u)"
definition Equal :: "time \<Rightarrow> time \<Rightarrow> bool" where "Equal t u = (t_ns t = t_ns u)"

definition In :: "time \<Rightarrow> location \<Rightarrow> time" where "In t loc = t\<lparr>t_loc := loc\<rparr>"

text \<open>\<open>Sub\<close> saturates at the ends of the range of \<open>time.Duration\<close>.\<close>

definition Sub :: "time \<Rightarrow> time \<Rightarrow> int" where
  "Sub t u = max min_int64 (min max_int64 (t_ns t - t_ns u))"

definition AddDuration :: "time \<Rightarrow> int \<Rightarrow> time" where
  "AddDuration t d = t\<lparr>t_ns := t_ns t + d\<rparr>"

lemmas time_cmp_defs = Before_def After_def Equal_def

section \<open>The calendar\<close>

definition is_leap :: "int \<Rightarrow> bool" where
  "is_leap y = (y mod 4 = 0 \<and> (y mod 100 \<noteq> 0 \<or> y mod 400 = 0))"

definition leap_day :: "bool \<Rightarrow> int" where
  "leap_day l = (if l then 1 else 0)"

text \<open>Days of the year before the first of month \<open>m\<close>.\<close>

definition days_before :: "bool \<Rightarrow> int \<Rightarrow> int" where
  "days_before l m =
     (if m \<le> 1 then 0 else if m = 2 then 31 else leap_day l +
      (if m = 3 then 59 else if m = 4 then 90 else if m = 5 then 120 else if m = 6 then 151
       else if m = 7 then 181 else if m = 8 then 212 else if m = 9 then 243
       else if m = 10 then 273 else if m = 11 then 304 else if m = 12 then 334 else 365))"

definition days_in :: "int \<Rightarrow> int \<Rightarrow> int" where
  "days_in m y = days_before (is_leap y) (m + 1) - days_before (is_leap y) m"

text \<open>The month that holds day \<open>yd\<close> (from 0) of a year.\<close>

definition month_of :: "bool \<Rightarrow> int \<Rightarrow> int" where
  "month_of l yd =
     (if yd < 31 then 1 else
      let e = yd - leap_day l in
      if e < 59 then 2 else if e < 90 then 3 else if e < 120 then 4 else if e < 151 then 5
      else if e < 181 then 6 else if e < 212 then 7 else if e < 243 then 8 else if e < 273 then 9
      else if e < 304 then 10 else if e < 334 then 11 else 12)"

text \<open>Days from 1970-01-01 to January 1 of a year, and to a date.\<close>

definition year_days :: "int \<Rightarrow> int" where
  "year_days y = 365 * (y - 1) + (y - 1) div 4 - (y - 1) div 100 + (y - 1) div 400 - 719162"

definition civil_to_days :: "int \<Rightarrow> int \<Rightarrow> int \<Rightarrow> int" where
  "civil_to_days y m d = year_days y + days_before (is_leap y) m + (d - 1)"

text \<open>Year and day of the year of a day number, by 400-, 100-, 4- and 1-year cycles.\<close>

definition year_yday :: "int \<Rightarrow> int \<times> int" where
  "year_yday n =
     (let n1 = n + 719162;
          a = n1 div 146097; r = n1 mod 146097;
          b = min 3 (r div 36524); r1 = r - 36524 * b;
          c = r1 div 1461; r2 = r1 mod 1461;
          e = min 3 (r2 div 365)
      in (400 * a + 100 * b + 4 * c + e + 1, r2 - 365 * e))"

definition days_to_civil :: "int \<Rightarrow> int \<times> int \<times> int" where
  "days_to_civil n =
     (case year_yday n of (y, yd) \<Rightarrow>
        let m = month_of (is_leap y) yd in (y, m, yd - days_before (is_leap y) m + 1))"

definition valid_date :: "int \<Rightarrow> int \<Rightarrow> int \<Rightarrow> bool" where
  "valid_date y m d = (1 \<le> m \<and> m \<le> 12 \<and> 1 \<le> d \<and> d \<le> days_in m y)"

lemma year_days_cycles:
  assumes "y - 1 = 400 * a + 100 * b + 4 * c + e" "0 \<le> b" "b < 4" "0 \<le> c" "c < 25" "0 \<le> e" "e < 4"
  shows "year_days y = 146097 * a + 36524 * b + 1461 * c + 365 * e - 719162"
proof -
  have "(y - 1) div 4 = 100 * a + 25 * b + c" "(y - 1) div 100 = 4 * a + b" "(y - 1) div 400 = a"
    using assms by (auto intro!: same_block)
  with assms(1) show ?thesis by (simp add: year_days_def)
qed

text \<open>What \<open>year_yday\<close> computes: the cycles of the year, and a day within it.\<close>

lemma year_yday_decomp:
  assumes "year_yday n = (y, yd)"
  obtains a b c e where "y - 1 = 400 * a + 100 * b + 4 * c + e"
    "0 \<le> b" "b < 4" "0 \<le> c" "c < 25" "0 \<le> e" "e < 4"
    "n + 719162 = 146097 * a + 36524 * b + 1461 * c + 365 * e + yd"
    "0 \<le> yd" "yd \<le> 365" "yd = 365 \<longrightarrow> e = 3 \<and> (c \<noteq> 24 \<or> b = 3)"
proof -
  define a r where "a = (n + 719162) div 146097" and "r = (n + 719162) mod 146097"
  define b where "b = min 3 (r div 36524)"
  define r1 where "r1 = r - 36524 * b"
  define c r2 where "c = r1 div 1461" and "r2 = r1 mod 1461"
  define e where "e = min 3 (r2 div 365)"
  have "year_yday n = (400 * a + 100 * b + 4 * c + e + 1, r2 - 365 * e)"
    by (simp only: year_yday_def Let_def a_def r_def b_def r1_def c_def r2_def e_def)
  with assms have y: "y - 1 = 400 * a + 100 * b + 4 * c + e" and yd: "yd = r2 - 365 * e"
    by simp_all
  have n: "n + 719162 = 146097 * a + r" and r: "0 \<le> r" "r < 146097"
    by (simp_all add: a_def r_def)
  then have b: "0 \<le> b" "b < 4" by (auto simp: b_def min_def)
  have r1: "0 \<le> r1" "r1 \<le> 36524" "r1 = 36524 \<longrightarrow> b = 3"
    using r div_bounds [of 36524 r] unfolding r1_def b_def by (auto simp: min_def)
  then have c: "0 \<le> c" "c < 25"
    using div_bounds [of 1461 r1] unfolding c_def by linarith+
  have r2: "0 \<le> r2" "r2 < 1461" "r1 = 1461 * c + r2" by (simp_all add: r2_def c_def)
  have e: "0 \<le> e" "e < 4" using r2 by (auto simp: e_def min_def)
  have yd_rng: "0 \<le> yd" "yd \<le> 365" "yd = 365 \<longrightarrow> e = 3 \<and> r2 = 1460"
    using r2 div_bounds [of 365 r2] unfolding yd e_def by (auto simp: min_def)
  have "r2 = 1460 \<longrightarrow> c \<noteq> 24 \<or> b = 3" using r1 r2 by auto
  with yd_rng(3) have "yd = 365 \<longrightarrow> e = 3 \<and> (c \<noteq> 24 \<or> b = 3)" by blast
  moreover have "n + 719162 = 146097 * a + 36524 * b + 1461 * c + 365 * e + yd"
    using n r1_def r2(3) yd by linarith
  ultimately show thesis using that y b c e yd_rng(1,2) by blast
qed

lemma year_yday_inverse:
  assumes "year_yday n = (y, yd)"
  shows "year_days y + yd = n"
proof -
  from year_yday_decomp [OF assms] obtain a b c e
    where d: "y - 1 = 400 * a + 100 * b + 4 * c + e"
      "0 \<le> b" "b < 4" "0 \<le> c" "c < 25" "0 \<le> e" "e < 4"
      and n: "n + 719162 = 146097 * a + 36524 * b + 1461 * c + 365 * e + yd" by metis
  from year_days_cycles [OF d] n show ?thesis by simp
qed

text \<open>A day number is the day number of its own date.\<close>

lemma civil_of_days [simp]:
  "days_to_civil n = (y, m, d) \<Longrightarrow> civil_to_days y m d = n"
  using year_yday_inverse [of n]
  by (auto simp: days_to_civil_def civil_to_days_def Let_def split: prod.splits)

lemma is_leap_cycles:
  assumes "y - 1 = 400 * a + 100 * b + 4 * c + e" "0 \<le> b" "b < 4" "0 \<le> c" "c < 25" "0 \<le> e" "e < 4"
  shows "is_leap y \<longleftrightarrow> e = 3 \<and> (c \<noteq> 24 \<or> b = 3)"
proof -
  have m: "(y - 1) mod 4 = e" "(y - 1) mod 100 = 4 * c + e"
      "(y - 1) mod 400 = 100 * b + 4 * c + e"
    using assms div_mod_uniq [of "y - 1" 4 "100 * a + 25 * b + c" e]
      div_mod_uniq [of "y - 1" 100 "4 * a + b" "4 * c + e"]
      div_mod_uniq [of "y - 1" 400 a "100 * b + 4 * c + e"] by auto
  have step: "y mod k = 0 \<longleftrightarrow> (y - 1) mod k = k - 1" if "0 < k" for k :: int
  proof -
    have "y mod k = ((y - 1) mod k + 1) mod k" by (simp add: mod_add_left_eq)
    moreover have "0 \<le> (y - 1) mod k" "(y - 1) mod k < k" using that by simp_all
    ultimately show ?thesis
      by (cases "(y - 1) mod k + 1 = k") (auto simp: mod_pos_pos_trivial)
  qed
  have "y mod 4 = 0 \<longleftrightarrow> e = 3" "y mod 100 = 0 \<longleftrightarrow> c = 24 \<and> e = 3"
    "y mod 400 = 0 \<longleftrightarrow> b = 3 \<and> c = 24 \<and> e = 3"
    unfolding step [OF zero_less_numeral] m using assms(2-7) by linarith+
  then show ?thesis by (auto simp: is_leap_def)
qed

lemma year_yday_of:
  assumes "0 \<le> yd" "yd < 365 + leap_day (is_leap y)"
  shows "year_yday (year_days y + yd) = (y, yd)"
proof -
  define a p where "a = (y - 1) div 400" and "p = (y - 1) mod 400"
  define b q where "b = p div 100" and "q = p mod 100"
  define c e where "c = q div 4" and "e = q mod 4"
  have p: "0 \<le> p" "p < 400" and q: "0 \<le> q" "q < 100" by (simp_all add: p_def q_def)
  have eqs: "y - 1 = 400 * a + p" "p = 100 * b + q" "q = 4 * c + e"
    by (simp_all add: a_def p_def b_def q_def c_def e_def)
  have e: "0 \<le> e" "e < 4" by (simp_all add: e_def)
  have y: "y - 1 = 400 * a + 100 * b + 4 * c + e" using eqs by simp
  have rng: "0 \<le> b" "b < 4" "0 \<le> c" "c < 25" "0 \<le> e" "e < 4"
    using e eqs p q by linarith+
  note leap = is_leap_cycles [OF y rng]
  define r1 r where "r1 = 1461 * c + 365 * e + yd" and "r = 36524 * b + r1"
  have n: "year_days y + yd + 719162 = 146097 * a + r"
    using year_days_cycles [OF y rng] by (simp add: r_def r1_def)
  have yd: "0 \<le> yd" "yd \<le> 365" "yd = 365 \<longrightarrow> e = 3 \<and> (c \<noteq> 24 \<or> b = 3)"
    using assms leap by (auto simp: leap_day_def split: if_splits)
  have r1: "0 \<le> r1" "r1 \<le> 36524" "r1 = 36524 \<longrightarrow> b = 3"
    using yd rng unfolding r1_def by (linarith, linarith, auto)
  have r: "0 \<le> r" "r < 146097" using r1 rng unfolding r_def by linarith+
  have b': "min 3 (r div 36524) = b"
  proof (cases "r1 = 36524")
    case True
    with r1 have "r div 36524 = 4" unfolding r_def by simp
    with True r1 show ?thesis by simp
  next
    case False
    with r1 have "r div 36524 = b" unfolding r_def by (intro same_block) auto
    with rng show ?thesis by simp
  qed
  have "365 * e + yd < 1461" using yd rng by auto
  then have c': "r1 div 1461 = c" "r1 mod 1461 = 365 * e + yd"
    using yd rng div_mod_uniq [of r1 1461 c "365 * e + yd"] unfolding r1_def by auto
  have e': "min 3 ((365 * e + yd) div 365) = e"
  proof (cases "yd = 365")
    case True
    with yd show ?thesis by simp
  next
    case False
    with yd have "(365 * e + yd) div 365 = e" by (intro same_block) auto
    with rng show ?thesis by simp
  qed
  have n': "(year_days y + yd + 719162) div 146097 = a" "(year_days y + yd + 719162) mod 146097 = r"
    using div_mod_uniq [OF n r] by simp_all
  have r': "r - 36524 * b = r1" by (simp add: r_def)
  have "year_yday (year_days y + yd) = (400 * a + 100 * b + 4 * c + e + 1, 365 * e + yd - 365 * e)"
    by (simp only: year_yday_def Let_def n' b' r' c' e')
  with y show ?thesis by simp
qed

lemma days_before_month_of:
  assumes "1 \<le> m" "m \<le> 12" "1 \<le> d" "d \<le> days_before l (m + 1) - days_before l m"
  shows "month_of l (days_before l m + d - 1) = m"
proof -
  have "m \<in> {1..12}" using assms(1,2) by simp
  moreover have "{1..12} = {1, 2, 3, 4, 5, 6, 7, 8, 9, 10, 11, 12 :: int}"
    by (simp add: upto.simps flip: set_upto) (* the twelve months *)
  ultimately have "m \<in> {1, 2, 3, 4, 5, 6, 7, 8, 9, 10, 11, 12}" by (simp only:)
  then show ?thesis
    using assms(3,4)
    by (elim insertE) (simp_all add: month_of_def days_before_def leap_day_def Let_def)
qed

lemma days_before_le:
  "1 \<le> m \<Longrightarrow> m \<le> 12 \<Longrightarrow> 0 \<le> days_before l m \<and> days_before l (m + 1) \<le> 365 + leap_day l"
  by (auto simp: days_before_def leap_day_def)

text \<open>The date of the day number of a valid date is that date.\<close>

lemma days_of_civil:
  assumes "valid_date y m d"
  shows "days_to_civil (civil_to_days y m d) = (y, m, d)"
proof -
  let ?l = "is_leap y"
  let ?yd = "days_before ?l m + d - 1"
  from assms have v: "1 \<le> m" "m \<le> 12" "1 \<le> d" "d \<le> days_before ?l (m + 1) - days_before ?l m"
    by (simp_all add: valid_date_def days_in_def)
  have "0 \<le> ?yd" "?yd < 365 + leap_day ?l"
    using v days_before_le [of m ?l] by auto
  then have "year_yday (year_days y + ?yd) = (y, ?yd)" by (rule year_yday_of)
  moreover have "civil_to_days y m d = year_days y + ?yd" by (simp add: civil_to_days_def)
  ultimately show ?thesis
    using days_before_month_of [OF v] by (simp only: days_to_civil_def Let_def split) simp
qed

lemma civil_to_days_add: "civil_to_days y m (d + k) = civil_to_days y m d + k"
  by (simp add: civil_to_days_def)

section \<open>Dates and clock readings of an instant\<close>

definition unix :: "time \<Rightarrow> int" where
  "unix t = t_ns t div ns_per_sec"

text \<open>The seconds shown by a wall clock of the location of \<open>t\<close>.\<close>

definition local_sec :: "time \<Rightarrow> int" where
  "local_sec t = unix t + z_offset (t_loc t (unix t))"

definition local_day :: "time \<Rightarrow> int" where
  "local_day t = local_sec t div sec_per_day"

definition YearMonthDay :: "time \<Rightarrow> int \<times> int \<times> int" where
  "YearMonthDay t = days_to_civil (local_day t)"

definition Hour :: "time \<Rightarrow> int" where "Hour t = local_sec t mod sec_per_day div 3600"
definition Minute :: "time \<Rightarrow> int" where "Minute t = local_sec t mod 3600 div 60"
definition Second :: "time \<Rightarrow> int" where "Second t = local_sec t mod 60"
definition Nanosecond :: "time \<Rightarrow> int" where "Nanosecond t = t_ns t mod ns_per_sec"

text \<open>\<open>time.Weekday\<close>: Sunday is 0; day 0 of the Unix epoch was a Thursday.\<close>

definition weekday_of_day :: "int \<Rightarrow> int" where "weekday_of_day n = (n + 4) mod 7"
definition Weekday :: "time \<Rightarrow> int" where "Weekday t = weekday_of_day (local_day t)"

text \<open>
  \<open>time.Date\<close>: month, day, hour, minute, second and nanosecond outside their usual ranges carry
  over, and the wall-clock reading is turned into an instant with the offset in force, looked up
  twice when the first guess lies outside the zone it found.
\<close>

definition Date :: "int \<Rightarrow> int \<Rightarrow> int \<Rightarrow> int \<Rightarrow> int \<Rightarrow> int \<Rightarrow> int \<Rightarrow> location \<Rightarrow> time" where
  "Date y mo d h mi s ns loc =
     (let y' = y + (mo - 1) div 12;
          mo' = (mo - 1) mod 12 + 1;
          wall = civil_to_days y' mo' d * sec_per_day + h * 3600 + mi * 60 + s + ns div ns_per_sec;
          z = loc wall;
          u = wall - z_offset z;
          off = (if z_offset z = 0 then 0
                 else if u < z_start z \<or> z_end z \<le> u then z_offset (loc u)
                 else z_offset z)
      in \<lparr>t_ns = (wall - off) * ns_per_sec + ns mod ns_per_sec, t_loc = loc\<rparr>)"

definition AddDate :: "time \<Rightarrow> int \<Rightarrow> int \<Rightarrow> int \<Rightarrow> time" where
  "AddDate t years months days =
     (case YearMonthDay t of (y, m, d) \<Rightarrow>
        Date (y + years) (m + months) (d + days)
          (Hour t) (Minute t) (Second t) (Nanosecond t) (t_loc t))"

lemma In_simps [simp]: "t_ns (In t loc) = t_ns t" "t_loc (In t loc) = loc"
  by (simp_all add: In_def)

lemma Date_loc [simp]: "t_loc (Date y mo d h mi s ns loc) = loc"
  by (simp add: Date_def Let_def)

lemma AddDate_loc [simp]: "t_loc (AddDate t y m d) = t_loc t"
  by (simp add: AddDate_def split: prod.splits)

lemma month_of_range: "1 \<le> month_of l yd \<and> month_of l yd \<le> 12"
  by (simp add: month_of_def Let_def)

lemma days_to_civil_month: "days_to_civil n = (y, m, d) \<Longrightarrow> 1 \<le> m \<and> m \<le> 12"
  using month_of_range by (auto simp: days_to_civil_def Let_def split: prod.splits)

subsection \<open>Fixed zones\<close>

text \<open>
  In a location with one zone the wall clock is the instant plus a constant, so dates and clock
  readings are plain arithmetic on the wall-clock nanoseconds.
\<close>

definition local_ns :: "int \<Rightarrow> time \<Rightarrow> int" where
  "local_ns off t = t_ns t + off * ns_per_sec"

lemma local_sec_fixed: "t_loc t = fixed_zone off \<Longrightarrow> local_sec t = local_ns off t div ns_per_sec"
  by (simp add: local_sec_def unix_def local_ns_def fixed_zone_def)

lemma local_day_fixed: "t_loc t = fixed_zone off \<Longrightarrow> local_day t = local_ns off t div ns_per_day"
  by (simp add: local_day_def local_sec_fixed zdiv_zmult2_eq [symmetric])

lemma Date_fixed:
  assumes "1 \<le> m" "m \<le> 12"
  shows "local_ns off (Date y m d h mi s ns (fixed_zone off)) =
    (civil_to_days y m d * sec_per_day + h * 3600 + mi * 60 + s) * ns_per_sec + ns"
proof -
  have "(m - 1) div 12 = 0" "(m - 1) mod 12 + 1 = m" using assms by simp_all
  then show ?thesis
    by (simp add: Date_def Let_def local_ns_def fixed_zone_def algebra_simps)
qed

lemma Date_same_day:
  assumes "t_loc t = fixed_zone off" "YearMonthDay t = (y, m, d)"
  shows "local_ns off (Date y m (d + k) h mi s ns (fixed_zone off)) =
    (local_day t + k) * ns_per_day + (h * 3600 + mi * 60 + s) * ns_per_sec + ns"
proof -
  from assms(2) have civ: "days_to_civil (local_day t) = (y, m, d)" by (simp add: YearMonthDay_def)
  show ?thesis
    using days_to_civil_month [OF civ] civil_of_days [OF civ]
    by (simp add: Date_fixed civil_to_days_add algebra_simps)
qed

lemma clock_parts: "(x mod 86400) div 3600 * 3600 + (x mod 3600) div 60 * 60 + x mod 60 = x mod (86400 :: int)"
proof -
  have "x mod 86400 mod 3600 = x mod 3600" "x mod 3600 mod 60 = x mod 60"
    by (simp_all add: mod_mod_cancel)
  then show ?thesis
    using div_mult_mod_eq [of "x mod 86400" 3600] div_mult_mod_eq [of "x mod 3600" 60] by linarith
qed

lemma day_parts:
  fixes x :: int
  assumes a: "a = x div ns_per_sec"
  shows "(a div sec_per_day + k) * ns_per_day + (a mod sec_per_day) * ns_per_sec + x mod ns_per_sec
    = x + k * ns_per_day"
proof -
  obtain q r where q: "q = a div sec_per_day" and r: "r = a mod sec_per_day" and "a = q * sec_per_day + r"
    by (metis div_mult_mod_eq)
  moreover obtain n where n: "n = x mod ns_per_sec" and "x = a * ns_per_sec + n"
    using a by (metis div_mult_mod_eq)
  ultimately show ?thesis unfolding q [symmetric] r [symmetric] n [symmetric]
    by (simp add: algebra_simps)
qed

text \<open>In a fixed zone \<open>AddDate(0, 0, k)\<close> is \<open>k\<close> times 24 hours.\<close>

lemma AddDate_fixed:
  assumes "t_loc t = fixed_zone off"
  shows "t_ns (AddDate t 0 0 k) = t_ns t + k * ns_per_day"
proof -
  obtain y m d where ymd: "YearMonthDay t = (y, m, d)" by (cases "YearMonthDay t") auto
  let ?L = "local_ns off t"
  have sec: "local_sec t = ?L div ns_per_sec" by (rule local_sec_fixed [OF assms])
  have ns: "Nanosecond t = ?L mod ns_per_sec" by (simp add: Nanosecond_def local_ns_def)
  have "local_ns off (AddDate t 0 0 k) = (local_day t + k) * ns_per_day +
      (Hour t * 3600 + Minute t * 60 + Second t) * ns_per_sec + Nanosecond t"
    by (simp add: AddDate_def ymd assms Date_same_day [OF assms ymd])
  also have "Hour t * 3600 + Minute t * 60 + Second t = local_sec t mod sec_per_day"
    unfolding Hour_def Minute_def Second_def by (rule clock_parts)
  also have "(local_day t + k) * ns_per_day + (local_sec t mod sec_per_day) * ns_per_sec + Nanosecond t
      = ?L + k * ns_per_day"
    unfolding local_day_def sec ns by (rule day_parts) simp
  finally show ?thesis by (simp add: local_ns_def)
qed

section \<open>Parse and Format\<close>

definition is_digit :: "char \<Rightarrow> bool" where "is_digit c = (digit_val c \<noteq> None)"

definition dval :: "char \<Rightarrow> int" where
  "dval c = (case digit_val c of None \<Rightarrow> 0 | Some n \<Rightarrow> int n)"

text \<open>\<open>getnum\<close> of the package: a number of two digits, or of one digit unless \<open>fixed\<close>.\<close>

fun getnum :: "string \<Rightarrow> bool \<Rightarrow> (int \<times> string) option" where
  "getnum [] fixed = None"
| "getnum (a # s) fixed =
     (if \<not> is_digit a then None
      else if s \<noteq> [] \<and> is_digit (hd s) then Some (10 * dval a + dval (hd s), tl s)
      else if fixed then None
      else Some (dval a, s))"

text \<open>The literal bytes between the fields of a layout.\<close>

fun skip_char :: "char \<Rightarrow> string \<Rightarrow> string option" where
  "skip_char c [] = None"
| "skip_char c (x # s) = (if x = c then Some s else None)"

text \<open>\<open>time.Parse("15:04", s)\<close>: hour and minute on January 1 of year 0, UTC.\<close>

definition Parse_hhmm :: "string \<Rightarrow> time option" where
  "Parse_hhmm s =
     Option.bind (getnum s False) (\<lambda>(h, s1).
     if 24 \<le> h then None else
     Option.bind (skip_char CHR '':'' s1) (\<lambda>s2.
     Option.bind (getnum s2 True) (\<lambda>(mi, s3).
     if 60 \<le> mi \<or> s3 \<noteq> [] then None
     else Some (Date 0 1 1 h mi 0 0 utc))))"

text \<open>\<open>time.Parse("02/01/2006", s)\<close>: midnight UTC of the day; the date must exist.\<close>

definition get_year :: "string \<Rightarrow> (int \<times> string) option" where
  "get_year s =
     (if length s < 4 \<or> \<not> list_all is_digit (take 4 s) then None
      else Some (foldl (\<lambda>n c. 10 * n + dval c) 0 (take 4 s), drop 4 s))"

definition Parse_ddmmyyyy :: "string \<Rightarrow> time option" where
  "Parse_ddmmyyyy s =
     Option.bind (getnum s True) (\<lambda>(d, s1).
     Option.bind (skip_char CHR ''/'' s1) (\<lambda>s2.
     Option.bind (getnum s2 True) (\<lambda>(m, s3).
     if m \<le> 0 \<or> 12 < m then None else
     Option.bind (skip_char CHR ''/'' s3) (\<lambda>s4.
     Option.bind (get_year s4) (\<lambda>(y, s5).
     if s5 \<noteq> [] \<or> d < 1 \<or> days_in m y < d then None
     else Some (Date y m d 0 0 0 0 utc))))))"

text \<open>\<open>appendInt(x, width)\<close> and \<open>Format("02/01/2006")\<close>.\<close>

definition pad_nat :: "nat \<Rightarrow> nat \<Rightarrow> string" where
  "pad_nat width n = (let ds = show_nat n in replicate (width - length ds) (CHR ''0'') @ ds)"

definition append_int :: "nat \<Rightarrow> int \<Rightarrow> string" where
  "append_int width x = (if x < 0 then CHR ''-'' # pad_nat width (nat (- x)) else pad_nat width (nat x))"

definition Format_ddmmyyyy :: "time \<Rightarrow> string" where
  "Format_ddmmyyyy t =
     (case YearMonthDay t of (y, m, d) \<Rightarrow>
        append_int 2 d @ CHR ''/'' # append_int 2 m @ CHR ''/'' # append_int 4 y)"

subsection \<open>What the parsers accept\<close>

lemma is_digit_char [simp]: "n < 10 \<Longrightarrow> is_digit (digit_char n)"
  by (simp add: is_digit_def)

lemma dval_char [simp]: "n < 10 \<Longrightarrow> dval (digit_char n) = int n"
  by (simp add: dval_def)

lemma dval_range: "0 \<le> dval c \<and> dval c \<le> 9"
  using digit_val_bound [of c] by (auto simp: dval_def split: option.splits)

lemma getnum_range: "getnum s f = Some (n, s') \<Longrightarrow> 0 \<le> n \<and> n \<le> 99"
proof (cases s)
  case (Cons a s1)
  then show "getnum s f = Some (n, s') \<Longrightarrow> 0 \<le> n \<and> n \<le> 99"
    using dval_range [of a] dval_range [of "hd s1"] by (auto split: if_splits)
qed simp

lemma digit_char_0: "digit_char 0 = CHR ''0''"
  by code_simp

lemma pad_nat_1: "n < 10 \<Longrightarrow> pad_nat 1 n = [digit_char n]"
  by (simp add: pad_nat_def show_nat.simps [of n])

lemma pad_nat_Suc: "1 \<le> w \<Longrightarrow> pad_nat (Suc w) n = pad_nat w (n div 10) @ [digit_char (n mod 10)]"
proof (cases "n < 10")
  case True
  moreover assume "1 \<le> w"
  moreover have "show_nat 0 = [CHR ''0'']"
    by (simp add: show_nat.simps [of 0] digit_char_0)
  ultimately show ?thesis
    by (cases w) (simp_all add: pad_nat_def show_nat.simps [of n] replicate_append_same)
next
  case False
  then show ?thesis by (simp add: pad_nat_def show_nat.simps [of n] Let_def)
qed

lemma pad_nat_2: "n < 100 \<Longrightarrow> pad_nat 2 n = [digit_char (n div 10), digit_char (n mod 10)]"
  using pad_nat_Suc [of 1 n] pad_nat_1 [of "n div 10"] by (simp add: numeral_2_eq_2)

lemma pad_nat_4:
  assumes "n < 10000"
  shows "pad_nat 4 n = [digit_char (n div 1000), digit_char (n div 100 mod 10),
    digit_char (n div 10 mod 10), digit_char (n mod 10)]"
proof -
  have "pad_nat 4 n = pad_nat 2 (n div 10 div 10) @ [digit_char (n div 10 mod 10), digit_char (n mod 10)]"
    using pad_nat_Suc [of 3 n] pad_nat_Suc [of 2 "n div 10"] by simp
  moreover have "n div 10 div 10 = n div 100" "n div 100 div 10 = n div 1000" "n div 100 < 100"
    using assms by (simp_all add: div_mult2_eq [symmetric])
  ultimately show ?thesis by (simp add: pad_nat_2)
qed

lemma getnum_two [simp]:
  "a < 10 \<Longrightarrow> b < 10 \<Longrightarrow>
    getnum (digit_char a # digit_char b # s) f = Some (10 * int a + int b, s)"
  by simp

lemma getnum_pad: "0 \<le> x \<Longrightarrow> x < 100 \<Longrightarrow> getnum (append_int 2 x @ s) f = Some (x, s)"
proof -
  assume x: "0 \<le> x" "x < 100"
  then have n: "nat x < 100" by simp
  have "10 * int (nat x div 10) + int (nat x mod 10) = x"
    using x by (metis int_nat_eq mult_div_mod_eq of_nat_add of_nat_mult of_nat_numeral)
  with x n show ?thesis by (simp add: append_int_def pad_nat_2 less_mult_imp_div_less)
qed

lemma get_year_pad: "0 \<le> y \<Longrightarrow> y \<le> 9999 \<Longrightarrow> get_year (append_int 4 y) = Some (y, [])"
proof -
  assume y: "0 \<le> y" "y \<le> 9999"
  then have n: "nat y < 10000" by simp
  have "nat y = 10 * (10 * (10 * (nat y div 1000) + nat y div 100 mod 10) + nat y div 10 mod 10) + nat y mod 10"
    using mult_div_mod_eq [of 10 "nat y"] mult_div_mod_eq [of 10 "nat y div 10"]
      mult_div_mod_eq [of 10 "nat y div 100"] by (simp add: div_mult2_eq [symmetric])
  then have "int (nat y) = 10 * (10 * (10 * int (nat y div 1000) + int (nat y div 100 mod 10))
      + int (nat y div 10 mod 10)) + int (nat y mod 10)"
    by (metis of_nat_add of_nat_mult of_nat_numeral)
  then have "10 * (10 * (10 * int (nat y div 1000) + int (nat y div 100 mod 10))
      + int (nat y div 10 mod 10)) + int (nat y mod 10) = y"
    using y(1) by simp
  with y n show ?thesis by (simp add: get_year_def append_int_def pad_nat_4 less_mult_imp_div_less)
qed

lemma days_in_le: "days_in m y \<le> 31"
  by (auto simp: days_in_def days_before_def leap_day_def)

text \<open>Reading back a formatted date gives midnight UTC of that date.\<close>

lemma Parse_Format_valid:
  assumes "YearMonthDay t = (y, m, d)" "0 \<le> y" "y \<le> 9999" "valid_date y m d"
  shows "Parse_ddmmyyyy (Format_ddmmyyyy t) = Some (Date y m d 0 0 0 0 utc)"
proof -
  have "1 \<le> m" "m \<le> 12" "1 \<le> d" "d \<le> days_in m y" "d \<le> 31"
    using assms(4) days_in_le [of m y] by (auto simp: valid_date_def)
  with assms(1-3) show ?thesis
    by (simp add: Parse_ddmmyyyy_def Format_ddmmyyyy_def getnum_pad get_year_pad)
qed

lemma month_of_cascade:
  "month_of l yd =
    (if yd < days_before l 2 then 1 else if yd < days_before l 3 then 2
     else if yd < days_before l 4 then 3 else if yd < days_before l 5 then 4
     else if yd < days_before l 6 then 5 else if yd < days_before l 7 then 6
     else if yd < days_before l 8 then 7 else if yd < days_before l 9 then 8
     else if yd < days_before l 10 then 9 else if yd < days_before l 11 then 10
     else if yd < days_before l 12 then 11 else 12)"
  by (simp add: month_of_def days_before_def leap_day_def Let_def)

lemma month_of_spec:
  assumes "0 \<le> yd" "yd < 365 + leap_day l" "month_of l yd = m"
  shows "days_before l m \<le> yd \<and> yd < days_before l (m + 1)"
proof -
  have "days_before l 1 = 0" "days_before l 13 = 365 + leap_day l"
    by (simp_all add: days_before_def)
  with assms show ?thesis
    by (simp add: month_of_cascade split: if_splits)
qed

lemma year_yday_range:
  assumes "year_yday n = (y, yd)"
  shows "0 \<le> yd \<and> yd < 365 + leap_day (is_leap y)"
proof -
  from year_yday_decomp [OF assms] obtain a b c e
    where d: "y - 1 = 400 * a + 100 * b + 4 * c + e"
      "0 \<le> b" "b < 4" "0 \<le> c" "c < 25" "0 \<le> e" "e < 4"
      and yd: "0 \<le> yd" "yd \<le> 365" "yd = 365 \<longrightarrow> e = 3 \<and> (c \<noteq> 24 \<or> b = 3)" by metis
  from is_leap_cycles [OF d] yd show ?thesis by (auto simp: leap_day_def)
qed

text \<open>Every day number has a valid date.\<close>

lemma days_to_civil_valid: "days_to_civil n = (y, m, d) \<Longrightarrow> valid_date y m d"
proof -
  assume asm: "days_to_civil n = (y, m, d)"
  obtain yd where yd: "year_yday n = (y, yd)" and m: "m = month_of (is_leap y) yd"
    and d: "d = yd - days_before (is_leap y) m + 1"
    using asm by (auto simp: days_to_civil_def Let_def split: prod.splits)
  have "0 \<le> yd" "yd < 365 + leap_day (is_leap y)" using year_yday_range [OF yd] by simp_all
  from month_of_spec [OF this m [symmetric]] show ?thesis
    using month_of_range [of "is_leap y" yd] by (simp add: valid_date_def days_in_def d) (simp add: m)
qed

lemma Parse_Format:
  assumes "YearMonthDay t = (y, m, d)" "0 \<le> y" "y \<le> 9999"
  shows "Parse_ddmmyyyy (Format_ddmmyyyy t) = Some (Date y m d 0 0 0 0 utc)"
  using assms by (intro Parse_Format_valid) (auto simp: YearMonthDay_def dest: days_to_civil_valid)

lemma clock_utc:
  assumes "0 \<le> h" "h < 24" "0 \<le> mi" "mi < 60"
  shows "Hour (Date y m d h mi 0 0 utc) = h" "Minute (Date y m d h mi 0 0 utc) = mi"
proof -
  obtain q where "local_sec (Date y m d h mi 0 0 utc) = q * sec_per_day + (h * 3600 + mi * 60)"
    by (auto simp: local_sec_def unix_def Date_def Let_def utc_def fixed_zone_def)
  then have s: "local_sec (Date y m d h mi 0 0 utc) mod sec_per_day = h * 3600 + mi * 60"
      "local_sec (Date y m d h mi 0 0 utc) mod 3600 = mi * 60"
    using assms
    by (auto intro!: div_mod_uniq [of _ sec_per_day q, THEN conjunct2]
        div_mod_uniq [of _ 3600 "q * 24 + h", THEN conjunct2])
  from s(1) show "Hour (Date y m d h mi 0 0 utc) = h"
    using assms by (simp add: Hour_def same_block)
  from s(2) show "Minute (Date y m d h mi 0 0 utc) = mi" by (simp add: Minute_def)
qed

lemma Parse_hhmm_range:
  "Parse_hhmm s = Some t \<Longrightarrow> 0 \<le> Hour t \<and> Hour t < 24 \<and> 0 \<le> Minute t \<and> Minute t < 60"
  by (auto simp: Parse_hhmm_def clock_utc split: if_splits Option.bind_splits dest!: getnum_range)

end
