(* ===== verification/Schedule_Spec.thy ===== *)
theory Schedule_Spec
  imports Schedule
begin

text \<open>
  What \<open>internal/logic/time.go\<close> promises, stated on the wall clock (nanoseconds since local midnight
  of 1970-01-01).  A schedule is a sequence of shifts, one for each working day: the shift of a day
  starts at the wake time of that day and ends at the next sleep time.  The lemmas show that
  \<open>GetTimeState\<close> computes membership in a shift and the next boundary.  They are stated for
  locations with a single zone (UTC and the fixed offsets), where a day has 24 hours.
\<close>

section \<open>Shifts and events\<close>

definition shift_start :: "int \<Rightarrow> int \<Rightarrow> int" where
  "shift_start W d = d * ns_per_day + W"

definition shift_end :: "int \<Rightarrow> int \<Rightarrow> int \<Rightarrow> int" where
  "shift_end W S d = (if W < S then d else d + 1) * ns_per_day + S"

definition awake_at :: "(int \<Rightarrow> bool) \<Rightarrow> int \<Rightarrow> int \<Rightarrow> int \<Rightarrow> bool" where
  "awake_at work W S x \<longleftrightarrow> (\<exists>d. work d \<and> shift_start W d \<le> x \<and> x < shift_end W S d)"

text \<open>
  With equal times there are no shifts: the code takes a working day as awake from midnight to midnight.
\<close>

definition awake_state :: "(int \<Rightarrow> bool) \<Rightarrow> int \<Rightarrow> int \<Rightarrow> int \<Rightarrow> bool" where
  "awake_state work W S x = (if W = S then work (x div ns_per_day) else awake_at work W S x)"

definition is_event :: "int \<Rightarrow> int \<Rightarrow> int \<Rightarrow> bool" where
  "is_event W S e \<longleftrightarrow> e mod ns_per_day = W \<or> e mod ns_per_day = S"

text \<open>Whether day number \<open>n\<close> is a working day of the string \<open>s\<close>.\<close>

definition day_works :: "string \<Rightarrow> int \<Rightarrow> bool" where
  "day_works s n \<longleftrightarrow>
     s = '''' \<or> weekday_of_day n \<in> \<Union> (part_days ` set (Split CHR '','' (ToLower s)))"

lemma isDayWorking_day_works: "isDayWorking t s = day_works s (local_day t)"
  by (simp add: isDayWorking_days day_works_def Weekday_def)

text \<open>The time of day of a parsed clock reading, in nanoseconds.\<close>

definition clock_ns :: "time \<Rightarrow> int" where
  "clock_ns t = (Hour t * 3600 + Minute t * 60) * ns_per_sec"

lemma clock_ns_range: "Parse_hhmm s = Some t \<Longrightarrow> 0 \<le> clock_ns t \<and> clock_ns t < ns_per_day"
  using Parse_hhmm_range [of s t] by (simp add: clock_ns_def)

lemma event_mod: "0 \<le> W \<Longrightarrow> W < ns_per_day \<Longrightarrow> (d * ns_per_day + W) mod ns_per_day = W"
  using div_mod_uniq [of "d * ns_per_day + W" ns_per_day d W] by simp

lemma shift_bounds_events:
  assumes "0 \<le> W" "W < ns_per_day" "0 \<le> S" "S < ns_per_day"
  shows "is_event W S (shift_start W d)" "is_event W S (shift_end W S d)"
  using assms by (simp_all only: is_event_def shift_start_def shift_end_def event_mod simp_thms)

text \<open>Between two moments with no event after the first, the state does not change.\<close>

lemma awake_constant:
  assumes "0 \<le> W" "W < ns_per_day" "0 \<le> S" "S < ns_per_day" "x \<le> y"
    and no_event: "\<And>e. x < e \<Longrightarrow> e \<le> y \<Longrightarrow> \<not> is_event W S e"
  shows "awake_at work W S x = awake_at work W S y"
proof -
  note ev = shift_bounds_events [OF assms(1-4)]
  have "shift_start W d \<le> x \<longleftrightarrow> shift_start W d \<le> y" "x < shift_end W S d \<longleftrightarrow> y < shift_end W S d" for d
    using no_event [of "shift_start W d"] no_event [of "shift_end W S d"] ev [of d] \<open>x \<le> y\<close>
    by (meson not_le order_trans order.strict_trans2)+
  then show ?thesis by (simp add: awake_at_def)
qed

text \<open>The shifts that can hold a moment are those of its own day and, overnight, of the day before.\<close>

lemma awake_at_day:
  assumes W: "0 \<le> W" "W < ns_per_day" and S: "0 \<le> S" "S < ns_per_day"
    and x: "D * ns_per_day \<le> x" "x < D * ns_per_day + ns_per_day"
  shows "W < S \<Longrightarrow> awake_at work W S x \<longleftrightarrow>
      work D \<and> D * ns_per_day + W \<le> x \<and> x < D * ns_per_day + S"
    and "S < W \<Longrightarrow> awake_at work W S x \<longleftrightarrow>
      work D \<and> D * ns_per_day + W \<le> x \<or> work (D - 1) \<and> x < D * ns_per_day + S"
proof -
  assume "W < S"
  then have "d = D" if "shift_start W d \<le> x" "x < shift_end W S d" for d
    using that x W S unfolding shift_start_def shift_end_def by (simp split: if_splits)
  with \<open>W < S\<close> show "awake_at work W S x \<longleftrightarrow>
      work D \<and> D * ns_per_day + W \<le> x \<and> x < D * ns_per_day + S"
    by (auto simp: awake_at_def shift_start_def shift_end_def)
next
  assume "S < W"
  then have in_shift: "d = D \<and> D * ns_per_day + W \<le> x \<or> d = D - 1 \<and> x < D * ns_per_day + S"
    if "shift_start W d \<le> x" "x < shift_end W S d" for d
  proof -
    have b: "d * ns_per_day + W \<le> x" "x < (d + 1) * ns_per_day + S"
      using that \<open>S < W\<close> by (simp_all add: shift_start_def shift_end_def)
    then have "d * ns_per_day < (D + 1) * ns_per_day" "D * ns_per_day < (d + 2) * ns_per_day"
      using x W S by (simp_all add: algebra_simps)
    then have "d = D \<or> d = D - 1" by auto
    with b show ?thesis by (auto simp: algebra_simps)
  qed
  have "shift_start W D \<le> x \<and> x < shift_end W S D" if "D * ns_per_day + W \<le> x"
    using that \<open>S < W\<close> x S by (simp add: shift_start_def shift_end_def)
  moreover have "shift_start W (D - 1) \<le> x \<and> x < shift_end W S (D - 1)" if "x < D * ns_per_day + S"
    using that \<open>S < W\<close> x W by (simp add: shift_start_def shift_end_def)
  ultimately have key: "shift_start W d \<le> x \<and> x < shift_end W S d \<longleftrightarrow>
      d = D \<and> D * ns_per_day + W \<le> x \<or> d = D - 1 \<and> x < D * ns_per_day + S" for d
    using in_shift [of d] by blast
  show "awake_at work W S x \<longleftrightarrow>
      work D \<and> D * ns_per_day + W \<le> x \<or> work (D - 1) \<and> x < D * ns_per_day + S"
    unfolding awake_at_def key by blast
qed

text \<open>The first moment at or after \<open>x\<close> whose time of day is \<open>W\<close>.\<close>

definition next_at :: "int \<Rightarrow> int \<Rightarrow> int" where
  "next_at W x = x + (W - x) mod ns_per_day"

lemma next_at_props:
  assumes "0 \<le> W" "W < ns_per_day"
  shows "x \<le> next_at W x" "next_at W x < x + ns_per_day" "next_at W x mod ns_per_day = W"
    and "x \<le> e \<Longrightarrow> e mod ns_per_day = W \<Longrightarrow> next_at W x \<le> e"
proof -
  show "x \<le> next_at W x" "next_at W x < x + ns_per_day" by (simp_all add: next_at_def)
  show m: "next_at W x mod ns_per_day = W"
    using assms by (simp add: next_at_def mod_add_right_eq)
  assume e: "x \<le> e" "e mod ns_per_day = W"
  have "(e - x) mod ns_per_day = (W - x) mod ns_per_day"
    using e(2) by (metis mod_diff_left_eq)
  moreover have "(e - x) mod ns_per_day \<le> e - x" using e(1) by (simp add: zmod_le_nonneg_dividend)
  ultimately show "next_at W x \<le> e" by (simp add: next_at_def)
qed

lemma next_at_day:
  assumes "0 \<le> W" "W < ns_per_day" "D * ns_per_day \<le> x" "x < D * ns_per_day + ns_per_day"
  shows "next_at W x = (if D * ns_per_day + W < x then (D + 1) * ns_per_day + W else D * ns_per_day + W)"
proof -
  have "(W - x) mod ns_per_day =
      (if D * ns_per_day + W < x then (D + 1) * ns_per_day + W - x else D * ns_per_day + W - x)"
    using assms div_mod_uniq [of "W - x" ns_per_day "- D" "D * ns_per_day + W - x"]
      div_mod_uniq [of "W - x" ns_per_day "- D - 1" "(D + 1) * ns_per_day + W - x"] by auto
  then show ?thesis by (simp add: next_at_def)
qed

section \<open>What GetTimeState computes in a fixed zone\<close>

definition next_event :: "int \<Rightarrow> int \<Rightarrow> int \<Rightarrow> int \<times> string" where
  "next_event W S x =
     (if next_at W x < next_at S x then (next_at W x, ''Wake'') else (next_at S x, ''Sleep''))"

lemma parseSchedule_fixed:
  assumes "LoadLocation tz timezone = Some (fixed_zone off)"
    and "Parse_hhmm wakeAt = Some wk" "Parse_hhmm sleepAt = Some sl"
  obtains tw ts where
    "parseSchedule tz now wakeAt sleepAt timezone = Inr (In now (fixed_zone off), tw, ts)"
    "local_ns off tw = local_day (In now (fixed_zone off)) * ns_per_day + clock_ns wk"
    "local_ns off ts = local_day (In now (fixed_zone off)) * ns_per_day + clock_ns sl"
    "t_loc tw = fixed_zone off" "t_loc ts = fixed_zone off"
proof -
  let ?now = "In now (fixed_zone off)"
  obtain y m d where ymd: "YearMonthDay ?now = (y, m, d)" by (cases "YearMonthDay ?now") auto
  note dt = Date_same_day [of ?now off y m d 0, OF _ ymd, simplified]
  show thesis
    by (rule that [of "Date y m d (Hour wk) (Minute wk) 0 0 (fixed_zone off)"
          "Date y m d (Hour sl) (Minute sl) 0 0 (fixed_zone off)"])
      (simp_all add: parseSchedule_def parseTimeToLocation_def assms ymd dt clock_ns_def)
qed

lemma local_ns_less:
  "t_ns t < t_ns u \<longleftrightarrow> local_ns off t < local_ns off u"
  "t_ns t = t_ns u \<longleftrightarrow> local_ns off t = local_ns off u"
  by (simp_all add: local_ns_def)

lemma GetTimeState_fixed:
  assumes loc: "LoadLocation tz timezone = Some (fixed_zone off)"
    and wk: "Parse_hhmm wakeAt = Some wk" and sl: "Parse_hhmm sleepAt = Some sl"
  obtains next_t ev where
    "GetTimeState tz now wakeAt sleepAt timezone wd =
       Inr (\<not> awake_state (day_works wd) (clock_ns wk) (clock_ns sl) (local_ns off now), next_t, ev)"
    "(local_ns off next_t, ev) = next_event (clock_ns wk) (clock_ns sl) (local_ns off now)"
    "t_loc next_t = fixed_zone off"
proof -
  let ?now = "In now (fixed_zone off)"
  let ?W = "clock_ns wk" and ?S = "clock_ns sl" and ?x = "local_ns off now"
  define D where "D = local_day ?now"
  from parseSchedule_fixed [OF loc wk sl, of now] obtain tw ts where
    ps: "parseSchedule tz now wakeAt sleepAt timezone = Inr (?now, tw, ts)"
    and tw: "local_ns off tw = D * ns_per_day + ?W" and ts: "local_ns off ts = D * ns_per_day + ?S"
    and locs: "t_loc tw = fixed_zone off" "t_loc ts = fixed_zone off"
    unfolding D_def by metis
  have now: "local_ns off ?now = ?x" by (simp add: local_ns_def)
  have D: "?x div ns_per_day = D" unfolding D_def by (simp add: local_day_fixed now)
  then have x: "D * ns_per_day \<le> ?x" "?x < D * ns_per_day + ns_per_day"
    using div_bounds [of ns_per_day ?x] by (simp_all add: mult.commute)
  have W: "0 \<le> ?W" "?W < ns_per_day" and S: "0 \<le> ?S" "?S < ns_per_day"
    using clock_ns_range [OF wk] clock_ns_range [OF sl] by simp_all
  have add: "local_ns off (AddDate t 0 0 k) = local_ns off t + k * ns_per_day"
    if "t_loc t = fixed_zone off" for t k
    using AddDate_fixed [OF that, of k] by (simp add: local_ns_def)
  have yesterday: "local_day (AddDate ?now 0 0 (-1)) = D - 1"
    unfolding D_def by (simp add: local_day_fixed add now)
  note cmp = After_def Before_def Equal_def local_ns_less [where off = off] tw ts now
  consider (day) "?W < ?S" | (equal) "?W = ?S" | (night) "?S < ?W" by linarith
  then show thesis
  proof cases
    case day
    let ?tn = "if D * ns_per_day + ?W < ?x then AddDate tw 0 0 1 else tw"
    let ?sn = "if D * ns_per_day + ?S < ?x then AddDate ts 0 0 1 else ts"
    show thesis
      by (rule that [of "if next_at ?W ?x < next_at ?S ?x then ?tn else ?sn"
            "if next_at ?W ?x < next_at ?S ?x then ''Wake'' else ''Sleep''"])
        (use day x in \<open>auto simp: awake_state_def GetTimeState_def ps cmp isDayWorking_day_works D_def [symmetric]
           awake_at_day(1) [OF W S x] next_at_day [OF W x] next_at_day [OF S x] next_event_def add locs
           algebra_simps\<close>)
  next
    case equal
    let ?sn = "if D * ns_per_day + ?S < ?x then AddDate ts 0 0 1 else ts"
    show thesis
      by (rule that [of ?sn "''Sleep''"])
        (use equal x in \<open>auto simp: awake_state_def GetTimeState_def ps cmp isDayWorking_day_works D_def [symmetric] D
           next_at_day [OF S x] next_event_def add locs algebra_simps\<close>)
  next
    case night
    let ?tn = "if D * ns_per_day + ?W < ?x then AddDate tw 0 0 1 else tw"
    let ?sn = "if D * ns_per_day + ?S < ?x then AddDate ts 0 0 1 else ts"
    show thesis
      by (rule that [of "if next_at ?W ?x < next_at ?S ?x then ?tn else ?sn"
            "if next_at ?W ?x < next_at ?S ?x then ''Wake'' else ''Sleep''"])
        (use night x in \<open>auto simp: awake_state_def GetTimeState_def ps cmp isDayWorking_day_works D_def [symmetric]
           awake_at_day(2) [OF W S x] next_at_day [OF W x] next_at_day [OF S x] next_event_def add locs
           yesterday algebra_simps\<close>)
  qed
qed

lemma GetTimeState_fixed_iff:
  assumes "LoadLocation tz timezone = Some (fixed_zone off)"
    and "Parse_hhmm wakeAt = Some wk" "Parse_hhmm sleepAt = Some sl"
    and "GetTimeState tz now wakeAt sleepAt timezone wd = Inr (asleep, next_t, ev)"
  shows "asleep = (\<not> awake_state (day_works wd) (clock_ns wk) (clock_ns sl) (local_ns off now))"
    and "(local_ns off next_t, ev) = next_event (clock_ns wk) (clock_ns sl) (local_ns off now)"
    and "t_loc next_t = fixed_zone off"
  by (rule GetTimeState_fixed [OF assms(1-3), of now wd]; use assms(4) in simp)+

lemma next_event_props:
  assumes W: "0 \<le> W" "W < ns_per_day" and S: "0 \<le> S" "S < ns_per_day"
    and ne: "next_event W S x = (e, ev)"
  shows "x \<le> e" "e < x + ns_per_day"
    and "ev = ''Wake'' \<and> e mod ns_per_day = W \<or> ev = ''Sleep'' \<and> e mod ns_per_day = S"
    and "x \<le> e' \<Longrightarrow> e' < e \<Longrightarrow> \<not> is_event W S e'"
proof -
  note w = next_at_props [OF W, of x] and s = next_at_props [OF S, of x]
  show "x \<le> e" "e < x + ns_per_day"
    "ev = ''Wake'' \<and> e mod ns_per_day = W \<or> ev = ''Sleep'' \<and> e mod ns_per_day = S"
    using ne w(1-3) s(1-3) by (auto simp: next_event_def split: if_splits)
  assume e': "x \<le> e'" "e' < e"
  have "e \<le> next_at W x" "e \<le> next_at S x"
    using ne by (auto simp: next_event_def split: if_splits)
  with e' w(4) [of e'] s(4) [of e'] show "\<not> is_event W S e'"
    by (auto simp: is_event_def)
qed

text \<open>At a sleep time no shift is running; at a wake time one is, on a working day.\<close>

lemma awake_at_event:
  assumes W: "0 \<le> W" "W < ns_per_day" and S: "0 \<le> S" "S < ns_per_day" and neq: "W \<noteq> S"
  shows "e mod ns_per_day = S \<Longrightarrow> \<not> awake_at work W S e"
    and "e mod ns_per_day = W \<Longrightarrow> awake_at work W S e = work (e div ns_per_day)"
proof -
  let ?D = "e div ns_per_day"
  have e: "e = ?D * ns_per_day + e mod ns_per_day" by simp
  have x: "?D * ns_per_day \<le> e" "e < ?D * ns_per_day + ns_per_day"
    using div_bounds [of ns_per_day e] by (simp_all add: mult.commute)
  note day = awake_at_day [OF W S x, of work]
  show "e mod ns_per_day = S \<Longrightarrow> \<not> awake_at work W S e"
    using day e neq by (cases "W < S") auto
  show "e mod ns_per_day = W \<Longrightarrow> awake_at work W S e = work ?D"
    using day e neq S by (cases "W < S") auto
qed

section \<open>Example values\<close>

text \<open>A machine without a tz database, two times of day, and noon UTC on Monday 2025-11-24.\<close>

definition ex_tz :: tzinfo where
  "ex_tz = \<lparr>tz_local = utc, tz_db = (\<lambda>_. None)\<rparr>"

definition ex_noon :: time where
  "ex_noon = \<lparr>t_ns = 1763985600000000000, t_loc = utc\<rparr>"

lemma ex_utc: "LoadLocation ex_tz ''UTC'' = Some (fixed_zone 0)"
  by (simp add: LoadLocation_def utc_def)

lemma ex_0800: "Parse_hhmm ''08:00'' = Some (Date 0 1 1 8 0 0 0 utc)"
  by (simp add: Parse_hhmm_def is_digit_def dval_def digit_val_def)

lemma ex_2000: "Parse_hhmm ''20:00'' = Some (Date 0 1 1 20 0 0 0 utc)"
  by (simp add: Parse_hhmm_def is_digit_def dval_def digit_val_def)

lemma ex_clocks:
  "clock_ns (Date 0 1 1 8 0 0 0 utc) = 28800000000000"
  "clock_ns (Date 0 1 1 20 0 0 0 utc) = 72000000000000"
  by (simp_all add: clock_ns_def clock_utc)

lemma ex_clocks_neq: "clock_ns (Date 0 1 1 8 0 0 0 utc) \<noteq> clock_ns (Date 0 1 1 20 0 0 0 utc)"
  by (simp add: ex_clocks)

lemma ex_ns: "t_ns ex_noon = 1763985600000000000"
  by (simp add: ex_noon_def)

lemma ex_local: "local_ns 0 t = t_ns t"
  by (simp add: local_ns_def)

lemma ex_next: "next_event 28800000000000 72000000000000 1763985600000000000 = (1764014400000000000, ''Sleep'')"
  by (simp add: next_event_def next_at_def)

text \<open>Noon on Monday is in the shift of 08:00 to 20:00 of a Monday-to-Friday week.\<close>

lemma ex_monday: "day_works ''Monday-Friday'' 20416"
proof -
  have "list_ex (part_matches (weekday_of_day 20416)) (Split CHR '','' (ToLower ''Monday-Friday''))"
    by code_simp
  then show ?thesis
    by (auto simp: day_works_def list_ex_iff part_matches_days weekday_of_day_def)
qed

lemma ex_awake: "awake_at (day_works ''Monday-Friday'') 28800000000000 72000000000000 1763985600000000000"
  unfolding awake_at_def
  by (rule exI [of _ 20416]) (simp add: shift_start_def shift_end_def ex_monday)

lemma ex_GetTimeState:
  obtains next_t where
    "GetTimeState ex_tz ex_noon ''08:00'' ''20:00'' ''UTC'' ''Monday-Friday'' = Inr (False, next_t, ''Sleep'')"
    "t_ns next_t = 1764014400000000000"
  by (rule GetTimeState_fixed [OF ex_utc ex_0800 ex_2000, of ex_noon "''Monday-Friday''"])
    (auto simp: awake_state_def ex_clocks ex_local ex_ns ex_awake ex_next)

section \<open>Properties\<close>

lemma ShouldBeAsleep_fixed:
  assumes "LoadLocation tz timezone = Some (fixed_zone off)"
    and "Parse_hhmm wakeAt = Some wk" and "Parse_hhmm sleepAt = Some sl"
  shows "ShouldBeAsleep tz now wakeAt sleepAt timezone wd =
    Inr (\<not> awake_state (day_works wd) (clock_ns wk) (clock_ns sl) (local_ns off now))"
  by (rule GetTimeState_fixed [OF assms, of now wd]) (simp add: ShouldBeAsleep_def)

text \<open>
  C6: in a location of constant offset, \<open>ShouldBeAsleep\<close> answers by shifts: with two different times of
  day a workload is asleep exactly when the moment lies in no shift of a working day, where the shift of
  a day runs from its wake time to the next sleep time (overnight when the wake time is the later of the
  two).  With equal times it is asleep exactly on the days that are not working days.  This holds for
  every moment, every pair of times that parse, and every string of working days.
\<close>

theorem ShouldBeAsleep_shifts:
  assumes "LoadLocation tz timezone = Some (fixed_zone off)"
    and "Parse_hhmm wakeAt = Some wk" and "Parse_hhmm sleepAt = Some sl"
  shows "ShouldBeAsleep tz now wakeAt sleepAt timezone wd =
    Inr (\<not> awake_state (day_works wd) (clock_ns wk) (clock_ns sl) (local_ns off now))"
  using assms by (rule ShouldBeAsleep_fixed)

theorem ShouldBeAsleep_shifts_witness:
  "ShouldBeAsleep ex_tz ex_noon ''08:00'' ''20:00'' ''UTC'' ''Monday-Friday'' = Inr False"
  using ShouldBeAsleep_shifts [OF ex_utc ex_0800 ex_2000, of ex_noon "''Monday-Friday''"]
  by (simp add: awake_state_def ex_clocks ex_local ex_ns ex_awake)

text \<open>
  C7: in a location of constant offset, the event \<open>GetNextEvent\<close> announces is a wake or a sleep time of
  the schedule, labelled as what it is, not before the present moment, less than a day away, and no wake
  or sleep time lies from the present moment on and before it.  (Where clocks are changed, a day and so
  the time to an event may be longer.)
\<close>

theorem GetNextEvent_first:
  assumes "LoadLocation tz timezone = Some (fixed_zone off)"
    and "Parse_hhmm wakeAt = Some wk" and "Parse_hhmm sleepAt = Some sl"
    and "GetNextEvent tz now wakeAt sleepAt timezone wd = Inr (next_t, ev)"
  shows "t_ns now \<le> t_ns next_t \<and> t_ns next_t < t_ns now + ns_per_day \<and>
    (ev = ''Wake'' \<and> local_ns off next_t mod ns_per_day = clock_ns wk \<or>
     ev = ''Sleep'' \<and> local_ns off next_t mod ns_per_day = clock_ns sl) \<and>
    (\<forall>e. local_ns off now \<le> e \<and> e < local_ns off next_t \<longrightarrow>
      \<not> is_event (clock_ns wk) (clock_ns sl) e)"
proof -
  obtain asleep where gts: "GetTimeState tz now wakeAt sleepAt timezone wd = Inr (asleep, next_t, ev)"
    using assms(4) by (auto simp: GetNextEvent_def split: sum.splits)
  have W: "0 \<le> clock_ns wk" "clock_ns wk < ns_per_day" and S: "0 \<le> clock_ns sl" "clock_ns sl < ns_per_day"
    using clock_ns_range assms(2,3) by auto
  note props = next_event_props [OF W S GetTimeState_fixed_iff(2) [OF assms(1-3) gts, symmetric]]
  from props(1,2) have "t_ns now \<le> t_ns next_t" "t_ns next_t < t_ns now + ns_per_day"
    by (simp_all add: local_ns_def)
  with props(3,4) show ?thesis by blast
qed

theorem GetNextEvent_first_witness:
  "\<exists>next_t. GetNextEvent ex_tz ex_noon ''08:00'' ''20:00'' ''UTC'' ''Monday-Friday'' = Inr (next_t, ''Sleep'') \<and>
     t_ns ex_noon \<le> t_ns next_t \<and> local_ns 0 next_t mod ns_per_day = 72000000000000"
proof (rule ex_GetTimeState)
  fix next_t
  assume "GetTimeState ex_tz ex_noon ''08:00'' ''20:00'' ''UTC'' ''Monday-Friday'' = Inr (False, next_t, ''Sleep'')"
  then have g: "GetNextEvent ex_tz ex_noon ''08:00'' ''20:00'' ''UTC'' ''Monday-Friday'' = Inr (next_t, ''Sleep'')"
    by (simp add: GetNextEvent_def)
  from GetNextEvent_first [OF ex_utc ex_0800 ex_2000 this] g
  show ?thesis by (auto simp: ex_clocks)
qed

text \<open>The answer up to the announced event, and at it.\<close>

lemma ShouldBeAsleep_until:
  assumes "LoadLocation tz timezone = Some (fixed_zone off)"
    and "Parse_hhmm wakeAt = Some wk" and "Parse_hhmm sleepAt = Some sl"
    and "clock_ns wk \<noteq> clock_ns sl"
    and "GetTimeState tz now wakeAt sleepAt timezone wd = Inr (asleep, next_t, ev)"
    and "t_ns now \<le> t_ns later" and "t_ns later \<le> t_ns next_t"
  shows "ShouldBeAsleep tz later wakeAt sleepAt timezone wd =
    Inr (if t_ns later < t_ns next_t then asleep
         else ev = ''Sleep'' \<or> \<not> isDayWorking next_t wd)"
proof -
  let ?W = "clock_ns wk" and ?S = "clock_ns sl"
  have W: "0 \<le> ?W" "?W < ns_per_day" and S: "0 \<le> ?S" "?S < ns_per_day"
    using clock_ns_range assms(2,3) by auto
  note gts = GetTimeState_fixed_iff [OF assms(1-3,5)]
  note props = next_event_props [OF W S gts(2) [symmetric]]
  have le: "local_ns off now \<le> local_ns off later" using assms(6) by (simp add: local_ns_def)
  have sba: "ShouldBeAsleep tz x wakeAt sleepAt timezone wd = Inr (\<not> awake_at (day_works wd) ?W ?S (local_ns off x))" for x
    using ShouldBeAsleep_fixed [OF assms(1-3), of x wd] assms(4) by (simp add: awake_state_def)
  show ?thesis
  proof (cases "t_ns later < t_ns next_t")
    case True
    then have "local_ns off later < local_ns off next_t" by (simp add: local_ns_def)
    then have "awake_at (day_works wd) ?W ?S (local_ns off now) = awake_at (day_works wd) ?W ?S (local_ns off later)"
      using props(4) by (intro awake_constant [OF W S le]) auto
    with True gts(1) assms(4) show ?thesis by (simp add: sba awake_state_def)
  next
    case False
    with assms(7) have eq: "local_ns off later = local_ns off next_t" by (simp add: local_ns_def)
    have "isDayWorking next_t wd = day_works wd (local_ns off next_t div ns_per_day)"
      by (simp add: isDayWorking_day_works local_day_fixed [OF gts(3)])
    with False eq props(3) show ?thesis
      using awake_at_event [OF W S assms(4), of "local_ns off next_t" "day_works wd"]
      by (auto simp: sba)
  qed
qed

text \<open>
  C8: in a location of constant offset and with two different times of day, nothing changes before the
  announced event: from now until just before it, \<open>ShouldBeAsleep\<close> keeps its answer; at a sleep event a
  workload is asleep, and at a wake event it is asleep only if the day is not a working day.  (With equal
  times the answer changes at local midnight.)
\<close>

theorem state_until_next_event:
  assumes "LoadLocation tz timezone = Some (fixed_zone off)"
    and "Parse_hhmm wakeAt = Some wk" and "Parse_hhmm sleepAt = Some sl"
    and "clock_ns wk \<noteq> clock_ns sl"
    and "GetTimeState tz now wakeAt sleepAt timezone wd = Inr (asleep, next_t, ev)"
    and "t_ns now \<le> t_ns later" and "t_ns later \<le> t_ns next_t"
  shows "ShouldBeAsleep tz later wakeAt sleepAt timezone wd =
    Inr (if t_ns later < t_ns next_t then asleep
         else ev = ''Sleep'' \<or> \<not> isDayWorking next_t wd)"
  using assms by (rule ShouldBeAsleep_until)

theorem state_until_next_event_witness:
  "ShouldBeAsleep ex_tz (ex_noon\<lparr>t_ns := 1764014400000000000\<rparr>) ''08:00'' ''20:00'' ''UTC'' ''Monday-Friday''
     = Inr True"
proof (rule ex_GetTimeState)
  fix next_t
  assume g: "GetTimeState ex_tz ex_noon ''08:00'' ''20:00'' ''UTC'' ''Monday-Friday'' = Inr (False, next_t, ''Sleep'')"
    and n: "t_ns next_t = 1764014400000000000"
  from state_until_next_event [OF ex_utc ex_0800 ex_2000 ex_clocks_neq g,
      of "ex_noon\<lparr>t_ns := 1764014400000000000\<rparr>"] n
  show ?thesis by (simp add: ex_noon_def)
qed

text \<open>
  C12: \<open>GetTimeState\<close> fails exactly when the time zone is unknown or one of the two times does not
  parse, and reports the first of these problems in the order zone, wake time, sleep time; in every
  other case, in any location, it answers with an event labelled \<open>Wake\<close> or \<open>Sleep\<close>.
\<close>

theorem GetTimeState_errors:
  "case GetTimeState tz now wakeAt sleepAt timezone wd of
     Inl e \<Rightarrow>
       (if LoadLocation tz timezone = None then e = ErrTimezone
        else if Parse_hhmm wakeAt = None then e = ErrWakeAt
        else Parse_hhmm sleepAt = None \<and> e = ErrSleepAt)
   | Inr (asleep, next_t, ev) \<Rightarrow>
       LoadLocation tz timezone \<noteq> None \<and> Parse_hhmm wakeAt \<noteq> None \<and> Parse_hhmm sleepAt \<noteq> None \<and>
       ev \<in> {''Wake'', ''Sleep''} \<and> LoadLocation tz timezone = Some (t_loc next_t)"
  by (auto simp: GetTimeState_def parseSchedule_def parseTimeToLocation_def Let_def
      split: option.splits prod.splits sum.splits if_splits)

text \<open>
  C13: a day is a working day of a string exactly when the string is empty or one of its parts names
  the weekday: a part \<open>a-b\<close> stands for the days met going forward from \<open>a\<close> to \<open>b\<close> around the week
  (so \<open>Fri-Mon\<close> is Friday to Monday), and a part that does not parse names no day.
\<close>

theorem isDayWorking_parts:
  "isDayWorking t wd \<longleftrightarrow>
     wd = '''' \<or> (\<exists>p \<in> set (Split CHR '','' (ToLower wd)). Weekday t \<in> part_days p)"
  by (simp add: isDayWorking_days)

end
