(* ===== verification/Api_Types.thy ===== *)
theory Api_Types
  imports Go_Time
begin

text \<open>
  The API objects: the types of \<open>api/v1alpha1\<close> (SleepPolicy and SleepOrder), the parts of the
  Kubernetes objects the controllers read and write (metadata, Deployments and StatefulSets,
  Namespaces), and the constants of \<open>internal/controller/consts.go\<close>.  A Go map is a finite map;
  where the code tells a nil map from an empty one, it is an option of a finite map.  Pointers to
  values (\<open>*int32\<close>, \<open>*metav1.Time\<close>) are options.
\<close>

section \<open>Constants\<close>

definition kindDeployment :: string where "kindDeployment = ''Deployment''"
definition kindStatefulSet :: string where "kindStatefulSet = ''StatefulSet''"
definition DefaultSleepPolicyName :: string where "DefaultSleepPolicyName = ''default-sleeppolicy''"
definition DefaultNamespace :: string where "DefaultNamespace = ''default''"
definition configHashAnnotationKey :: string where
  "configHashAnnotationKey = ''sleepod.io/configHash''"
definition originalReplicasAnnotationKey :: string where
  "originalReplicasAnnotationKey = ''sleepod.io/original-replicas''"
definition sleepOrderFinalizer :: string where
  "sleepOrderFinalizer = ''sleepod.io/sleep-order-finalizer''"
definition sleepingState :: string where "sleepingState = ''Sleeping''"
definition awakeState :: string where "awakeState = ''Awake''"
definition sleepPolicyFinalizer :: string where
  "sleepPolicyFinalizer = ''sleepod.io/sleep-policy-finalizer''"
definition namespaceExcludeAnnotation :: string where
  "namespaceExcludeAnnotation = ''sleepod.io/exclude''"
definition namespaceExpirationDate :: string where
  "namespaceExpirationDate = ''sleepod.io/expirationDate''"

text \<open>The two actions of a policy (\<open>actionCreate\<close>, \<open>actionUpdate\<close>), and the empty string.\<close>

datatype action = NoAction | ActionCreate | ActionUpdate

section \<open>Metadata and workloads\<close>

record object_meta =
  om_name :: string
  om_namespace :: string
  om_annotations :: "(string, string) fmap option"
  om_finalizers :: "string list"
  om_owner :: "string option"           \<comment> \<open>the controller owner reference\<close>
  om_creation :: int                    \<comment> \<open>CreationTimestamp, in ns\<close>
  om_deletion :: "int option"           \<comment> \<open>DeletionTimestamp\<close>
  om_rv :: nat                          \<comment> \<open>ResourceVersion; 0 is the empty string\<close>

text \<open>The fields of a Deployment or StatefulSet that the controllers use, and all the others.\<close>

record workload =
  wl_meta :: object_meta
  wl_replicas :: "int32 option"
  wl_rest :: string

record namespace_obj =
  ns_meta :: object_meta

section \<open>SleepOrder\<close>

record target_ref =
  tr_APIVersion :: string
  tr_Kind :: string
  tr_Name :: string

record sleep_order_spec =
  so_TargetRef :: target_ref
  so_WakeAt :: string
  so_SleepAt :: string
  so_Timezone :: string
  so_WorkingDays :: string

record sleep_order_status =
  ss_CurrentState :: string
  ss_OriginalReplicas :: "int32 option"
  ss_LastTransitionTime :: "int option"
  ss_NextOperationTime :: "int option"

record sleep_order =
  ord_meta :: object_meta
  ord_spec :: sleep_order_spec
  ord_status :: sleep_order_status

section \<open>SleepPolicy\<close>

record resource_sleep_params =
  rp_Name :: string
  rp_Namespace :: string
  rp_Kind :: string
  rp_SleepAt :: string
  rp_WakeAt :: string
  rp_Timezone :: string
  rp_WorkingDays :: string

record policy_config =
  pc_Enable :: bool
  pc_WakeAt :: string
  pc_SleepAt :: string
  pc_Timezone :: string
  pc_WorkingDays :: string

type_synonym config_map = "(string, policy_config) fmap"
type_synonym desired_state = "(string, resource_sleep_params) fmap"

record sleep_policy_spec =
  sp_Timezone :: string
  sp_Deployments :: "config_map option"
  sp_StatefulSets :: "config_map option"

record sleep_policy_status =
  st_State :: "desired_state option"

record sleep_policy =
  pol_meta :: object_meta
  pol_spec :: sleep_policy_spec
  pol_status :: sleep_policy_status

text \<open>
  The validation pattern of the time fields, \<open>^([0-1]?[0-9]|2[0-3]):[0-5][0-9]$\<close>: the API server
  admits only such strings as \<open>wakeAt\<close> and \<open>sleepAt\<close>.
\<close>

definition digit_in :: "nat \<Rightarrow> nat \<Rightarrow> char \<Rightarrow> bool" where
  "digit_in lo hi c = (48 + lo \<le> (of_char c :: nat) \<and> (of_char c :: nat) \<le> 48 + hi)"

fun time_pattern :: "string \<Rightarrow> bool" where
  "time_pattern [h, c, m1, m2] =
     (digit_in 0 9 h \<and> c = CHR '':'' \<and> digit_in 0 5 m1 \<and> digit_in 0 9 m2)"
| "time_pattern [h1, h2, c, m1, m2] =
     ((digit_in 0 1 h1 \<and> digit_in 0 9 h2 \<or> digit_in 2 2 h1 \<and> digit_in 0 3 h2) \<and>
      c = CHR '':'' \<and> digit_in 0 5 m1 \<and> digit_in 0 9 m2)"
| "time_pattern _ = False"

section \<open>Objects of the client\<close>

text \<open>\<open>client.Object\<close>: an object of one of the kinds the program handles.\<close>

datatype client_object =
    Deployment workload
  | StatefulSet workload
  | SleepOrderObj sleep_order
  | SleepPolicyObj sleep_policy
  | NamespaceObj namespace_obj

datatype kind = KDeployment | KStatefulSet | KSleepOrder | KSleepPolicy | KNamespace

fun obj_kind :: "client_object \<Rightarrow> kind" where
  "obj_kind (Deployment _) = KDeployment"
| "obj_kind (StatefulSet _) = KStatefulSet"
| "obj_kind (SleepOrderObj _) = KSleepOrder"
| "obj_kind (SleepPolicyObj _) = KSleepPolicy"
| "obj_kind (NamespaceObj _) = KNamespace"

fun obj_meta :: "client_object \<Rightarrow> object_meta" where
  "obj_meta (Deployment d) = wl_meta d"
| "obj_meta (StatefulSet s) = wl_meta s"
| "obj_meta (SleepOrderObj so) = ord_meta so"
| "obj_meta (SleepPolicyObj p) = pol_meta p"
| "obj_meta (NamespaceObj n) = ns_meta n"

fun map_meta :: "(object_meta \<Rightarrow> object_meta) \<Rightarrow> client_object \<Rightarrow> client_object" where
  "map_meta f (Deployment d) = Deployment (d\<lparr>wl_meta := f (wl_meta d)\<rparr>)"
| "map_meta f (StatefulSet s) = StatefulSet (s\<lparr>wl_meta := f (wl_meta s)\<rparr>)"
| "map_meta f (SleepOrderObj so) = SleepOrderObj (so\<lparr>ord_meta := f (ord_meta so)\<rparr>)"
| "map_meta f (SleepPolicyObj p) = SleepPolicyObj (p\<lparr>pol_meta := f (pol_meta p)\<rparr>)"
| "map_meta f (NamespaceObj n) = NamespaceObj (n\<lparr>ns_meta := f (ns_meta n)\<rparr>)"

type_synonym okey = "kind \<times> string \<times> string"

definition obj_key :: "client_object \<Rightarrow> okey" where
  "obj_key ob = (obj_kind ob, om_namespace (obj_meta ob), om_name (obj_meta ob))"

definition set_annotations :: "(string, string) fmap option \<Rightarrow> client_object \<Rightarrow> client_object" where
  "set_annotations a = map_meta (\<lambda>m. m\<lparr>om_annotations := a\<rparr>)"

text \<open>The value of an annotation; reading a nil map finds nothing.\<close>

definition annotation :: "client_object \<Rightarrow> string \<Rightarrow> string option" where
  "annotation ob k = Option.bind (om_annotations (obj_meta ob)) (\<lambda>a. fmlookup a k)"

lemma map_meta_simps [simp]:
  "obj_kind (map_meta f ob) = obj_kind ob"
  "obj_meta (map_meta f ob) = f (obj_meta ob)"
  "map_meta f (map_meta g ob) = map_meta (\<lambda>m. f (g m)) ob"
  by (cases ob; simp)+

lemma set_annotations_simps [simp]:
  "obj_kind (set_annotations a ob) = obj_kind ob"
  "obj_meta (set_annotations a ob) = (obj_meta ob)\<lparr>om_annotations := a\<rparr>"
  "obj_key (set_annotations a ob) = obj_key ob"
  by (simp_all add: set_annotations_def obj_key_def)

lemma annotation_set [simp]:
  "annotation (set_annotations (Some a) ob) k = fmlookup a k"
  "annotation (set_annotations None ob) k = None"
  by (simp_all add: annotation_def)

lemma obj_key_simps [simp]:
  "obj_key (Deployment d) = (KDeployment, om_namespace (wl_meta d), om_name (wl_meta d))"
  "obj_key (StatefulSet d) = (KStatefulSet, om_namespace (wl_meta d), om_name (wl_meta d))"
  "obj_key (SleepOrderObj so) = (KSleepOrder, om_namespace (ord_meta so), om_name (ord_meta so))"
  "obj_key (SleepPolicyObj p) = (KSleepPolicy, om_namespace (pol_meta p), om_name (pol_meta p))"
  "obj_key (NamespaceObj n) = (KNamespace, om_namespace (ns_meta n), om_name (ns_meta n))"
  by (simp_all add: obj_key_def)

text \<open>Results of \<open>Reconcile\<close>: \<open>ctrl.Result\<close> with an error that may be nil.\<close>

record ctrl_result =
  res_Requeue :: bool
  res_RequeueAfter :: int

type_synonym reconcile_result = "ctrl_result \<times> go_error option"

definition empty_result :: ctrl_result where
  "empty_result = \<lparr>res_Requeue = False, res_RequeueAfter = 0\<rparr>"

definition requeue_after :: "int \<Rightarrow> ctrl_result" where
  "requeue_after d = \<lparr>res_Requeue = False, res_RequeueAfter = d\<rparr>"

section \<open>Properties\<close>

lemma digit_in_09: "digit_in 0 9 c = is_digit c"
  by (auto simp: digit_in_def is_digit_def digit_val_def Let_def)

lemma digit_in_dval: "digit_in lo hi c \<longleftrightarrow> is_digit c \<and> int lo \<le> dval c \<and> dval c \<le> int hi"
  if "hi \<le> 9"
  using that by (auto simp: digit_in_def is_digit_def digit_val_def dval_def Let_def split: if_splits)

text \<open>
  C14: the times of day the code can parse are exactly those the validation pattern of the custom
  resources admits, one- or two-digit hours included.
\<close>

theorem Parse_hhmm_pattern: "(Parse_hhmm s \<noteq> None) = time_pattern s"
proof -
  note defs = Parse_hhmm_def digit_in_dval
  have colon: "\<not> is_digit CHR '':''" by (simp add: is_digit_def digit_val_def)
  have rng: "0 \<le> dval c" "dval c \<le> 9" for c using dval_range by auto
  consider "s = []" | a where "s = [a]" | a b where "s = [a, b]" | a b c where "s = [a, b, c]"
    | a b c d where "s = [a, b, c, d]" | a b c d e where "s = [a, b, c, d, e]"
    | a b c d e f r where "s = a # b # c # d # e # f # r"
    by (metis list.exhaust)
  then show ?thesis
  proof cases
    case (5 a b c d)
    then show ?thesis
      using colon rng [of a] rng [of b] rng [of c] rng [of d] by (simp add: defs split: if_splits)
  next
    case (6 a b c d e)
    then show ?thesis
      using colon rng [of a] rng [of b] rng [of c] rng [of d] rng [of e]
      by (auto simp: defs split: if_splits)
  qed (auto simp: defs split: if_splits)
qed

end
