(* ===== verification/Client.thy ===== *)
theory Client
  imports Api_Types "HOL-Library.List_Lexorder" "HOL-Library.Char_ord"
begin

text \<open>
  The packages outside the repository that the controllers call: the controller-runtime client, the
  clock, \<open>controllerutil\<close> and \<open>retry.RetryOnConflict\<close>.  They are the fields of a record \<open>'w env\<close>, a
  parameter of every handler, over an arbitrary type \<open>'w\<close> of outside worlds.  What the handlers
  rely on is stated as locales, the documented behaviour of the packages: \<open>kube_api\<close> allows any
  call to fail (a write that fails for an unknown reason may still have been applied), \<open>reliable_api\<close>
  adds that in a healthy world calls succeed when optimistic concurrency lets them.
\<close>

section \<open>The environment of the controllers\<close>

text \<open>The variables that the closure given to \<open>RetryOnConflict\<close> captures and changes.\<close>

type_synonym fin_state = "sleep_order \<times> client_object \<times> bool"

record 'w env =
  x_tz :: tzinfo
  x_Now :: "('w, int) state"
  x_Get :: "kind \<Rightarrow> string \<Rightarrow> string \<Rightarrow> ('w, go_error + client_object) state"
  x_List :: "kind \<Rightarrow> string \<Rightarrow> ('w, go_error + client_object list) state"
  x_Create :: "client_object \<Rightarrow> ('w, go_error + client_object) state"
  x_Update :: "client_object \<Rightarrow> ('w, go_error + client_object) state"
  x_StatusUpdate :: "client_object \<Rightarrow> ('w, go_error + client_object) state"
  x_Delete :: "client_object \<Rightarrow> ('w, go_error option) state"
  x_ContainsFinalizer :: "object_meta \<Rightarrow> string \<Rightarrow> bool"
  x_AddFinalizer :: "object_meta \<Rightarrow> string \<Rightarrow> object_meta"
  x_RemoveFinalizer :: "object_meta \<Rightarrow> string \<Rightarrow> object_meta"
  x_SetControllerReference :: "sleep_policy \<Rightarrow> object_meta \<Rightarrow> go_error + object_meta"
  x_RetryOnConflict ::
    "(fin_state \<Rightarrow> ('w, go_error option \<times> fin_state) state) \<Rightarrow> fin_state \<Rightarrow>
     ('w, go_error option \<times> fin_state) state"
  x_range :: "desired_state \<Rightarrow> (string \<times> resource_sleep_params) list"

text \<open>
  Typed calls: the Go client decodes the answer into the typed object it is given; an answer of
  another kind is a decoding error.
\<close>

definition decode_error :: go_error where
  "decode_error = ApiErr (OtherReason ''decode'')"

definition as_SleepOrder :: "go_error + client_object \<Rightarrow> go_error + sleep_order" where
  "as_SleepOrder r =
     (case r of Inl e \<Rightarrow> Inl e | Inr ob \<Rightarrow>
       (case ob of SleepOrderObj so \<Rightarrow> Inr so | _ \<Rightarrow> Inl decode_error))"

definition as_SleepPolicy :: "go_error + client_object \<Rightarrow> go_error + sleep_policy" where
  "as_SleepPolicy r =
     (case r of Inl e \<Rightarrow> Inl e | Inr ob \<Rightarrow>
       (case ob of SleepPolicyObj p \<Rightarrow> Inr p | _ \<Rightarrow> Inl decode_error))"

definition as_Namespace :: "go_error + client_object \<Rightarrow> go_error + namespace_obj" where
  "as_Namespace r =
     (case r of Inl e \<Rightarrow> Inl e | Inr ob \<Rightarrow>
       (case ob of NamespaceObj n \<Rightarrow> Inr n | _ \<Rightarrow> Inl decode_error))"

definition getSleepOrder :: "'w env \<Rightarrow> string \<Rightarrow> string \<Rightarrow> ('w, go_error + sleep_order) state" where
  "getSleepOrder E ns n = do { r \<leftarrow> x_Get E KSleepOrder ns n; ret (as_SleepOrder r) }"

definition updateSleepOrder :: "'w env \<Rightarrow> sleep_order \<Rightarrow> ('w, go_error + sleep_order) state" where
  "updateSleepOrder E so = do { r \<leftarrow> x_Update E (SleepOrderObj so); ret (as_SleepOrder r) }"

text \<open>\<open>time.Now()\<close> is in the local zone, and \<open>time.Until\<close> is measured from it.\<close>

definition Now :: "'w env \<Rightarrow> ('w, time) state" where
  "Now E = do { n \<leftarrow> x_Now E; ret \<lparr>t_ns = n, t_loc = tz_local (x_tz E)\<rparr> }"

definition Until :: "'w env \<Rightarrow> time \<Rightarrow> ('w, int) state" where
  "Until E t = do { now \<leftarrow> Now E; ret (Sub t now) }"

abbreviation minute_ns :: int where "minute_ns \<equiv> 60000000000"

section \<open>What a write does on the server\<close>

text \<open>
  An empty map is omitted when an object is serialised, so it is read back as nil; times are
  serialised in whole seconds.  The status of the custom resources is a subresource: \<open>Update\<close> leaves
  it alone and \<open>Status().Update\<close> writes nothing else.  Creation and deletion times belong to the
  server, which also chooses a resource version for each write.  The defaults of the custom resource
  definitions are left out: the one that the schedule could notice turns an empty time zone into \<open>UTC\<close>,
  which is what loading an empty time zone gives.
\<close>

definition norm_map :: "('a, 'b) fmap option \<Rightarrow> ('a, 'b) fmap option" where
  "norm_map m = (if m = Some fmempty then None else m)"

definition norm_meta :: "object_meta \<Rightarrow> object_meta" where
  "norm_meta m = m\<lparr>om_annotations := norm_map (om_annotations m)\<rparr>"

definition norm_policy_spec :: "sleep_policy_spec \<Rightarrow> sleep_policy_spec" where
  "norm_policy_spec s =
     s\<lparr>sp_Deployments := norm_map (sp_Deployments s), sp_StatefulSets := norm_map (sp_StatefulSets s)\<rparr>"

definition trunc_sec :: "int \<Rightarrow> int" where
  "trunc_sec t = t div ns_per_sec * ns_per_sec"

definition trunc_status :: "sleep_order_status \<Rightarrow> sleep_order_status" where
  "trunc_status s =
     s\<lparr>ss_LastTransitionTime := map_option trunc_sec (ss_LastTransitionTime s),
       ss_NextOperationTime := map_option trunc_sec (ss_NextOperationTime s)\<rparr>"

definition empty_order_status :: sleep_order_status where
  "empty_order_status = \<lparr>ss_CurrentState = [], ss_OriginalReplicas = None,
     ss_LastTransitionTime = None, ss_NextOperationTime = None\<rparr>"

definition empty_policy_status :: sleep_policy_status where
  "empty_policy_status = \<lparr>st_State = None\<rparr>"

definition with_rv :: "nat \<Rightarrow> client_object \<Rightarrow> client_object" where
  "with_rv v = map_meta (\<lambda>m. m\<lparr>om_rv := v\<rparr>)"

fun norm_obj :: "client_object \<Rightarrow> client_object" where
  "norm_obj (SleepPolicyObj p) =
     SleepPolicyObj (p\<lparr>pol_meta := norm_meta (pol_meta p), pol_spec := norm_policy_spec (pol_spec p)\<rparr>)"
| "norm_obj ob = map_meta norm_meta ob"

fun keep_status :: "client_object \<Rightarrow> client_object \<Rightarrow> client_object" where
  "keep_status (SleepOrderObj old) (SleepOrderObj new) = SleepOrderObj (new\<lparr>ord_status := ord_status old\<rparr>)"
| "keep_status (SleepPolicyObj old) (SleepPolicyObj new) = SleepPolicyObj (new\<lparr>pol_status := pol_status old\<rparr>)"
| "keep_status old new = new"

definition write_over :: "client_object \<Rightarrow> client_object \<Rightarrow> client_object" where
  "write_over old new =
     norm_obj (map_meta (\<lambda>m. m\<lparr>om_creation := om_creation (obj_meta old),
       om_deletion := om_deletion (obj_meta old)\<rparr>) (keep_status old new))"

fun status_over :: "client_object \<Rightarrow> client_object \<Rightarrow> client_object" where
  "status_over (SleepOrderObj old) (SleepOrderObj new) =
     SleepOrderObj (old\<lparr>ord_status := trunc_status (ord_status new)\<rparr>)"
| "status_over (SleepPolicyObj old) (SleepPolicyObj new) =
     SleepPolicyObj (old\<lparr>pol_status := \<lparr>st_State = norm_map (st_State (pol_status new))\<rparr>\<rparr>)"
| "status_over old new = old"

fun fresh_status :: "client_object \<Rightarrow> client_object" where
  "fresh_status (SleepOrderObj so) = SleepOrderObj (so\<lparr>ord_status := empty_order_status\<rparr>)"
| "fresh_status (SleepPolicyObj p) = SleepPolicyObj (p\<lparr>pol_status := empty_policy_status\<rparr>)"
| "fresh_status ob = ob"

definition created :: "int \<Rightarrow> client_object \<Rightarrow> client_object" where
  "created c ob =
     norm_obj (map_meta (\<lambda>m. m\<lparr>om_creation := c, om_deletion := None\<rparr>) (fresh_status ob))"

text \<open>An object being deleted goes away with its last finalizer.\<close>

definition released :: "client_object \<Rightarrow> bool" where
  "released ob = (om_deletion (obj_meta ob) \<noteq> None \<and> om_finalizers (obj_meta ob) = [])"

definition marked :: "int \<Rightarrow> client_object \<Rightarrow> client_object" where
  "marked d = map_meta (\<lambda>m. m\<lparr>om_deletion := (case om_deletion m of None \<Rightarrow> Some d | Some t \<Rightarrow> Some t)\<rparr>)"

type_synonym view = "okey \<Rightarrow> client_object option"

definition applied_update :: "view \<Rightarrow> client_object \<Rightarrow> client_object \<Rightarrow> view \<Rightarrow> bool" where
  "applied_update v ob ob' v' \<longleftrightarrow>
     (\<exists>old rv. v (obj_key ob) = Some old \<and> ob' = with_rv rv (write_over old ob) \<and>
       v' = v(obj_key ob := (if released ob' then None else Some ob')))"

definition applied_status :: "view \<Rightarrow> client_object \<Rightarrow> client_object \<Rightarrow> view \<Rightarrow> bool" where
  "applied_status v ob ob' v' \<longleftrightarrow>
     (\<exists>old rv. v (obj_key ob) = Some old \<and> ob' = with_rv rv (status_over old ob) \<and>
       v' = v(obj_key ob \<mapsto> ob'))"

definition applied_create :: "view \<Rightarrow> client_object \<Rightarrow> client_object \<Rightarrow> view \<Rightarrow> bool" where
  "applied_create v ob ob' v' \<longleftrightarrow>
     v (obj_key ob) = None \<and> (\<exists>c rv. ob' = with_rv rv (created c ob)) \<and> v' = v(obj_key ob \<mapsto> ob')"

definition applied_delete :: "view \<Rightarrow> client_object \<Rightarrow> view \<Rightarrow> bool" where
  "applied_delete v ob v' \<longleftrightarrow>
     (\<exists>old. v (obj_key ob) = Some old \<and>
       (om_finalizers (obj_meta old) = [] \<and> v' = v(obj_key ob := None) \<or>
        (om_finalizers (obj_meta old) \<noteq> [] \<or> obj_kind ob = KNamespace) \<and>
          (\<exists>d rv. v' = v(obj_key ob \<mapsto> with_rv rv (marked d old)))))"

text \<open>
  A write answers with the stored object; a not-found, conflict or already-exists error means that
  nothing was written, any other error leaves it open.
\<close>

definition definite :: "go_error \<Rightarrow> bool" where
  "definite e \<longleftrightarrow> e \<in> {ApiErr NotFound, ApiErr Conflict, ApiErr AlreadyExists}"

definition write_result ::
  "view \<Rightarrow> okey \<Rightarrow> (client_object \<Rightarrow> view \<Rightarrow> bool) \<Rightarrow> go_error + client_object \<Rightarrow> view \<Rightarrow> bool" where
  "write_result v k applied r v' \<longleftrightarrow>
     (case r of
        Inr ob' \<Rightarrow> applied ob' v'
      | Inl e \<Rightarrow> (v' = v \<or> \<not> definite e \<and> (\<exists>ob'. applied ob' v')) \<and> (e = ApiErr NotFound \<longrightarrow> v k = None))"

definition get_result :: "client_object option \<Rightarrow> go_error + client_object \<Rightarrow> bool" where
  "get_result old r \<longleftrightarrow>
     (case r of Inr ob \<Rightarrow> old = Some ob | Inl e \<Rightarrow> e = ApiErr NotFound \<longrightarrow> old = None)"

definition list_result :: "view \<Rightarrow> kind \<Rightarrow> string \<Rightarrow> go_error + client_object list \<Rightarrow> bool" where
  "list_result v k ns r \<longleftrightarrow>
     (case r of Inl e \<Rightarrow> True
      | Inr obs \<Rightarrow> distinct (map obj_key obs) \<and> set obs = {ob. \<exists>n. v (k, ns, n) = Some ob})"

section \<open>The laws\<close>

locale kube_api =
  fixes E :: "'w env"
    and V :: "'w \<Rightarrow> view"
  assumes view_key: "V w key = Some ob \<Longrightarrow> obj_key ob = key"
    and now_law: "run_state (x_Now E) w = (t, w') \<Longrightarrow> V w' = V w"
    and get_law: "run_state (x_Get E k ns n) w = (r, w') \<Longrightarrow>
      V w' = V w \<and> get_result (V w (k, ns, n)) r"
    and list_law: "run_state (x_List E k ns) w = (l, w') \<Longrightarrow> V w' = V w \<and> list_result (V w) k ns l"
    and create_law: "run_state (x_Create E ob) w = (r, w') \<Longrightarrow>
      write_result (V w) (obj_key ob) (applied_create (V w) ob) r (V w')"
    and update_law: "run_state (x_Update E ob) w = (r, w') \<Longrightarrow>
      write_result (V w) (obj_key ob) (applied_update (V w) ob) r (V w')"
    and status_law: "run_state (x_StatusUpdate E ob) w = (r, w') \<Longrightarrow>
      write_result (V w) (obj_key ob) (applied_status (V w) ob) r (V w')"
    and delete_law: "run_state (x_Delete E ob) w = (d, w') \<Longrightarrow>
      (case d of None \<Rightarrow> applied_delete (V w) ob (V w')
       | Some e \<Rightarrow> (V w' = V w \<or> \<not> definite e \<and> applied_delete (V w) ob (V w')) \<and>
           (e = ApiErr NotFound \<longrightarrow> V w (obj_key ob) = None))"

text \<open>
  In a healthy world (\<open>H\<close>) calls fail only for the reasons of the API: missing objects and conflicts.
  Validation is not modelled: a healthy world is one whose server admits what the controllers write, which
  for the times of an order means that they match the pattern of theory Api_Types, that is, that they parse.
  \<open>C\<close> is the time of the world: it never goes back, and a clock reading lies between the times before
  and after it.
\<close>

locale reliable_api = kube_api E V
  for E :: "'w env" and V :: "'w \<Rightarrow> view" +
  fixes H :: "'w \<Rightarrow> bool"
    and C :: "'w \<Rightarrow> int"
  assumes now_ok: "H w \<Longrightarrow> run_state (x_Now E) w = (t, w') \<Longrightarrow>
      H w' \<and> C w \<le> t \<and> t \<le> C w'"
    and get_ok: "H w \<Longrightarrow> run_state (x_Get E k ns n) w = (r, w') \<Longrightarrow>
      H w' \<and> C w \<le> C w' \<and> (V w (k, ns, n) \<noteq> None \<longrightarrow> (\<exists>ob. r = Inr ob)) \<and>
      (V w (k, ns, n) = None \<longrightarrow> r = Inl (ApiErr NotFound))"
    and list_ok: "H w \<Longrightarrow> run_state (x_List E k ns) w = (l, w') \<Longrightarrow> H w' \<and> C w \<le> C w' \<and> (\<exists>obs. l = Inr obs)"
    and create_ok: "H w \<Longrightarrow> run_state (x_Create E ob) w = (r, w') \<Longrightarrow>
      H w' \<and> C w \<le> C w' \<and> (V w (obj_key ob) = None \<longrightarrow> (\<exists>ob'. r = Inr ob'))"
    and update_ok: "H w \<Longrightarrow> run_state (x_Update E ob) w = (r, w') \<Longrightarrow>
      H w' \<and> C w \<le> C w' \<and> (\<forall>old. V w (obj_key ob) = Some old \<longrightarrow> om_rv (obj_meta old) = om_rv (obj_meta ob) \<longrightarrow>
        (\<exists>ob'. r = Inr ob'))"
    and status_ok: "H w \<Longrightarrow> run_state (x_StatusUpdate E ob) w = (r, w') \<Longrightarrow>
      H w' \<and> C w \<le> C w' \<and> (\<forall>old. V w (obj_key ob) = Some old \<longrightarrow> om_rv (obj_meta old) = om_rv (obj_meta ob) \<longrightarrow>
        (\<exists>ob'. r = Inr ob'))"
    and delete_ok: "H w \<Longrightarrow> run_state (x_Delete E ob) w = (d, w') \<Longrightarrow>
      H w' \<and> C w \<le> C w' \<and> (V w (obj_key ob) \<noteq> None \<longrightarrow> d = None)"

text \<open>
  The helpers of \<open>controllerutil\<close>, map iteration, and the retry loop.  \<open>SetControllerReference\<close> is relied
  on only for an object without owner in the namespace of the policy; the library compares the UIDs of
  other owners, which the model leaves out.
\<close>

locale controller_util =
  fixes E :: "'w env"
  assumes contains_law: "x_ContainsFinalizer E m f \<longleftrightarrow> f \<in> set (om_finalizers m)"
    and add_law: "x_AddFinalizer E m f =
      (if f \<in> set (om_finalizers m) then m else m\<lparr>om_finalizers := om_finalizers m @ [f]\<rparr>)"
    and remove_law: "x_RemoveFinalizer E m f = m\<lparr>om_finalizers := removeAll f (om_finalizers m)\<rparr>"
    and owner_law: "x_SetControllerReference E p m = Inr m' \<Longrightarrow>
      m' = m\<lparr>om_owner := Some (om_name (pol_meta p))\<rparr>"
    and owner_ok: "om_owner m = None \<Longrightarrow> om_namespace m = om_namespace (pol_meta p) \<Longrightarrow>
      \<exists>m'. x_SetControllerReference E p m = Inr m'"
    and range_law: "map_of (x_range E ds) = fmlookup ds \<and> distinct (map fst (x_range E ds))"

fun retry_n ::
  "nat \<Rightarrow> (fin_state \<Rightarrow> ('w, go_error option \<times> fin_state) state) \<Rightarrow> fin_state \<Rightarrow>
   ('w, go_error option \<times> fin_state) state" where
  "retry_n 0 f s = f s"
| "retry_n (Suc n) f s = do {
     r \<leftarrow> f s;
     (case fst r of
        None \<Rightarrow> ret r
      | Some e \<Rightarrow> if IsConflict e then retry_n n f (snd r) else ret r) }"

locale conflict_retry =
  fixes E :: "'w env"
  assumes retry_law: "\<exists>n. run_state (x_RetryOnConflict E f s) w = run_state (retry_n n f s) w"

section \<open>Consequences\<close>

lemma with_rv_simps [simp]:
  "obj_kind (with_rv v ob) = obj_kind ob"
  "obj_meta (with_rv v ob) = (obj_meta ob)\<lparr>om_rv := v\<rparr>"
  "obj_key (with_rv v ob) = obj_key ob"
  "annotation (with_rv v ob) k = annotation ob k"
  by (simp_all add: with_rv_def obj_key_def annotation_def)

lemma norm_map_lookup [simp]:
  "Option.bind (norm_map m) (\<lambda>a. fmlookup a k) = Option.bind m (\<lambda>a. fmlookup a k)"
  by (simp add: norm_map_def)

lemma norm_obj_simps [simp]:
  "obj_kind (norm_obj ob) = obj_kind ob"
  "obj_meta (norm_obj ob) = norm_meta (obj_meta ob)"
  by (cases ob; simp)+

lemma keep_status_simps [simp]:
  "obj_kind (keep_status old new) = obj_kind new"
  "obj_meta (keep_status old new) = obj_meta new"
  by (cases old; cases new; simp)+

lemma status_over_simps [simp]:
  "obj_kind (status_over old new) = obj_kind old"
  "obj_meta (status_over old new) = obj_meta old"
  by (cases old; cases new; simp)+

lemma fresh_status_simps [simp]:
  "obj_kind (fresh_status ob) = obj_kind ob"
  "obj_meta (fresh_status ob) = obj_meta ob"
  by (cases ob; simp)+

lemma write_over_simps [simp]:
  "obj_kind (write_over old new) = obj_kind new"
  "om_name (obj_meta (write_over old new)) = om_name (obj_meta new)"
  "om_namespace (obj_meta (write_over old new)) = om_namespace (obj_meta new)"
  "om_finalizers (obj_meta (write_over old new)) = om_finalizers (obj_meta new)"
  "om_owner (obj_meta (write_over old new)) = om_owner (obj_meta new)"
  "om_deletion (obj_meta (write_over old new)) = om_deletion (obj_meta old)"
  "om_creation (obj_meta (write_over old new)) = om_creation (obj_meta old)"
  "om_annotations (obj_meta (write_over old new)) = norm_map (om_annotations (obj_meta new))"
  "annotation (write_over old new) k = annotation new k"
  "obj_key (write_over old new) = obj_key new"
  by (simp_all add: write_over_def norm_meta_def annotation_def obj_key_def)

lemma created_simps [simp]:
  "obj_kind (created c ob) = obj_kind ob"
  "obj_key (created c ob) = obj_key ob"
  "annotation (created c ob) k = annotation ob k"
  "om_annotations (obj_meta (created c ob)) = norm_map (om_annotations (obj_meta ob))"
  "om_finalizers (obj_meta (created c ob)) = om_finalizers (obj_meta ob)"
  "om_deletion (obj_meta (created c ob)) = None"
  by (simp_all add: created_def norm_meta_def annotation_def obj_key_def)

lemma marked_simps [simp]:
  "obj_kind (marked d ob) = obj_kind ob"
  "obj_key (marked d ob) = obj_key ob"
  "annotation (marked d ob) k = annotation ob k"
  "om_finalizers (obj_meta (marked d ob)) = om_finalizers (obj_meta ob)"
  "om_deletion (obj_meta (marked d ob)) \<noteq> None"
  by (simp_all add: marked_def annotation_def obj_key_def split: option.splits)

text \<open>Writes change the view at the key of their object only.\<close>

lemma applied_frame:
  "applied_update v ob ob' v' \<Longrightarrow> k \<noteq> obj_key ob \<Longrightarrow> v' k = v k"
  "applied_status v ob ob' v' \<Longrightarrow> k \<noteq> obj_key ob \<Longrightarrow> v' k = v k"
  "applied_create v ob ob' v' \<Longrightarrow> k \<noteq> obj_key ob \<Longrightarrow> v' k = v k"
  "applied_delete v ob v' \<Longrightarrow> k \<noteq> obj_key ob \<Longrightarrow> v' k = v k"
  by (auto simp: applied_update_def applied_status_def applied_create_def applied_delete_def)

text \<open>The frame of a write, and the typed reads of an order.\<close>

definition unchanged_but :: "okey \<Rightarrow> view \<Rightarrow> view \<Rightarrow> bool" where
  "unchanged_but k v v' \<longleftrightarrow> (\<forall>k'. k' \<noteq> k \<longrightarrow> v' k' = v k')"

definition order_key :: "sleep_order \<Rightarrow> okey" where
  "order_key so = (KSleepOrder, om_namespace (ord_meta so), om_name (ord_meta so))"

definition order_result :: "client_object option \<Rightarrow> go_error + sleep_order \<Rightarrow> bool" where
  "order_result old r \<longleftrightarrow>
     (case r of Inr so \<Rightarrow> old = Some (SleepOrderObj so) | Inl e \<Rightarrow> e = ApiErr NotFound \<longrightarrow> old = None)"

lemma unchanged_refl [simp]: "unchanged_but k v v"
  by (simp add: unchanged_but_def)

lemma unchangedD: "unchanged_but k v v' \<Longrightarrow> k' \<noteq> k \<Longrightarrow> v' k' = v k'"
  unfolding unchanged_but_def by blast

lemma unchanged_trans: "unchanged_but k u v \<Longrightarrow> unchanged_but k v w \<Longrightarrow> unchanged_but k u w"
  by (simp add: unchanged_but_def)

lemma write_unchanged:
  assumes "write_result v k A r v'" "\<And>ob'. A ob' v' \<Longrightarrow> unchanged_but k v v'"
  shows "unchanged_but k v v'"
  using assms by (auto simp: write_result_def split: sum.splits)

lemma applied_unchanged:
  "applied_update v ob ob' v' \<Longrightarrow> unchanged_but (obj_key ob) v v'"
  "applied_status v ob ob' v' \<Longrightarrow> unchanged_but (obj_key ob) v v'"
  by (auto simp: unchanged_but_def dest: applied_frame)

context kube_api
begin

lemma wp_Now [wp_rules]: "(\<And>t w'. V w' = V w \<Longrightarrow> Q t w') \<Longrightarrow> wp (x_Now E) Q w"
  by (auto intro!: run_wp dest: now_law)

lemma wp_Get [wp_rules]:
  "(\<And>r w'. V w' = V w \<Longrightarrow> get_result (V w (k, ns, n)) r \<Longrightarrow> Q r w') \<Longrightarrow> wp (x_Get E k ns n) Q w"
  by (auto intro!: run_wp dest: get_law)

lemma wp_Now' [wp_rules]: "(\<And>t w'. V w' = V w \<Longrightarrow> Q t w') \<Longrightarrow> wp (Now E) Q w"
  by (auto simp: Now_def intro!: wp_Now)

lemma wp_Now_at:
  "(\<And>t w'. V w' = V w \<Longrightarrow> Q \<lparr>t_ns = t, t_loc = tz_local (x_tz E)\<rparr> w') \<Longrightarrow> wp (Now E) Q w"
  by (auto simp: Now_def intro!: wp_Now)

lemma wp_Until [wp_rules]: "(\<And>d w'. V w' = V w \<Longrightarrow> Q d w') \<Longrightarrow> wp (Until E t) Q w"
  by (auto simp: Until_def intro!: wp_Now')

lemma wp_List [wp_rules]:
  "(\<And>l w'. V w' = V w \<Longrightarrow> list_result (V w) k ns l \<Longrightarrow> Q l w') \<Longrightarrow> wp (x_List E k ns) Q w"
  by (auto intro!: run_wp dest: list_law)

lemma wp_Create [wp_rules]:
  "(\<And>r w'. write_result (V w) (obj_key ob) (applied_create (V w) ob) r (V w') \<Longrightarrow> Q r w') \<Longrightarrow>
   wp (x_Create E ob) Q w"
  by (auto intro!: run_wp dest: create_law)

lemma wp_Update [wp_rules]:
  "(\<And>r w'. write_result (V w) (obj_key ob) (applied_update (V w) ob) r (V w') \<Longrightarrow> Q r w') \<Longrightarrow>
   wp (x_Update E ob) Q w"
  by (auto intro!: run_wp dest: update_law)

lemma wp_StatusUpdate [wp_rules]:
  "(\<And>r w'. write_result (V w) (obj_key ob) (applied_status (V w) ob) r (V w') \<Longrightarrow> Q r w') \<Longrightarrow>
   wp (x_StatusUpdate E ob) Q w"
  by (auto intro!: run_wp dest: status_law)

lemma wp_Update_frame:
  assumes "\<And>r w'. unchanged_but (obj_key ob) (V w) (V w') \<Longrightarrow> Q r w'"
  shows "wp (x_Update E ob) Q w"
  by (rule wp_Update) (auto intro: assms write_unchanged applied_unchanged)

lemma wp_StatusUpdate_frame:
  assumes "\<And>r w'. unchanged_but (obj_key ob) (V w) (V w') \<Longrightarrow> Q r w'"
  shows "wp (x_StatusUpdate E ob) Q w"
  by (rule wp_StatusUpdate) (auto intro: assms write_unchanged applied_unchanged)

lemma wp_updateSleepOrder_frame:
  assumes "\<And>r w'. unchanged_but (order_key so) (V w) (V w') \<Longrightarrow> Q r w'"
  shows "wp (updateSleepOrder E so) Q w"
  by (auto simp: updateSleepOrder_def order_key_def intro!: wp_Update_frame assms)

lemma wp_getSleepOrder [wp_rules]:
  assumes "\<And>r w'. V w' = V w \<Longrightarrow> order_result (V w (KSleepOrder, ns, n)) r \<Longrightarrow>
      (\<And>so. r = Inr so \<Longrightarrow> order_key so = (KSleepOrder, ns, n)) \<Longrightarrow> Q r w'"
  shows "wp (getSleepOrder E ns n) Q w"
proof -
  have k: "obj_kind ob = KSleepOrder" "obj_key ob = (KSleepOrder, ns, n)"
    if "V w (KSleepOrder, ns, n) = Some ob" for ob
    using view_key [OF that] by (auto simp: obj_key_def)
  show ?thesis
    unfolding getSleepOrder_def
    by (simp, rule wp_Get)
      (auto simp: as_SleepOrder_def order_result_def get_result_def order_key_def
        split: sum.splits client_object.splits intro!: assms dest: k)
qed

lemma wp_Delete [wp_rules]:
  assumes "\<And>d w'. (V w' = V w \<and> d \<noteq> None \<or> applied_delete (V w) ob (V w')) \<Longrightarrow>
      (d = Some (ApiErr NotFound) \<Longrightarrow> V w (obj_key ob) = None) \<Longrightarrow> Q d w'"
  shows "wp (x_Delete E ob) Q w"
proof (rule run_wp)
  fix d w'
  assume "run_state (x_Delete E ob) w = (d, w')"
  from delete_law [OF this] show "Q d w'" by (auto intro!: assms split: option.splits)
qed

end

text \<open>The environments the controllers run in: any, and a healthy one.\<close>

locale controllers = kube_api E V + controller_util E + conflict_retry E
  for E :: "'w env" and V :: "'w \<Rightarrow> view"

locale healthy_controllers = controllers E V + reliable_api E V H C
  for E :: "'w env" and V :: "'w \<Rightarrow> view" and H :: "'w \<Rightarrow> bool" and C :: "'w \<Rightarrow> int"

text \<open>What every attempt keeps, the whole retry loop keeps.\<close>

lemma wp_retry_n:
  assumes step: "\<And>s w. I s w \<Longrightarrow> wp (f s) (\<lambda>r w'. Q r w' \<and> (\<exists>e. fst r = Some e \<and> IsConflict e) \<longrightarrow> I (snd r) w') w"
    and post: "\<And>s w. I s w \<Longrightarrow> wp (f s) Q w"
    and init: "I s w"
  shows "wp (retry_n n f s) Q w"
  using init
proof (induction n arbitrary: s w)
  case 0
  then show ?case by (simp add: post)
next
  case (Suc n)
  from Suc.prems have "wp (f s) (\<lambda>r w'. Q r w' \<and>
      (Q r w' \<and> (\<exists>e. fst r = Some e \<and> IsConflict e) \<longrightarrow> I (snd r) w')) w"
    by (intro wp_conj post step)
  then show ?case
    by (simp, rule wp_mono) (auto split: option.splits intro: Suc.IH)
qed

lemma wp_retry:
  fixes E :: "'w env"
  assumes "conflict_retry E"
    and "\<And>s w. I s w \<Longrightarrow> wp (f s) (\<lambda>r w'. Q r w' \<and> (\<exists>e. fst r = Some e \<and> IsConflict e) \<longrightarrow> I (snd r) w') w"
    and "\<And>s w. I s w \<Longrightarrow> wp (f s) Q w"
    and "I s w"
  shows "wp (x_RetryOnConflict E f s) Q w"
proof -
  from conflict_retry.retry_law [OF assms(1)] obtain n
    where "run_state (x_RetryOnConflict E f s) w = run_state (retry_n n f s) w" by blast
  moreover have "wp (retry_n n f s) Q w" by (rule wp_retry_n [OF assms(2-4)])
  ultimately show ?thesis by (simp add: wp_def)
qed

text \<open>In a healthy world a read answers, and a write with the current resource version is applied.\<close>

context reliable_api
begin

text \<open>A healthy world, not before \<open>w\<close>.\<close>

definition later :: "'w \<Rightarrow> 'w \<Rightarrow> bool" where
  "later w w' \<longleftrightarrow> H w' \<and> C w \<le> C w'"

lemma later_refl: "H w \<Longrightarrow> later w w" by (simp add: later_def)
lemma later_trans: "later u v \<Longrightarrow> later v w \<Longrightarrow> later u w" by (simp add: later_def)

lemma wp_Now_ok:
  assumes "H w"
    and "\<And>t w'. H w' \<Longrightarrow> C w \<le> t \<Longrightarrow> t \<le> C w' \<Longrightarrow> V w' = V w \<Longrightarrow>
      Q \<lparr>t_ns = t, t_loc = tz_local (x_tz E)\<rparr> w'"
  shows "wp (Now E) Q w"
proof -
  have "wp (x_Now E) (\<lambda>t w'. H w' \<and> C w \<le> t \<and> t \<le> C w' \<and> V w' = V w) w"
  proof (rule run_wp)
    fix t w'
    assume "run_state (x_Now E) w = (t, w')"
    with assms(1) show "H w' \<and> C w \<le> t \<and> t \<le> C w' \<and> V w' = V w"
      using now_ok now_law by simp
  qed
  then show ?thesis unfolding Now_def wp_bind by (rule wp_mono) (simp add: assms(2))
qed

lemma wp_Until_ok:
  assumes "H w"
    and "\<And>x w'. H w' \<Longrightarrow> C w \<le> x \<Longrightarrow> x \<le> C w' \<Longrightarrow> V w' = V w \<Longrightarrow>
      Q (Sub t \<lparr>t_ns = x, t_loc = tz_local (x_tz E)\<rparr>) w'"
  shows "wp (Until E t) Q w"
  unfolding Until_def wp_bind by (rule wp_Now_ok [OF assms(1)]) (simp add: assms(2))

lemma wp_Get_ok:
  assumes "H w" "V w (k, ns, n) = Some ob" "\<And>w'. H w' \<Longrightarrow> C w \<le> C w' \<Longrightarrow> V w' = V w \<Longrightarrow> Q (Inr ob) w'"
  shows "wp (x_Get E k ns n) Q w"
proof (rule run_wp)
  fix r w'
  assume r: "run_state (x_Get E k ns n) w = (r, w')"
  from get_law [OF r] get_ok [OF assms(1) r] assms(2,3) show "Q r w'"
    by (auto simp: get_result_def)
qed

lemma wp_Get_missing:
  assumes "H w" "V w (k, ns, n) = None" "\<And>w'. H w' \<Longrightarrow> C w \<le> C w' \<Longrightarrow> V w' = V w \<Longrightarrow> Q (Inl (ApiErr NotFound)) w'"
  shows "wp (x_Get E k ns n) Q w"
proof (rule run_wp)
  fix r w'
  assume r: "run_state (x_Get E k ns n) w = (r, w')"
  from get_law [OF r] get_ok [OF assms(1) r] assms(2,3) show "Q r w'" by auto
qed

lemma wp_List_ok:
  assumes "H w"
    and "\<And>obs w'. H w' \<Longrightarrow> C w \<le> C w' \<Longrightarrow> V w' = V w \<Longrightarrow> list_result (V w) k ns (Inr obs) \<Longrightarrow> Q (Inr obs) w'"
  shows "wp (x_List E k ns) Q w"
proof (rule run_wp)
  fix r w'
  assume r: "run_state (x_List E k ns) w = (r, w')"
  from list_law [OF r] list_ok [OF assms(1) r] assms(2) show "Q r w'" by auto
qed

lemma wp_Update_ok:
  assumes "H w" "V w (obj_key ob) = Some old" "om_rv (obj_meta old) = om_rv (obj_meta ob)"
    and "\<And>rv ob' w'. H w' \<Longrightarrow> C w \<le> C w' \<Longrightarrow> ob' = with_rv rv (write_over old ob) \<Longrightarrow>
      V w' = (V w)(obj_key ob := (if released ob' then None else Some ob')) \<Longrightarrow> Q (Inr ob') w'"
  shows "wp (x_Update E ob) Q w"
proof (rule run_wp)
  fix r w'
  assume r: "run_state (x_Update E ob) w = (r, w')"
  from update_ok [OF assms(1) r] assms(2,3) obtain ob' where "r = Inr ob'" "H w'" "C w \<le> C w'" by auto
  with update_law [OF r] assms(2,4) show "Q r w'"
    by (auto simp: write_result_def applied_update_def)
qed

lemma wp_StatusUpdate_ok:
  assumes "H w" "V w (obj_key ob) = Some old" "om_rv (obj_meta old) = om_rv (obj_meta ob)"
    and "\<And>rv ob' w'. H w' \<Longrightarrow> C w \<le> C w' \<Longrightarrow> ob' = with_rv rv (status_over old ob) \<Longrightarrow>
      V w' = (V w)(obj_key ob \<mapsto> ob') \<Longrightarrow> Q (Inr ob') w'"
  shows "wp (x_StatusUpdate E ob) Q w"
proof (rule run_wp)
  fix r w'
  assume r: "run_state (x_StatusUpdate E ob) w = (r, w')"
  from status_ok [OF assms(1) r] assms(2,3) obtain ob' where "r = Inr ob'" "H w'" "C w \<le> C w'" by auto
  with status_law [OF r] assms(2,4) show "Q r w'"
    by (auto simp: write_result_def applied_status_def)
qed

lemma wp_Create_ok:
  assumes "H w" "V w (obj_key ob) = None"
    and "\<And>c rv ob' w'. H w' \<Longrightarrow> C w \<le> C w' \<Longrightarrow> ob' = with_rv rv (created c ob) \<Longrightarrow>
      V w' = (V w)(obj_key ob \<mapsto> ob') \<Longrightarrow> Q (Inr ob') w'"
  shows "wp (x_Create E ob) Q w"
proof (rule run_wp)
  fix r w'
  assume r: "run_state (x_Create E ob) w = (r, w')"
  from create_ok [OF assms(1) r] assms(2) obtain ob' where "r = Inr ob'" "H w'" "C w \<le> C w'" by auto
  with create_law [OF r] assms(2,3) show "Q r w'"
    by (auto simp: write_result_def applied_create_def)
qed

lemma wp_Delete_ok:
  assumes "H w" "V w (obj_key ob) \<noteq> None"
    and "\<And>w'. H w' \<Longrightarrow> C w \<le> C w' \<Longrightarrow> applied_delete (V w) ob (V w') \<Longrightarrow> Q None w'"
  shows "wp (x_Delete E ob) Q w"
proof (rule run_wp)
  fix d w'
  assume d: "run_state (x_Delete E ob) w = (d, w')"
  from delete_ok [OF assms(1) d] assms(2) have "d = None" "H w'" "C w \<le> C w'" by auto
  with delete_law [OF d] assms(3) show "Q d w'" by auto
qed

lemma wp_getSleepOrder_ok:
  assumes "H w" "V w (KSleepOrder, ns, n) = Some (SleepOrderObj so)"
    and "\<And>w'. H w' \<Longrightarrow> C w \<le> C w' \<Longrightarrow> V w' = V w \<Longrightarrow> Q (Inr so) w'"
  shows "wp (getSleepOrder E ns n) Q w"
  unfolding getSleepOrder_def
  by (simp, rule wp_Get_ok [OF assms(1,2)]) (simp add: as_SleepOrder_def assms(3))

end

text \<open>An attempt that ends without a conflict is the whole loop.\<close>

lemma retry_n_first:
  assumes "wp (f s) (\<lambda>r w'. (\<forall>e. fst r = Some e \<longrightarrow> \<not> IsConflict e) \<and> Q r w') w"
  shows "wp (retry_n n f s) Q w"
  using assms by (cases n) (auto elim!: wp_mono split: option.splits)

lemma wp_retry_first:
  fixes E :: "'w env"
  assumes "conflict_retry E"
    and "wp (f s) (\<lambda>r w'. (\<forall>e. fst r = Some e \<longrightarrow> \<not> IsConflict e) \<and> Q r w') w"
  shows "wp (x_RetryOnConflict E f s) Q w"
proof -
  from conflict_retry.retry_law [OF assms(1)] obtain n
    where "run_state (x_RetryOnConflict E f s) w = run_state (retry_n n f s) w" by blast
  moreover have "wp (retry_n n f s) Q w" by (rule retry_n_first) (rule assms(2))
  ultimately show ?thesis by (simp add: wp_def)
qed

end
