(* ===== verification/Mem_Api.thy ===== *)
theory Mem_Api
  imports Client
begin

text \<open>
  A reference API server in memory: the concrete environment on which the interfaces of theory
  Client are shown to hold, and on which the properties of the controllers are exercised.  It keeps
  the objects, a resource-version counter, a clock that moves at every reading, and a script of
  faults, one entry consumed by each call: the connection can be refused, the reply to a call can be
  lost after it was applied, and a concurrent writer can make a write conflict.
\<close>

datatype fault = Fine | ConnRefused | ReplyLost | Concurrent

record mem =
  m_objs :: "client_object list"
  m_rv :: nat
  m_clock :: int
  m_faults :: "fault list"

definition mem_view :: "mem \<Rightarrow> view" where
  "mem_view w key = find (\<lambda>ob. obj_key ob = key) (m_objs w)"

definition mem_healthy :: "mem \<Rightarrow> bool" where
  "mem_healthy w \<longleftrightarrow> list_all (\<lambda>f. f = Fine) (m_faults w)"

definition put :: "client_object \<Rightarrow> client_object list \<Rightarrow> client_object list" where
  "put ob obs = ob # filter (\<lambda>p. obj_key p \<noteq> obj_key ob) obs"

definition discard :: "okey \<Rightarrow> client_object list \<Rightarrow> client_object list" where
  "discard k obs = filter (\<lambda>p. obj_key p \<noteq> k) obs"

fun newest :: "client_object list \<Rightarrow> client_object list" where
  "newest [] = []"
| "newest (ob # obs) = ob # filter (\<lambda>p. obj_key p \<noteq> obj_key ob) (newest obs)"

definition next_fault :: "mem \<Rightarrow> fault" where
  "next_fault w = (case m_faults w of [] \<Rightarrow> Fine | f # _ \<Rightarrow> f)"

definition tick :: "mem \<Rightarrow> mem" where
  "tick w = w\<lparr>m_faults := tl (m_faults w)\<rparr>"

definition conn_error :: go_error where
  "conn_error = ApiErr (OtherReason ''connection'')"

text \<open>A read and a write, with the scripted fault of the call.\<close>

definition mem_read :: "(mem \<Rightarrow> go_error + 'a) \<Rightarrow> (mem, go_error + 'a) state" where
  "mem_read f = State (\<lambda>w. (if next_fault w = Fine then f w else Inl conn_error, tick w))"

definition mem_write ::
  "(mem \<Rightarrow> (go_error + client_object) \<times> mem) \<Rightarrow> (mem, go_error + client_object) state" where
  "mem_write f = State (\<lambda>w.
     (case next_fault w of
        Fine \<Rightarrow> f (tick w)
      | ConnRefused \<Rightarrow> (Inl conn_error, tick w)
      | ReplyLost \<Rightarrow> (Inl conn_error, snd (f (tick w)))
      | Concurrent \<Rightarrow> (Inl (ApiErr Conflict), tick w)))"

definition bump :: "mem \<Rightarrow> mem" where "bump w = w\<lparr>m_rv := Suc (m_rv w)\<rparr>"

definition stale :: "client_object \<Rightarrow> client_object \<Rightarrow> bool" where
  "stale old ob \<longleftrightarrow> om_rv (obj_meta ob) \<noteq> 0 \<and> om_rv (obj_meta ob) \<noteq> om_rv (obj_meta old)"

definition store_create :: "client_object \<Rightarrow> mem \<Rightarrow> (go_error + client_object) \<times> mem" where
  "store_create ob w =
     (case mem_view w (obj_key ob) of
        Some _ \<Rightarrow> (Inl (ApiErr AlreadyExists), w)
      | None \<Rightarrow>
          let ob' = with_rv (Suc (m_rv w)) (created (m_clock w) ob)
          in (Inr ob', bump (w\<lparr>m_objs := put ob' (m_objs w)\<rparr>)))"

definition store_over ::
  "(client_object \<Rightarrow> client_object \<Rightarrow> client_object) \<Rightarrow> (client_object \<Rightarrow> bool) \<Rightarrow> client_object \<Rightarrow>
   mem \<Rightarrow> (go_error + client_object) \<times> mem" where
  "store_over f gone ob w =
     (case mem_view w (obj_key ob) of
        None \<Rightarrow> (Inl (ApiErr NotFound), w)
      | Some old \<Rightarrow>
          if stale old ob then (Inl (ApiErr Conflict), w)
          else
            let ob' = with_rv (Suc (m_rv w)) (f old ob)
            in (Inr ob', bump (w\<lparr>m_objs :=
                  (if gone ob' then discard (obj_key ob) (m_objs w) else put ob' (m_objs w))\<rparr>)))"

definition store_delete :: "client_object \<Rightarrow> mem \<Rightarrow> (go_error + client_object) \<times> mem" where
  "store_delete ob w =
     (case mem_view w (obj_key ob) of
        None \<Rightarrow> (Inl (ApiErr NotFound), w)
      | Some old \<Rightarrow>
          if om_finalizers (obj_meta old) = [] then
            (Inr old, bump (w\<lparr>m_objs := discard (obj_key ob) (m_objs w)\<rparr>))
          else
            let ob' = with_rv (Suc (m_rv w)) (marked (m_clock w) old)
            in (Inr ob', bump (w\<lparr>m_objs := put ob' (m_objs w)\<rparr>)))"

definition mem_get :: "okey \<Rightarrow> mem \<Rightarrow> go_error + client_object" where
  "mem_get key w = (case mem_view w key of None \<Rightarrow> Inl (ApiErr NotFound) | Some ob \<Rightarrow> Inr ob)"

definition mem_list :: "kind \<Rightarrow> string \<Rightarrow> mem \<Rightarrow> client_object list" where
  "mem_list k ns w =
     filter (\<lambda>ob. obj_kind ob = k \<and> om_namespace (obj_meta ob) = ns) (newest (m_objs w))"

definition mem_env :: "tzinfo \<Rightarrow> mem env" where
  "mem_env tz =
    \<lparr>x_tz = tz,
     x_Now = State (\<lambda>w. (m_clock w, w\<lparr>m_clock := m_clock w + 1\<rparr>)),
     x_Get = (\<lambda>k ns n. mem_read (mem_get (k, ns, n))),
     x_List = (\<lambda>k ns. mem_read (\<lambda>w. Inr (mem_list k ns w))),
     x_Create = (\<lambda>ob. mem_write (store_create ob)),
     x_Update = (\<lambda>ob. mem_write (store_over write_over released ob)),
     x_StatusUpdate = (\<lambda>ob. mem_write (store_over status_over (\<lambda>_. False) ob)),
     x_Delete = (\<lambda>ob. do {
        r \<leftarrow> mem_write (store_delete ob);
        ret (case r of Inl e \<Rightarrow> Some e | Inr _ \<Rightarrow> None) }),
     x_ContainsFinalizer = (\<lambda>m f. List.member (om_finalizers m) f),
     x_AddFinalizer = (\<lambda>m f. if List.member (om_finalizers m) f then m
        else m\<lparr>om_finalizers := om_finalizers m @ [f]\<rparr>),
     x_RemoveFinalizer = (\<lambda>m f. m\<lparr>om_finalizers := removeAll f (om_finalizers m)\<rparr>),
     x_SetControllerReference = (\<lambda>p m.
        if om_owner m = None \<and> om_namespace m = om_namespace (pol_meta p)
        then Inr (m\<lparr>om_owner := Some (om_name (pol_meta p))\<rparr>) else Inl ErrOwnerRef),
     x_RetryOnConflict = retry_n 4,
     x_range = sorted_list_of_fmap\<rparr>"

section \<open>The laws hold\<close>

lemma mem_view_key: "mem_view w key = Some ob \<Longrightarrow> obj_key ob = key"
  by (auto simp: mem_view_def find_Some_iff)

lemma find_filter_other:
  "P \<noteq> Q \<Longrightarrow> find (\<lambda>ob. obj_key ob = P) (filter (\<lambda>p. obj_key p \<noteq> Q) obs) =
     find (\<lambda>ob. obj_key ob = P) obs"
  by (induction obs) auto

lemma find_filter_same: "find (\<lambda>ob. obj_key ob = Q) (filter (\<lambda>p. obj_key p \<noteq> Q) obs) = None"
  by (induction obs) auto

lemma mem_view_put [simp]:
  "mem_view (w\<lparr>m_objs := put ob (m_objs w)\<rparr>) = (mem_view w)(obj_key ob \<mapsto> ob)"
  by (auto simp: mem_view_def put_def find_filter_other fun_eq_iff)

lemma mem_view_discard [simp]:
  "mem_view (w\<lparr>m_objs := discard k (m_objs w)\<rparr>) = (mem_view w)(k := None)"
  by (auto simp: mem_view_def discard_def find_filter_other find_filter_same fun_eq_iff)

lemma mem_view_other [simp]:
  "mem_view (tick w) = mem_view w"
  "mem_view (bump w) = mem_view w"
  "mem_view (w\<lparr>m_clock := c\<rparr>) = mem_view w"
  by (simp_all add: mem_view_def tick_def bump_def fun_eq_iff)

lemma newest_spec:
  "set (newest obs) = {ob. find (\<lambda>p. obj_key p = obj_key ob) obs = Some ob} \<and>
   distinct (map obj_key (newest obs))"
proof (induction obs)
  case (Cons a obs)
  then show ?case by (auto simp: distinct_map inj_on_def)
qed simp

lemma mem_list_result: "list_result (mem_view w) k ns (Inr (mem_list k ns w))"
proof -
  note n = newest_spec [of "m_objs w"]
  have "distinct (map obj_key (mem_list k ns w))"
    using n by (auto simp: mem_list_def distinct_map inj_on_def)
  moreover have "(ob \<in> set (mem_list k ns w)) = (\<exists>n. mem_view w (k, ns, n) = Some ob)" for ob
  proof
    assume "ob \<in> set (mem_list k ns w)"
    then show "\<exists>n. mem_view w (k, ns, n) = Some ob"
      using n by (auto simp: mem_list_def mem_view_def obj_key_def [of ob])
  next
    assume "\<exists>n. mem_view w (k, ns, n) = Some ob"
    then obtain n where v: "mem_view w (k, ns, n) = Some ob" by blast
    then have "obj_key ob = (k, ns, n)" by (rule mem_view_key)
    then show "ob \<in> set (mem_list k ns w)"
      using v newest_spec [of "m_objs w"] by (auto simp: mem_list_def mem_view_def obj_key_def [of ob])
  qed
  ultimately show ?thesis by (auto simp: list_result_def)
qed

lemma run_mem_read:
  "run_state (mem_read f) w = (if next_fault w = Fine then f w else Inl conn_error, tick w)"
  by (simp add: mem_read_def)

lemma run_mem_write:
  "run_state (mem_write f) w =
     (case next_fault w of
        Fine \<Rightarrow> f (tick w)
      | ConnRefused \<Rightarrow> (Inl conn_error, tick w)
      | ReplyLost \<Rightarrow> (Inl conn_error, snd (f (tick w)))
      | Concurrent \<Rightarrow> (Inl (ApiErr Conflict), tick w))"
  by (simp add: mem_write_def)

lemma not_definite_conn [simp]: "\<not> definite conn_error" "conn_error \<noteq> ApiErr NotFound"
  by (simp_all add: definite_def conn_error_def)

lemma mem_write_law:
  assumes "run_state (mem_write f) w = (r, w')"
    and f: "\<And>w r w'. f w = (r, w') \<Longrightarrow> write_result (mem_view w) k (A (mem_view w)) r (mem_view w')"
  shows "write_result (mem_view w) k (A (mem_view w)) r (mem_view w')"
proof -
  obtain r1 w1 where f1: "f (tick w) = (r1, w1)" by (cases "f (tick w)")
  from f [OF f1] have law: "write_result (mem_view w) k (A (mem_view w)) r1 (mem_view w1)" by simp
  then have lost: "write_result (mem_view w) k (A (mem_view w)) (Inl conn_error) (mem_view w1)"
    by (auto simp: write_result_def split: sum.splits)
  from assms(1) f1 law lost show ?thesis
    by (auto simp: run_mem_write write_result_def split: fault.splits)
qed

lemma created_key [simp]: "obj_key (with_rv v (created c ob)) = obj_key ob" by simp

lemma store_create_law:
  "store_create ob w = (r, w') \<Longrightarrow>
   write_result (mem_view w) (obj_key ob) (applied_create (mem_view w) ob) r (mem_view w')"
proof (cases "mem_view w (obj_key ob)")
  case None
  assume "store_create ob w = (r, w')"
  then have "r = Inr (with_rv (Suc (m_rv w)) (created (m_clock w) ob))"
    "mem_view w' = (mem_view w)(obj_key ob \<mapsto> with_rv (Suc (m_rv w)) (created (m_clock w) ob))"
    using None by (auto simp: store_create_def Let_def)
  then show ?thesis using None by (auto simp: write_result_def applied_create_def)
qed (auto simp: store_create_def write_result_def)

lemma store_over_law:
  assumes "store_over f gone ob w = (r, w')"
    and key: "\<And>old. obj_key old = obj_key ob \<Longrightarrow> obj_key (f old ob) = obj_key ob"
  shows "write_result (mem_view w) (obj_key ob)
     (\<lambda>ob' v'. \<exists>old rv. mem_view w (obj_key ob) = Some old \<and> ob' = with_rv rv (f old ob) \<and>
        v' = (mem_view w)(obj_key ob := (if gone ob' then None else Some ob'))) r (mem_view w')"
proof (cases "mem_view w (obj_key ob)")
  case None
  then show ?thesis using assms(1) by (auto simp: store_over_def write_result_def)
next
  case (Some old)
  show ?thesis
  proof (cases "stale old ob")
    case True
    then show ?thesis using assms(1) Some by (auto simp: store_over_def write_result_def)
  next
    case False
    define ob' where "ob' = with_rv (Suc (m_rv w)) (f old ob)"
    from Some key [OF mem_view_key [OF Some]] have k: "obj_key ob' = obj_key ob" by (simp add: ob'_def)
    from assms(1) Some False
    have "r = Inr ob'"
      "mem_view w' = (mem_view w)(obj_key ob := (if gone ob' then None else Some ob'))"
      using k by (auto simp: store_over_def Let_def ob'_def [symmetric])
    then show ?thesis
      unfolding write_result_def using Some by (auto simp: ob'_def intro!: exI)
  qed
qed

lemma store_update_law:
  "store_over write_over released ob w = (r, w') \<Longrightarrow>
   write_result (mem_view w) (obj_key ob) (applied_update (mem_view w) ob) r (mem_view w')"
  by (drule store_over_law) (simp_all add: applied_update_def [abs_def])

lemma store_status_law:
  "store_over status_over (\<lambda>_. False) ob w = (r, w') \<Longrightarrow>
   write_result (mem_view w) (obj_key ob) (applied_status (mem_view w) ob) r (mem_view w')"
proof (drule store_over_law)
  show "obj_key (status_over old ob) = obj_key ob" if "obj_key old = obj_key ob" for old
    using that by (simp add: obj_key_def)
qed (simp add: applied_status_def [abs_def])

lemma store_delete_law:
  "store_delete ob w = (r, w') \<Longrightarrow>
   write_result (mem_view w) (obj_key ob) (\<lambda>_. applied_delete (mem_view w) ob) r (mem_view w')"
proof (cases "mem_view w (obj_key ob)")
  case (Some old)
  assume d: "store_delete ob w = (r, w')"
  from Some have k: "obj_key old = obj_key ob" by (rule mem_view_key)
  show ?thesis
  proof (cases "om_finalizers (obj_meta old) = []")
    case False
    define ob' where "ob' = with_rv (Suc (m_rv w)) (marked (m_clock w) old)"
    have k': "obj_key ob' = obj_key ob" using k by (simp add: ob'_def)
    from d Some False have "r = Inr ob'" "mem_view w' = (mem_view w)(obj_key ob \<mapsto> ob')"
      using k' by (auto simp: store_delete_def Let_def ob'_def [symmetric])
    then show ?thesis
      using Some False by (auto simp: write_result_def applied_delete_def ob'_def intro!: exI)
  qed (use d Some in \<open>auto simp: store_delete_def write_result_def applied_delete_def\<close>)
qed (auto simp: store_delete_def write_result_def)

lemma mem_env_simps [simp]:
  "x_tz (mem_env tz) = tz"
  "run_state (x_Now (mem_env tz)) w = (m_clock w, w\<lparr>m_clock := m_clock w + 1\<rparr>)"
  "x_Get (mem_env tz) k ns n = mem_read (mem_get (k, ns, n))"
  "x_List (mem_env tz) k ns = mem_read (\<lambda>w. Inr (mem_list k ns w))"
  "x_Create (mem_env tz) ob = mem_write (store_create ob)"
  "x_Update (mem_env tz) ob = mem_write (store_over write_over released ob)"
  "x_StatusUpdate (mem_env tz) ob = mem_write (store_over status_over (\<lambda>_. False) ob)"
  "x_RetryOnConflict (mem_env tz) = retry_n 4"
  "x_range (mem_env tz) = sorted_list_of_fmap"
  by (simp_all add: mem_env_def)

lemma run_mem_delete:
  "run_state (x_Delete (mem_env tz) ob) w =
     (case run_state (mem_write (store_delete ob)) w of
        (r, w') \<Rightarrow> (case r of Inl e \<Rightarrow> Some e | Inr _ \<Rightarrow> None, w'))"
  by (simp add: mem_env_def split: prod.splits)

lemma mem_delete_law:
  assumes "run_state (x_Delete (mem_env tz) ob) w = (d, w')"
  shows "case d of None \<Rightarrow> applied_delete (mem_view w) ob (mem_view w')
    | Some e \<Rightarrow> (mem_view w' = mem_view w \<or> \<not> definite e \<and> applied_delete (mem_view w) ob (mem_view w')) \<and>
        (e = ApiErr NotFound \<longrightarrow> mem_view w (obj_key ob) = None)"
proof -
  obtain r where r: "run_state (mem_write (store_delete ob)) w = (r, w')"
    and d: "d = (case r of Inl e \<Rightarrow> Some e | Inr _ \<Rightarrow> None)"
    using assms by (auto simp: run_mem_delete split: prod.splits)
  have "write_result (mem_view w) (obj_key ob) (\<lambda>_. applied_delete (mem_view w) ob) r (mem_view w')"
    by (rule mem_write_law [OF r]) (rule store_delete_law)
  then show ?thesis using d by (auto simp: write_result_def split: sum.splits)
qed

interpretation mem: kube_api "mem_env tz" mem_view
proof
  show "obj_key ob = key" if "mem_view w key = Some ob" for w key ob
    using that by (rule mem_view_key)
  show "mem_view w' = mem_view w" if "run_state (x_Now (mem_env tz)) w = (t, w')" for w t w'
    using that by auto
  show "mem_view w' = mem_view w \<and> get_result (mem_view w (k, ns, n)) r"
    if "run_state (x_Get (mem_env tz) k ns n) w = (r, w')" for k ns n w r w'
    using that by (auto simp: run_mem_read mem_get_def get_result_def split: option.splits)
  show "mem_view w' = mem_view w \<and> list_result (mem_view w) k ns l"
    if "run_state (x_List (mem_env tz) k ns) w = (l, w')" for k ns w l w'
    using that mem_list_result [of w k ns] by (auto simp: run_mem_read list_result_def)
qed (unfold mem_env_simps, (rule mem_write_law, assumption,
  erule store_create_law store_update_law store_status_law | rule mem_delete_law | assumption)+)

lemma healthy_next [simp]: "mem_healthy w \<Longrightarrow> next_fault w = Fine"
  by (auto simp: mem_healthy_def next_fault_def split: list.splits)

lemma healthy_simps [simp]:
  "mem_healthy w \<Longrightarrow> mem_healthy (tick w)"
  "mem_healthy (bump w) = mem_healthy w"
  "mem_healthy (w\<lparr>m_clock := c\<rparr>) = mem_healthy w"
  "mem_healthy (w\<lparr>m_objs := obs\<rparr>) = mem_healthy w"
  by (cases "m_faults w"; simp add: mem_healthy_def tick_def bump_def)+

lemma clock_simps [simp]:
  "m_clock (tick w) = m_clock w" "m_clock (bump w) = m_clock w"
  by (simp_all add: tick_def bump_def)

lemma store_progress:
  "store_create ob w = (r, w') \<Longrightarrow> m_clock w' = m_clock w \<and> (mem_healthy w \<longrightarrow> mem_healthy w')"
  "store_over f gone ob w = (r, w') \<Longrightarrow> m_clock w' = m_clock w \<and> (mem_healthy w \<longrightarrow> mem_healthy w')"
  "store_delete ob w = (r, w') \<Longrightarrow> m_clock w' = m_clock w \<and> (mem_healthy w \<longrightarrow> mem_healthy w')"
  by (auto simp: store_create_def store_over_def store_delete_def Let_def split: option.splits if_splits)

interpretation mem: reliable_api "mem_env tz" mem_view mem_healthy m_clock
proof
  show "mem_healthy w' \<and> m_clock w \<le> t \<and> t \<le> m_clock w'" if "mem_healthy w" "run_state (x_Now (mem_env tz)) w = (t, w')" for w t w'
    using that by auto
  show "mem_healthy w' \<and> m_clock w \<le> m_clock w' \<and> (mem_view w (k, ns, n) \<noteq> None \<longrightarrow> (\<exists>ob. r = Inr ob)) \<and>
      (mem_view w (k, ns, n) = None \<longrightarrow> r = Inl (ApiErr NotFound))"
    if "mem_healthy w" "run_state (x_Get (mem_env tz) k ns n) w = (r, w')" for k ns n w r w'
    using that by (auto simp: run_mem_read mem_get_def)
  show "mem_healthy w' \<and> m_clock w \<le> m_clock w' \<and> (\<exists>obs. l = Inr obs)"
    if "mem_healthy w" "run_state (x_List (mem_env tz) k ns) w = (l, w')" for k ns w l w'
    using that by (auto simp: run_mem_read)
  show "mem_healthy w' \<and> m_clock w \<le> m_clock w' \<and> (mem_view w (obj_key ob) = None \<longrightarrow> (\<exists>ob'. r = Inr ob'))"
    if "mem_healthy w" "run_state (x_Create (mem_env tz) ob) w = (r, w')" for ob w r w'
    using that by (auto simp: run_mem_write dest: store_progress) (auto simp: store_create_def Let_def)
  show "mem_healthy w' \<and> m_clock w \<le> m_clock w' \<and> (\<forall>old. mem_view w (obj_key ob) = Some old \<longrightarrow>
      om_rv (obj_meta old) = om_rv (obj_meta ob) \<longrightarrow> (\<exists>ob'. r = Inr ob'))"
    if "mem_healthy w" "run_state (x_Update (mem_env tz) ob) w = (r, w')" for ob w r w'
    using that by (auto simp: run_mem_write dest: store_progress)
      (auto simp: store_over_def stale_def Let_def split: if_splits)
  show "mem_healthy w' \<and> m_clock w \<le> m_clock w' \<and> (\<forall>old. mem_view w (obj_key ob) = Some old \<longrightarrow>
      om_rv (obj_meta old) = om_rv (obj_meta ob) \<longrightarrow> (\<exists>ob'. r = Inr ob'))"
    if "mem_healthy w" "run_state (x_StatusUpdate (mem_env tz) ob) w = (r, w')" for ob w r w'
    using that by (auto simp: run_mem_write dest: store_progress)
      (auto simp: store_over_def stale_def Let_def split: if_splits)
  show "mem_healthy w' \<and> m_clock w \<le> m_clock w' \<and> (mem_view w (obj_key ob) \<noteq> None \<longrightarrow> d = None)"
    if "mem_healthy w" "run_state (x_Delete (mem_env tz) ob) w = (d, w')" for ob w d w'
    using that by (auto simp: run_mem_delete run_mem_write dest: store_progress split: prod.splits)
      (auto simp: store_delete_def Let_def split: if_splits)
qed

interpretation mem: controller_util "mem_env tz"
proof
  show "map_of (x_range (mem_env tz) ds) = fmlookup ds \<and> distinct (map fst (x_range (mem_env tz) ds))"
    for ds
  proof -
    have "map fst (sorted_list_of_fmap ds) = sorted_list_of_fset (fmdom ds)"
      by (simp add: sorted_list_of_fmap_def comp_def)
    then show ?thesis by (simp add: sorted_list_of_fset.rep_eq)
  qed
qed (auto simp: mem_env_def List.member_iff split: if_splits)

interpretation mem: conflict_retry "mem_env tz"
  by unfold_locales auto

interpretation mem: healthy_controllers "mem_env tz" mem_view mem_healthy m_clock ..

end
