(* ===== verification/Sleep_Order.thy ===== *)
theory Sleep_Order
  imports Schedule_Spec Client Mem_Api
begin

text \<open>
  The SleepOrder controller, \<open>internal/controller/sleeporder_controller.go\<close>: one definition per
  method, over an arbitrary environment.  Go passes the target and the order as pointers and mutates
  them; a method that does so returns the object it leaves behind together with its result.  Log
  calls are left out.
\<close>

section \<open>Replica counts of a workload\<close>

text \<open>A missing replica count means 1, the default of the API.\<close>

fun getReplicas :: "client_object \<Rightarrow> go_error + int32" where
  "getReplicas (Deployment t) = (case wl_replicas t of Some n \<Rightarrow> Inr n | None \<Rightarrow> Inr 1)"
| "getReplicas (StatefulSet t) = (case wl_replicas t of Some n \<Rightarrow> Inr n | None \<Rightarrow> Inr 1)"
| "getReplicas _ = Inl ErrUnsupportedType"

fun setReplicas :: "client_object \<Rightarrow> int32 \<Rightarrow> go_error + client_object" where
  "setReplicas (Deployment t) n = Inr (Deployment (t\<lparr>wl_replicas := Some n\<rparr>))"
| "setReplicas (StatefulSet t) n = Inr (StatefulSet (t\<lparr>wl_replicas := Some n\<rparr>))"
| "setReplicas _ _ = Inl ErrUnsupportedType"

section \<open>Snapshot and restore\<close>

text \<open>\<open>client.Get\<close> and \<open>client.Update\<close> on an object that is refreshed in place when they succeed.\<close>

definition refresh :: "'w env \<Rightarrow> client_object \<Rightarrow> ('w, go_error + client_object) state" where
  "refresh E ob = x_Get E (obj_kind ob) (om_namespace (obj_meta ob)) (om_name (obj_meta ob))"

definition snapshotReplicas ::
  "'w env \<Rightarrow> client_object \<Rightarrow> ('w, (go_error + int32) \<times> client_object) state" where
  "snapshotReplicas E target =
     (case getReplicas target of
        Inl e \<Rightarrow> ret (Inl e, target)
      | Inr replicas \<Rightarrow> do {
          g \<leftarrow> refresh E target;
          (case g of
             Inl e \<Rightarrow> ret (Inl e, target)
           | Inr t1 \<Rightarrow> do {
               let annotations = (case om_annotations (obj_meta t1) of None \<Rightarrow> fmempty | Some a \<Rightarrow> a);
               let t2 = set_annotations
                          (Some (fmupd originalReplicasAnnotationKey (Itoa (sint replicas)) annotations)) t1;
               u \<leftarrow> x_Update E t2;
               (case u of
                  Inl e \<Rightarrow> ret (Inl e, t2)
                | Inr t3 \<Rightarrow> ret (Inr replicas, t3)) }) })"

definition restoreReplicas ::
  "'w env \<Rightarrow> client_object \<Rightarrow> ('w, (go_error + int32) \<times> client_object) state" where
  "restoreReplicas E target = do {
     g \<leftarrow> refresh E target;
     (case g of
        Inl e \<Rightarrow> ret (Inl e, target)
      | Inr t1 \<Rightarrow>
        (case om_annotations (obj_meta t1) of
           None \<Rightarrow> ret (Inl ErrNoAnnotations, t1)
         | Some annotations \<Rightarrow>
           (case fmlookup annotations originalReplicasAnnotationKey of
              None \<Rightarrow> ret (Inr 0, t1)
            | Some val \<Rightarrow>
              if val = '''' then ret (Inr 0, t1)
              else
                (case Atoi val of
                   None \<Rightarrow> ret (Inl ErrAtoi, t1)
                 | Some replicas \<Rightarrow>
                   (let replicasInt32 = word_of_int replicas
                    in case setReplicas t1 replicasInt32 of
                         Inl e \<Rightarrow> ret (Inl e, t1)
                       | Inr t2 \<Rightarrow> do {
                           let t3 = set_annotations
                                      (Some (fmdrop originalReplicasAnnotationKey annotations)) t2;
                           u \<leftarrow> x_Update E t3;
                           (case u of
                              Inl e \<Rightarrow> ret (Inl e, t3)
                            | Inr t4 \<Rightarrow> ret (Inr replicasInt32, t4)) }))))) }"

section \<open>The status of the order\<close>

definition equalTimePtr :: "int option \<Rightarrow> int option \<Rightarrow> bool" where
  "equalTimePtr t1 t2 =
     (if t1 = None \<and> t2 = None then True
      else if t1 = None \<or> t2 = None then False
      else the t1 = the t2)"

definition equalInt32Ptr :: "int32 option \<Rightarrow> int32 option \<Rightarrow> bool" where
  "equalInt32Ptr i1 i2 =
     (if i1 = None \<and> i2 = None then True
      else if i1 = None \<or> i2 = None then False
      else the i1 = the i2)"

definition updateStatus ::
  "'w env \<Rightarrow> sleep_order \<Rightarrow> string \<Rightarrow> time \<Rightarrow> int32 option \<Rightarrow> ('w, reconcile_result) state" where
  "updateStatus E sleepOrder st nextEvent originalReplicas = do {
     g \<leftarrow> getSleepOrder E (om_namespace (ord_meta sleepOrder)) (om_name (ord_meta sleepOrder));
     (case g of
        Inl e \<Rightarrow> ret (empty_result, Some e)
      | Inr latest \<Rightarrow> do {
          let s1 = (ord_status latest)\<lparr>ss_CurrentState := st,
                      ss_NextOperationTime := Some (t_ns nextEvent),
                      ss_OriginalReplicas := originalReplicas\<rparr>;
          newStatus \<leftarrow>
            (if ss_CurrentState (ord_status latest) \<noteq> st
             then do { now \<leftarrow> Now E; ret (s1\<lparr>ss_LastTransitionTime := Some (t_ns now)\<rparr>) }
             else ret s1);
          (if ss_CurrentState (ord_status latest) = ss_CurrentState newStatus \<and>
              equalTimePtr (ss_NextOperationTime (ord_status latest)) (ss_NextOperationTime newStatus) \<and>
              equalInt32Ptr (ss_OriginalReplicas (ord_status latest)) (ss_OriginalReplicas newStatus)
           then do { d \<leftarrow> Until E nextEvent; ret (requeue_after d, None) }
           else do {
             u \<leftarrow> x_StatusUpdate E (SleepOrderObj (latest\<lparr>ord_status := newStatus\<rparr>));
             (case u of
                Inl e \<Rightarrow> ret (empty_result, Some e)
              | Inr _ \<Rightarrow> do { d \<leftarrow> Until E nextEvent; ret (requeue_after d, None) }) }) }) }"

section \<open>Going to sleep and waking up\<close>

definition handleSleep ::
  "'w env \<Rightarrow> sleep_order \<Rightarrow> client_object \<Rightarrow> time \<Rightarrow> ('w, reconcile_result) state" where
  "handleSleep E sleepOrder target nextEvent = do {
     (r, t1) \<leftarrow>
       (case annotation target originalReplicasAnnotationKey of
          Some val \<Rightarrow>
            (case Atoi val of
               None \<Rightarrow> ret (Inl ErrAtoi, target)
             | Some valInt \<Rightarrow> ret (Inr (word_of_int valInt), target))
        | None \<Rightarrow> snapshotReplicas E target);
     (case r of
        Inl e \<Rightarrow> ret (empty_result, Some e)
      | Inr originalReplicas \<Rightarrow>
        (case setReplicas t1 0 of
           Inl e \<Rightarrow> ret (empty_result, Some e)
         | Inr t2 \<Rightarrow> do {
             u \<leftarrow> x_Update E t2;
             (case u of
                Inl e \<Rightarrow> ret (empty_result, Some e)
              | Inr _ \<Rightarrow> updateStatus E sleepOrder sleepingState nextEvent (Some originalReplicas)) })) }"

definition handleWake ::
  "'w env \<Rightarrow> sleep_order \<Rightarrow> client_object \<Rightarrow> int32 \<Rightarrow> time \<Rightarrow> ('w, reconcile_result) state" where
  "handleWake E sleepOrder target currentReplicas nextEvent =
     (if currentReplicas = 0 then do {
        (r, t1) \<leftarrow> restoreReplicas E target;
        (case r of
           Inl e \<Rightarrow> ret (empty_result, Some e)
         | Inr restoredReplicas \<Rightarrow>
           (case setReplicas t1 restoredReplicas of
              Inl e \<Rightarrow> ret (empty_result, Some e)
            | Inr t2 \<Rightarrow> do {
                u \<leftarrow> x_Update E t2;
                (case u of
                   Inl e \<Rightarrow> ret (empty_result, Some e)
                 | Inr _ \<Rightarrow> updateStatus E sleepOrder awakeState nextEvent (Some restoredReplicas)) })) }
      else updateStatus E sleepOrder awakeState nextEvent (Some currentReplicas))"

section \<open>The finalizer\<close>

text \<open>
  One attempt of the closure given to \<open>RetryOnConflict\<close>.  The order, the target and \<open>shouldStop\<close>
  are captured variables: what an attempt does to them is seen by the next attempt and after the
  loop.  \<open>currentReplicas\<close> is captured by value.
\<close>

definition addFinalizerStep ::
  "'w env \<Rightarrow> fin_state \<Rightarrow> ('w, go_error option \<times> fin_state) state" where
  "addFinalizerStep E s =
     (case s of (so, t, stop) \<Rightarrow>
       if \<not> x_ContainsFinalizer E (ord_meta so) sleepOrderFinalizer then do {
         let so1 = so\<lparr>ord_meta := x_AddFinalizer E (ord_meta so) sleepOrderFinalizer\<rparr>;
         u \<leftarrow> updateSleepOrder E so1;
         (case u of
            Inl e \<Rightarrow> ret (IgnoreNotFound e, (so1, t, stop))
          | Inr so2 \<Rightarrow> ret (None, (so2, t, False))) }
       else ret (None, (so, t, False)))"

definition restoreTargetStep ::
  "'w env \<Rightarrow> client_object \<Rightarrow> ('w, go_error option option \<times> client_object) state" where
  "restoreTargetStep E target = do {
     (r, t1) \<leftarrow> restoreReplicas E target;
     (case r of
        Inl e \<Rightarrow> ret (Some (Some e), t1)
      | Inr replicasFromAnnotation \<Rightarrow>
        (case setReplicas t1 replicasFromAnnotation of
           Inl e \<Rightarrow> ret (Some (Some e), t1)
         | Inr t2 \<Rightarrow> do {
             u \<leftarrow> x_Update E t2;
             (case u of
                Inl e \<Rightarrow> ret (Some (IgnoreNotFound e), t2)
              | Inr t3 \<Rightarrow> ret (None, t3)) })) }"

definition removeFinalizerStep ::
  "'w env \<Rightarrow> fin_state \<Rightarrow> ('w, go_error option \<times> fin_state) state" where
  "removeFinalizerStep E s =
     (case s of (so, t, stop) \<Rightarrow> do {
        let so1 = so\<lparr>ord_meta := x_RemoveFinalizer E (ord_meta so) sleepOrderFinalizer\<rparr>;
        u \<leftarrow> updateSleepOrder E so1;
        (case u of
           Inl e \<Rightarrow> ret (IgnoreNotFound e, (so1, t, stop))
         | Inr so2 \<Rightarrow> ret (None, (so2, t, True))) })"

definition finalizerAttempt ::
  "'w env \<Rightarrow> int32 \<Rightarrow> fin_state \<Rightarrow> ('w, go_error option \<times> fin_state) state" where
  "finalizerAttempt E currentReplicas s =
     (case s of (so0, t, stop) \<Rightarrow> do {
        g \<leftarrow> getSleepOrder E (om_namespace (ord_meta so0)) (om_name (ord_meta so0));
        (case g of
           Inl e \<Rightarrow> if IsNotFound e then ret (None, (so0, t, True)) else ret (Some e, (so0, t, stop))
         | Inr so \<Rightarrow>
             if om_deletion (ord_meta so) = None then addFinalizerStep E (so, t, stop)
             else if x_ContainsFinalizer E (ord_meta so) sleepOrderFinalizer then
               (if currentReplicas = 0 then do {
                  (early, t1) \<leftarrow> restoreTargetStep E t;
                  (case early of
                     Some err \<Rightarrow> ret (err, (so, t1, stop))
                   | None \<Rightarrow> removeFinalizerStep E (so, t1, stop)) }
                else removeFinalizerStep E (so, t, stop))
             else ret (None, (so, t, True))) })"

definition handleFinalizer ::
  "'w env \<Rightarrow> sleep_order \<Rightarrow> client_object \<Rightarrow> int32 \<Rightarrow>
   ('w, (bool \<times> go_error option) \<times> sleep_order \<times> client_object) state" where
  "handleFinalizer E sleepOrder target currentReplicas = do {
     (err, so, t, shouldStop) \<leftarrow>
       x_RetryOnConflict E (finalizerAttempt E currentReplicas) (sleepOrder, target, False);
     ret ((shouldStop, err), so, t) }"

section \<open>Reconcile\<close>

definition FetchSleepOrderOrContinue ::
  "'w env \<Rightarrow> string \<Rightarrow> string \<Rightarrow> ('w, go_error + sleep_order option) state" where
  "FetchSleepOrderOrContinue E ns n = do {
     g \<leftarrow> getSleepOrder E ns n;
     ret (case g of
            Inl e \<Rightarrow> (if IsNotFound e then Inr None else Inl e)
          | Inr so \<Rightarrow> Inr (Some so)) }"

definition getTargetObject ::
  "'w env \<Rightarrow> string \<Rightarrow> target_ref \<Rightarrow> ('w, go_error + client_object) state" where
  "getTargetObject E ns ref =
     (if tr_Kind ref = kindDeployment then x_Get E KDeployment ns (tr_Name ref)
      else if tr_Kind ref = kindStatefulSet then x_Get E KStatefulSet ns (tr_Name ref)
      else ret (Inl ErrUnsupportedType))"

text \<open>The branch for a target that does not exist (any more).\<close>

definition targetNotFound :: "'w env \<Rightarrow> sleep_order \<Rightarrow> ('w, reconcile_result) state" where
  "targetNotFound E so = do {
     now \<leftarrow> Now E;
     let nextRetry = AddDuration now minute_ns;
     let so1 = so\<lparr>ord_meta := x_RemoveFinalizer E (ord_meta so) sleepOrderFinalizer\<rparr>;
     u \<leftarrow> updateSleepOrder E so1;
     (case u of
        Inl e \<Rightarrow> ret (requeue_after minute_ns, Some e)
      | Inr so2 \<Rightarrow> updateStatus E so2 ''Error TargetNotFound'' nextRetry None) }"

definition reconcileTarget ::
  "'w env \<Rightarrow> sleep_order \<Rightarrow> client_object \<Rightarrow> ('w, reconcile_result) state" where
  "reconcileTarget E so target = do {
     now \<leftarrow> Now E;
     let spec = ord_spec so;
     (case GetTimeState (x_tz E) now (so_WakeAt spec) (so_SleepAt spec) (so_Timezone spec) (so_WorkingDays spec) of
        Inl e \<Rightarrow> ret (empty_result, Some e)
      | Inr (shouldSleep, nextEvent, _) \<Rightarrow>
        (case getReplicas target of
           Inl e \<Rightarrow> ret (empty_result, Some e)
         | Inr currentReplicas \<Rightarrow> do {
             ((done, err), so1, t1) \<leftarrow> handleFinalizer E so target currentReplicas;
             (if done then ret (empty_result, err)
              else if shouldSleep then handleSleep E so1 t1 nextEvent
              else handleWake E so1 t1 currentReplicas nextEvent) })) }"

definition Reconcile_SleepOrder ::
  "'w env \<Rightarrow> string \<Rightarrow> string \<Rightarrow> ('w, reconcile_result) state" where
  "Reconcile_SleepOrder E ns n = do {
     f \<leftarrow> FetchSleepOrderOrContinue E ns n;
     (case f of
        Inl e \<Rightarrow> ret (empty_result, Some e)
      | Inr None \<Rightarrow> ret (empty_result, None)
      | Inr (Some so) \<Rightarrow> do {
          g \<leftarrow> getTargetObject E ns (so_TargetRef (ord_spec so));
          (case g of
             Inl e \<Rightarrow> if IsNotFound e then targetNotFound E so else ret (empty_result, Some e)
           | Inr target \<Rightarrow> reconcileTarget E so target) }) }"

end
