(* ===== verification/Sleep_Order_Safe.thy ===== *)
theory Sleep_Order_Safe
  imports Sleep_Order
begin

text \<open>
  What a SleepOrder may do to its target, whatever calls fail: the replica count to go back to is
  never lost, and nothing but the replica count and the controller's own annotation is touched.
\<close>

section \<open>What a workload remembers\<close>

text \<open>
  The replica count the controller will go back to: the one in the annotation if it is there, the current
  one otherwise.  This is also so when somebody has scaled an annotated workload up by hand: the
  controller leaves it running, and the next night it trusts the annotation, so that the count set by hand
  is not the one remembered.
\<close>

definition remembered :: "client_object \<Rightarrow> int32 option" where
  "remembered ob =
     (case annotation ob originalReplicasAnnotationKey of
        Some val \<Rightarrow> map_option word_of_int (Atoi val)
      | None \<Rightarrow> (case getReplicas ob of Inl _ \<Rightarrow> None | Inr n \<Rightarrow> Some n))"

text \<open>The same workload up to replica count, own annotation and resource version.\<close>

definition same_workload :: "client_object \<Rightarrow> client_object \<Rightarrow> bool" where
  "same_workload a b \<longleftrightarrow>
     obj_key a = obj_key b \<and>
     (\<forall>k. k \<noteq> originalReplicasAnnotationKey \<longrightarrow> annotation a k = annotation b k) \<and>
     om_finalizers (obj_meta a) = om_finalizers (obj_meta b) \<and>
     om_owner (obj_meta a) = om_owner (obj_meta b) \<and>
     (case (a, b) of
        (Deployment c, Deployment d) \<Rightarrow> wl_rest c = wl_rest d
      | (StatefulSet c, StatefulSet d) \<Rightarrow> wl_rest c = wl_rest d
      | _ \<Rightarrow> False)"

definition is_workload :: "client_object \<Rightarrow> bool" where
  "is_workload ob \<longleftrightarrow> obj_kind ob = KDeployment \<or> obj_kind ob = KStatefulSet"

definition like :: "client_object \<Rightarrow> client_object \<Rightarrow> bool" where
  "like a b \<longleftrightarrow> same_workload a b \<and> remembered a = remembered b"

text \<open>
  From view \<open>v\<close> to view \<open>v'\<close> the workload \<open>T\<close> is kept, and only it and the order \<open>S\<close> may differ.
  A workload goes away only when it is already being deleted.
\<close>

definition kept :: "client_object option \<Rightarrow> client_object option \<Rightarrow> bool" where
  "kept x y \<longleftrightarrow>
     (case x of None \<Rightarrow> y = None | Some a \<Rightarrow>
       (case y of None \<Rightarrow> om_deletion (obj_meta a) \<noteq> None
        | Some b \<Rightarrow> like a b \<and> om_deletion (obj_meta a) = om_deletion (obj_meta b)))"

definition intact :: "okey \<Rightarrow> okey \<Rightarrow> view \<Rightarrow> view \<Rightarrow> bool" where
  "intact S T v v' \<longleftrightarrow> (\<forall>k. k \<noteq> S \<longrightarrow> k \<noteq> T \<longrightarrow> v' k = v k) \<and> kept (v T) (v' T)"

lemma workload_cases:
  assumes "is_workload ob"
  obtains d where "ob = Deployment d" | d where "ob = StatefulSet d"
  using assms by (cases ob) (auto simp: is_workload_def)

lemma getReplicas_workload: "is_workload ob \<longleftrightarrow> (\<exists>n. getReplicas ob = Inr n)"
  by (cases ob) (auto simp: is_workload_def split: option.splits)

lemma setReplicas_workload: "is_workload ob \<Longrightarrow> \<exists>ob'. setReplicas ob n = Inr ob'"
  by (cases ob) (auto simp: is_workload_def)

lemma getReplicas_simps [simp]:
  "getReplicas (set_annotations a ob) = getReplicas ob"
  "getReplicas (with_rv v ob) = getReplicas ob"
  "getReplicas (write_over old ob) = getReplicas ob"
  by (cases ob; cases old; simp add: set_annotations_def with_rv_def write_over_def)+

lemma setReplicas_simps:
  assumes "setReplicas ob n = Inr ob'"
  shows "getReplicas ob' = Inr n" "obj_key ob' = obj_key ob" "obj_meta ob' = obj_meta ob"
    "obj_kind ob' = obj_kind ob" "annotation ob' k = annotation ob k" "same_workload ob' ob"
    "is_workload ob'"
  using assms by (cases ob; auto simp: annotation_def same_workload_def is_workload_def)+

lemma same_workload_refl: "is_workload ob \<Longrightarrow> same_workload ob ob"
  by (cases ob) (auto simp: same_workload_def is_workload_def)

lemma same_workload_sym: "same_workload a b \<Longrightarrow> same_workload b a"
  by (auto simp: same_workload_def split: client_object.splits)

lemma same_workload_trans: "same_workload a b \<Longrightarrow> same_workload b c \<Longrightarrow> same_workload a c"
  by (auto simp: same_workload_def split: client_object.splits)

lemma same_workload_is: "same_workload a b \<Longrightarrow> is_workload a \<and> is_workload b"
  by (auto simp: same_workload_def is_workload_def split: client_object.splits)

lemma same_workload_set:
  assumes "is_workload ob"
    and "\<And>k. k \<noteq> originalReplicasAnnotationKey \<Longrightarrow> fmlookup m k = annotation ob k"
  shows "same_workload (set_annotations (Some m) ob) ob"
  using assms
  by (cases ob) (auto simp: same_workload_def is_workload_def set_annotations_def annotation_def)

lemma same_workload_write:
  assumes "is_workload ob"
  shows "same_workload (with_rv rv (write_over old ob)) ob"
proof -
  have "\<forall>k. annotation (with_rv rv (write_over old ob)) k = annotation ob k" by simp
  with assms show ?thesis
    by (cases ob; cases old)
      (auto simp: same_workload_def is_workload_def obj_key_def with_rv_def write_over_def norm_meta_def
        annotation_def)
qed

lemma remembered_write [simp]: "remembered (with_rv rv (write_over old ob)) = remembered ob"
  by (simp add: remembered_def cong: option.case_cong)

lemma like_refl: "is_workload ob \<Longrightarrow> like ob ob"
  by (simp add: like_def same_workload_refl)

lemma like_sym: "like a b \<Longrightarrow> like b a"
  by (simp add: like_def same_workload_sym)

lemma like_trans: "like a b \<Longrightarrow> like b c \<Longrightarrow> like a c"
  by (auto simp: like_def intro: same_workload_trans)

lemma like_key: "like a b \<Longrightarrow> obj_key a = obj_key b"
  by (simp add: like_def same_workload_def)

lemma kept_refl: "(\<And>a. x = Some a \<Longrightarrow> is_workload a) \<Longrightarrow> kept x x"
  by (auto simp: kept_def like_refl split: option.splits)

lemma kept_trans: "kept x y \<Longrightarrow> kept y z \<Longrightarrow> kept x z"
  by (auto simp: kept_def split: option.splits intro: like_trans)

lemma intact_trans: "intact S T u v \<Longrightarrow> intact S T v w \<Longrightarrow> intact S T u w"
  by (auto simp: intact_def intro: kept_trans)

text \<open>The two annotation edits of the controller.\<close>

lemma snapshot_like:
  assumes "is_workload ob" "remembered ob = Some n"
    and "a = (case om_annotations (obj_meta ob) of None \<Rightarrow> fmempty | Some a \<Rightarrow> a)"
  shows "like (set_annotations (Some (fmupd originalReplicasAnnotationKey (Itoa (sint n)) a)) ob) ob"
proof -
  have "same_workload (set_annotations (Some (fmupd originalReplicasAnnotationKey (Itoa (sint n)) a)) ob) ob"
    by (rule same_workload_set) (use assms in \<open>auto simp: annotation_def split: option.splits\<close>)
  with assms(2) show ?thesis by (simp add: like_def remembered_def)
qed

lemma restore_like:
  assumes "is_workload ob" "om_annotations (obj_meta ob) = Some a"
    and "fmlookup a originalReplicasAnnotationKey = Some val" "Atoi val = Some i"
    and "setReplicas ob (word_of_int i) = Inr ob'"
  shows "like (set_annotations (Some (fmdrop originalReplicasAnnotationKey a)) ob') ob"
proof -
  have "same_workload (set_annotations (Some (fmdrop originalReplicasAnnotationKey a)) ob') ob'"
    by (rule same_workload_set)
      (use assms in \<open>auto simp: annotation_def setReplicas_simps [OF assms(5)]\<close>)
  then show ?thesis
    using assms setReplicas_simps [OF assms(5)]
    by (auto simp: like_def remembered_def annotation_def intro: same_workload_trans)
qed

lemma setReplicas_like:
  assumes "setReplicas ob n = Inr ob'"
    and "annotation ob originalReplicasAnnotationKey = None \<Longrightarrow> remembered ob = Some n"
  shows "like ob' ob"
  using assms setReplicas_simps [OF assms(1)]
  by (auto simp: like_def remembered_def split: option.splits)

section \<open>Every handler keeps the target\<close>

context kube_api
begin

lemma kept_view: "V w T = Some t \<Longrightarrow> is_workload t \<Longrightarrow> kept (V w T) (V w T)"
  by (rule kept_refl) simp

lemma intact_refl: "V w T = Some t \<Longrightarrow> is_workload t \<Longrightarrow> intact S T (V w) (V w)"
  by (unfold intact_def) (blast intro: kept_view)

text \<open>A write of a workload like the stored one, and any write of the order.\<close>

lemma update_like:
  assumes "applied_update (V w) ob ob' v'" "V w (obj_key ob) = Some t" "like ob t"
  shows "intact S (obj_key ob) (V w) v'" "like ob' t" "obj_key ob' = obj_key ob"
    "v' (obj_key ob) = None \<or> v' (obj_key ob) = Some ob'"
proof -
  from assms(1,2) obtain rv where ob': "ob' = with_rv rv (write_over t ob)"
    and v': "v' = (V w)(obj_key ob := (if released ob' then None else Some ob'))"
    by (auto simp: applied_update_def)
  have "is_workload ob" using assms(3) by (auto simp: like_def dest: same_workload_is)
  then have "like ob' ob" by (simp add: like_def ob' same_workload_write)
  then show l: "like ob' t" using assms(3) by (rule like_trans)
  show "obj_key ob' = obj_key ob" by (simp add: ob')
  show "v' (obj_key ob) = None \<or> v' (obj_key ob) = Some ob'" by (simp add: v')
  have "om_deletion (obj_meta ob') = om_deletion (obj_meta t)" by (simp add: ob')
  then show "intact S (obj_key ob) (V w) v'"
    using l assms(2) by (auto simp: intact_def kept_def v' released_def intro: like_sym)
qed

lemma intact_other:
  assumes "\<And>k. k \<noteq> S \<Longrightarrow> v' k = V w k" "S \<noteq> T" "V w T = Some t" "is_workload t"
  shows "intact S T (V w) v'"
  using assms by (auto simp: intact_def intro: kept_refl)

lemma wp_updateStatus_frame:
  assumes "\<And>r w'. unchanged_but (order_key so) (V w) (V w') \<Longrightarrow> Q r w'"
  shows "wp (updateStatus E so st t r) Q w"
proof -
  have st: "wp (x_StatusUpdate E (SleepOrderObj (l\<lparr>ord_status := s\<rparr>)))
      (\<lambda>u. wp (case u of Inl e \<Rightarrow> ret (empty_result, Some e)
          | Inr _ \<Rightarrow> do { d \<leftarrow> Until E t; ret (requeue_after d, None) }) Q) w1"
    if "V w1 = V w" "order_key l = order_key so" for l s w1
  proof (rule wp_StatusUpdate_frame)
    fix u w2
    assume "unchanged_but (obj_key (SleepOrderObj (l\<lparr>ord_status := s\<rparr>))) (V w1) (V w2)"
    with that have u: "unchanged_but (order_key so) (V w) (V w2)" by (simp add: order_key_def)
    show "wp (case u of Inl e \<Rightarrow> ret (empty_result, Some e)
          | Inr _ \<Rightarrow> do { d \<leftarrow> Until E t; ret (requeue_after d, None) }) Q w2"
      by (cases u) (use u in \<open>auto intro!: wp_Until assms\<close>)
  qed
  show ?thesis
    unfolding updateStatus_def wp_bind
  proof (rule wp_getSleepOrder, goal_cases)
    case (1 g w1)
    show ?case
    proof (cases g)
      case (Inr l)
      with 1 have k: "order_key l = order_key so" by (simp add: order_key_def)
      show ?thesis
        using 1 k by (auto simp: Inr Let_def intro!: wp_Now' wp_Until st assms)
    qed (use 1 in \<open>simp add: assms\<close>)
  qed
qed

text \<open>
  The rules the handlers' proofs use: as long as the target is kept, reading it gives a workload
  like the original, and writing a workload like the original keeps it.
\<close>

lemma wp_target_update:
  assumes kept: "intact S (obj_key ob) v0 (V w)" and t0: "v0 (obj_key ob) = Some t0" "like ob t0"
    and fail: "\<And>e w'. intact S (obj_key ob) v0 (V w') \<Longrightarrow> Q (Inl e) w'"
    and ok: "\<And>ob' w'. intact S (obj_key ob) v0 (V w') \<Longrightarrow> like ob' t0 \<Longrightarrow> obj_key ob' = obj_key ob \<Longrightarrow>
      (\<And>k. annotation ob' k = annotation ob k) \<Longrightarrow> getReplicas ob' = getReplicas ob \<Longrightarrow> Q (Inr ob') w'"
  shows "wp (x_Update E ob) Q w"
proof (cases "V w (obj_key ob)")
  case None
  show ?thesis
  proof (rule wp_Update)
    fix r w'
    assume "write_result (V w) (obj_key ob) (applied_update (V w) ob) r (V w')"
    then have "V w' = V w \<and> (\<exists>e. r = Inl e)"
      using None by (auto simp: write_result_def applied_update_def split: sum.splits)
    with kept show "Q r w'" by (auto intro: fail)
  qed
next
  case (Some t)
  have "like t0 t" using kept t0(1) Some by (simp add: intact_def kept_def)
  with t0(2) have l: "like ob t" by (rule like_trans)
  show ?thesis
  proof (rule wp_Update)
    fix r w'
    assume wr: "write_result (V w) (obj_key ob) (applied_update (V w) ob) r (V w')"
    show "Q r w'"
    proof (cases r)
      case (Inl e)
      with wr have "V w' = V w \<or> (\<exists>ob'. applied_update (V w) ob ob' (V w'))"
        by (auto simp: write_result_def)
      then have "intact S (obj_key ob) v0 (V w')"
        by (elim disjE exE)
          (use kept in simp, rule intact_trans [OF kept], erule update_like(1) [OF _ Some l])
      then show ?thesis by (simp add: Inl fail)
    next
      case (Inr ob')
      with wr have a: "applied_update (V w) ob ob' (V w')" by (simp add: write_result_def)
      then obtain old rv where "ob' = with_rv rv (write_over old ob)" by (auto simp: applied_update_def)
      then have "annotation ob' k = annotation ob k" "getReplicas ob' = getReplicas ob" for k by simp_all
      then show ?thesis
        unfolding Inr
        by (intro ok intact_trans [OF kept update_like(1) [OF a Some l]]
            like_trans [OF update_like(2) [OF a Some l] like_sym [OF \<open>like t0 t\<close>]]
            update_like(3) [OF a Some l])
    qed
  qed
qed

lemma wp_target_refresh:
  assumes kept: "intact S (obj_key ob) v0 (V w)" and t0: "v0 (obj_key ob) = Some t0"
    and fail: "\<And>e w'. intact S (obj_key ob) v0 (V w') \<Longrightarrow> Q (Inl e) w'"
    and ok: "\<And>t w'. intact S (obj_key ob) v0 (V w') \<Longrightarrow> like t t0 \<Longrightarrow> obj_key t = obj_key ob \<Longrightarrow>
      V w (obj_key ob) = Some t \<Longrightarrow> Q (Inr t) w'"
  shows "wp (refresh E ob) Q w"
  unfolding refresh_def
proof (rule wp_Get)
  fix r w'
  assume v: "V w' = V w"
    and g: "get_result (V w (obj_kind ob, om_namespace (obj_meta ob), om_name (obj_meta ob))) r"
  show "Q r w'"
  proof (cases r)
    case (Inl e)
    then show ?thesis using v kept by (simp add: fail)
  next
    case (Inr t)
    with g have t: "V w (obj_key ob) = Some t" by (simp add: get_result_def obj_key_def)
    with kept t0 have "like t t0" by (auto simp: intact_def kept_def intro: like_sym)
    then show ?thesis
      unfolding Inr using v kept view_key [OF t] t by (intro ok) auto
  qed
qed

end

text \<open>Snapshot and restore.\<close>

context kube_api
begin

lemma wp_snapshotReplicas:
  assumes kept: "intact S (obj_key t) v0 (V w)" and t0: "v0 (obj_key t) = Some t0" "like t t0"
    and no_ann: "annotation t originalReplicasAnnotationKey = None"
    and fail: "\<And>e t' w'. intact S (obj_key t) v0 (V w') \<Longrightarrow> Q (Inl e, t') w'"
    and ok: "\<And>n t' w'. intact S (obj_key t) v0 (V w') \<Longrightarrow> like t' t0 \<Longrightarrow> obj_key t' = obj_key t \<Longrightarrow>
      annotation t' originalReplicasAnnotationKey = Some (Itoa (sint n)) \<Longrightarrow> getReplicas t = Inr n \<Longrightarrow>
      Q (Inr n, t') w'"
  shows "wp (snapshotReplicas E t) Q w"
proof -
  have "is_workload t" using t0(2) by (auto simp: like_def dest: same_workload_is)
  then obtain n where n: "getReplicas t = Inr n" by (auto simp: getReplicas_workload)
  have m: "remembered t = Some n" using n no_ann by (simp add: remembered_def)
  show ?thesis
    unfolding snapshotReplicas_def n sum.case wp_bind
  proof (rule wp_target_refresh [OF kept t0(1)], goal_cases)
    case (1 e w1)
    then show ?case by (simp add: fail)
  next
    case (2 t1 w1)
    define t2 where "t2 = set_annotations (Some (fmupd originalReplicasAnnotationKey (Itoa (sint n))
      (case om_annotations (obj_meta t1) of None \<Rightarrow> fmempty | Some a \<Rightarrow> a))) t1"
    have "like t2 t1"
      unfolding t2_def
      by (rule snapshot_like) (use 2 t0(2) m in \<open>auto simp: like_def dest: same_workload_is\<close>)
    with 2 have l2: "like t2 t0" by (blast intro: like_trans)
    have k2: "obj_key t2 = obj_key t" using 2 by (simp add: t2_def)
    have a2: "annotation t2 originalReplicasAnnotationKey = Some (Itoa (sint n))" by (simp add: t2_def)
    have "wp (x_Update E t2) (\<lambda>u. wp (case u of Inl e \<Rightarrow> ret (Inl e, t2) | Inr t3 \<Rightarrow> ret (Inr n, t3)) Q) w1"
      by (rule wp_target_update [of S _ v0 w1 t0]) (use 2 l2 k2 a2 t0 n in \<open>auto intro: fail ok\<close>)
    then show ?case by (simp add: t2_def [symmetric] Let_def)
  qed
qed

lemma wp_restoreReplicas:
  assumes kept: "intact S (obj_key t) v0 (V w)" and t0: "v0 (obj_key t) = Some t0"
    and fail: "\<And>e t' w'. intact S (obj_key t) v0 (V w') \<Longrightarrow> Q (Inl e, t') w'"
    and none: "\<And>t' w'. intact S (obj_key t) v0 (V w') \<Longrightarrow> like t' t0 \<Longrightarrow> obj_key t' = obj_key t \<Longrightarrow>
      V w (obj_key t) = Some t' \<Longrightarrow> annotation t' originalReplicasAnnotationKey \<in> {None, Some ''''} \<Longrightarrow>
      Q (Inr 0, t') w'"
    and ok: "\<And>n t' w'. intact S (obj_key t) v0 (V w') \<Longrightarrow> like t' t0 \<Longrightarrow> obj_key t' = obj_key t \<Longrightarrow>
      annotation t' originalReplicasAnnotationKey = None \<Longrightarrow> getReplicas t' = Inr n \<Longrightarrow> Q (Inr n, t') w'"
  shows "wp (restoreReplicas E t) Q w"
  unfolding restoreReplicas_def wp_bind
proof (rule wp_target_refresh [OF kept t0], goal_cases)
  case (1 e w1)
  then show ?case by (simp add: fail)
next
  case (2 t1 w1)
  show ?case
  proof (cases "om_annotations (obj_meta t1)")
    case None
    then show ?thesis using 2 by (simp add: fail)
  next
    case (Some a)
    show ?thesis
    proof (cases "annotation t1 originalReplicasAnnotationKey \<in> {None, Some ''''}")
      case True
      then show ?thesis using 2 Some by (auto simp: annotation_def intro!: none)
    next
      case False
      then obtain val where val: "fmlookup a originalReplicasAnnotationKey = Some val" "val \<noteq> ''''"
        using Some by (auto simp: annotation_def)
      show ?thesis
      proof (cases "Atoi val")
        case None
        then show ?thesis using 2 Some val by (simp add: fail)
      next
        case at: (Some i)
        have w1: "is_workload t1" using 2 by (auto simp: like_def dest: same_workload_is)
        then obtain t2 where t2: "setReplicas t1 (word_of_int i) = Inr t2"
          using setReplicas_workload by blast
        define t3 where "t3 = set_annotations (Some (fmdrop originalReplicasAnnotationKey a)) t2"
        have "like t3 t1" unfolding t3_def by (rule restore_like [OF w1 Some val(1) at t2])
        with 2 have l3: "like t3 t0" by (blast intro: like_trans)
        have k3: "obj_key t3 = obj_key t" using 2 setReplicas_simps [OF t2] by (simp add: t3_def)
        have r3: "getReplicas t3 = Inr (word_of_int i)"
          using setReplicas_simps [OF t2] by (simp add: t3_def)
        have a3: "annotation t3 originalReplicasAnnotationKey = None" by (simp add: t3_def)
        have "wp (x_Update E t3)
          (\<lambda>u. wp (case u of Inl e \<Rightarrow> ret (Inl e, t3) | Inr t4 \<Rightarrow> ret (Inr (word_of_int i), t4)) Q) w1"
          by (rule wp_target_update [of S _ v0 w1 t0])
            (use 2 l3 k3 a3 r3 t0 in \<open>auto intro: fail ok\<close>)
        then show ?thesis using Some val at t2 by (simp add: t3_def [symmetric] Let_def)
      qed
    qed
  qed
qed

end

text \<open>The transitions, and Reconcile of an order that is not being deleted.\<close>

context kube_api
begin

lemma intact_order:
  assumes "intact S T v0 v" "unchanged_but S v v'" "S \<noteq> T"
  shows "intact S T v0 v'"
proof -
  have "\<And>k. k \<noteq> S \<Longrightarrow> v' k = v k" by (rule unchangedD [OF assms(2)])
  with assms(1,3) show ?thesis by (unfold intact_def, metis)
qed

lemma wp_handleSleep:
  assumes kept: "intact (order_key so) (obj_key t) v0 (V w)"
    and t0: "v0 (obj_key t) = Some t0" "like t t0" and ne: "order_key so \<noteq> obj_key t"
  shows "wp (handleSleep E so t ev) (\<lambda>r w'. intact (order_key so) (obj_key t) v0 (V w')) w"
proof -
  let ?I = "\<lambda>w'. intact (order_key so) (obj_key t) v0 (V w')"
  have scale: "wp (case setReplicas t1 0 of
        Inl e \<Rightarrow> ret (empty_result, Some e)
      | Inr t2 \<Rightarrow> do {
          u \<leftarrow> x_Update E t2;
          (case u of
             Inl e \<Rightarrow> ret (empty_result, Some e)
           | Inr _ \<Rightarrow> updateStatus E so sleepingState ev (Some n)) }) (\<lambda>r. ?I) w1"
    if "?I w1" "like t1 t0" "obj_key t1 = obj_key t"
      "annotation t1 originalReplicasAnnotationKey \<noteq> None" for t1 n w1
  proof (cases "setReplicas t1 0")
    case (Inr t2)
    have l: "like t2 t0"
      using setReplicas_like [OF Inr] that by (blast intro: like_trans)
    have k: "obj_key t2 = obj_key t" using setReplicas_simps [OF Inr] that by simp
    show ?thesis
      unfolding Inr sum.case wp_bind
      by (rule wp_target_update [of "order_key so" _ v0 w1 t0])
        (use that l k t0 ne in \<open>auto intro!: wp_updateStatus_frame intro: intact_order\<close>)
  qed (use that in simp)
  show ?thesis
  proof (cases "annotation t originalReplicasAnnotationKey")
    case (Some val)
    then show ?thesis
      using kept t0 by (cases "Atoi val") (auto simp: handleSleep_def intro!: scale)
  next
    case None
    show ?thesis
      unfolding handleSleep_def None option.case wp_bind
      by (rule wp_snapshotReplicas [OF kept t0 None]) (auto intro!: scale)
  qed
qed

lemma wp_handleWake:
  assumes t: "V w (obj_key t) = Some t" "getReplicas t = Inr current" and ne: "order_key so \<noteq> obj_key t"
  shows "wp (handleWake E so t current ev) (\<lambda>r w'. intact (order_key so) (obj_key t) (V w) (V w')) w"
proof (cases "current = 0")
  case True
  let ?I = "\<lambda>w'. intact (order_key so) (obj_key t) (V w) (V w')"
  have wl: "is_workload t" using t(2) by (auto simp: getReplicas_workload)
  have kept: "intact (order_key so) (obj_key t) (V w) (V w)" by (rule intact_refl [OF t(1) wl])
  have scale: "wp (case setReplicas t1 n of
        Inl e \<Rightarrow> ret (empty_result, Some e)
      | Inr t2 \<Rightarrow> do {
          u \<leftarrow> x_Update E t2;
          (case u of
             Inl e \<Rightarrow> ret (empty_result, Some e)
           | Inr _ \<Rightarrow> updateStatus E so awakeState ev (Some n)) }) (\<lambda>r. ?I) w1"
    if "?I w1" "like t1 t" "obj_key t1 = obj_key t" "getReplicas t1 = Inr n" for t1 n w1
  proof (cases "setReplicas t1 n")
    case (Inr t2)
    have l: "like t2 t"
      using setReplicas_like [OF Inr] that by (auto simp: remembered_def intro: like_trans)
    have k: "obj_key t2 = obj_key t" using setReplicas_simps [OF Inr] that by simp
    show ?thesis
      unfolding Inr sum.case wp_bind
      by (rule wp_target_update [of "order_key so" _ "V w" w1 t])
        (use that l k t ne in \<open>auto intro!: wp_updateStatus_frame intro: intact_order\<close>)
  qed (use that in simp)
  show ?thesis
    unfolding handleWake_def wp_bind if_P [OF True]
  proof (rule wp_restoreReplicas [OF kept t(1)], goal_cases)
    case (2 t' w')
    with t True show ?case by (simp only: prod.case sum.case option.inject) (rule scale, simp_all)
  next
    case (3 n t' w')
    then show ?case by (simp only: prod.case sum.case) (rule scale)
  qed simp
next
  case False
  have "is_workload t" using t(2) by (auto simp: getReplicas_workload)
  note refl = intact_refl [OF t(1) this]
  show ?thesis
    unfolding handleWake_def if_not_P [OF False]
    by (rule wp_updateStatus_frame) (rule intact_order [OF refl _ ne])
qed

end

section \<open>Reconcile of an order that is not being deleted\<close>

definition alive :: "okey \<Rightarrow> view \<Rightarrow> bool" where
  "alive S v \<longleftrightarrow> (\<forall>ob. v S = Some ob \<longrightarrow> om_deletion (obj_meta ob) = None)"

text \<open>The key of the target that an order of namespace \<open>ns\<close> names, if its kind is supported.\<close>

definition target_key :: "string \<Rightarrow> target_ref \<Rightarrow> okey option" where
  "target_key ns ref =
     (if tr_Kind ref = kindDeployment then Some (KDeployment, ns, tr_Name ref)
      else if tr_Kind ref = kindStatefulSet then Some (KStatefulSet, ns, tr_Name ref)
      else None)"

lemma target_key_kind: "target_key ns ref = Some T \<Longrightarrow> fst T = KDeployment \<or> fst T = KStatefulSet"
  by (auto simp: target_key_def split: if_splits)

lemma target_key_ne: "target_key ns ref = Some T \<Longrightarrow> (KSleepOrder, a, b) \<noteq> T"
  by (auto simp: target_key_def split: if_splits)

lemma alive_update:
  assumes "applied_update v ob ob' v'" "alive (obj_key ob) v"
  shows "alive (obj_key ob) v'"
  using assms by (auto simp: applied_update_def alive_def split: if_splits)

lemma alive_write:
  "write_result v (obj_key ob) (applied_update v ob) r v' \<Longrightarrow> alive (obj_key ob) v \<Longrightarrow>
   alive (obj_key ob) v'"
  by (auto simp: write_result_def split: sum.splits dest: alive_update)

context kube_api
begin

lemma wp_updateSleepOrder:
  assumes "\<And>r w'. unchanged_but (order_key so) (V w) (V w') \<Longrightarrow>
      (alive (order_key so) (V w) \<Longrightarrow> alive (order_key so) (V w')) \<Longrightarrow>
      (\<And>so'. r = Inr so' \<Longrightarrow> order_key so' = order_key so) \<Longrightarrow> Q r w'"
  shows "wp (updateSleepOrder E so) Q w"
proof -
  have okey: "obj_key (SleepOrderObj so) = order_key so" by (simp add: order_key_def)
  have *: "Q (as_SleepOrder r) w'"
    if wr: "write_result (V w) (obj_key (SleepOrderObj so)) (applied_update (V w) (SleepOrderObj so)) r (V w')"
    for r w'
  proof (rule assms)
    show "unchanged_but (order_key so) (V w) (V w')"
      using write_unchanged [OF wr applied_unchanged(1)] by (simp only: okey)
    show "alive (order_key so) (V w')" if "alive (order_key so) (V w)"
      using alive_write [OF wr] that by (simp only: okey)
    show "order_key so' = order_key so" if "as_SleepOrder r = Inr so'" for so'
    proof -
      from that have "r = Inr (SleepOrderObj so')"
        by (auto simp: as_SleepOrder_def split: sum.splits client_object.splits)
      with wr obtain old rv where "SleepOrderObj so' = with_rv rv (write_over old (SleepOrderObj so))"
        by (auto simp: write_result_def applied_update_def)
      then have "obj_key (SleepOrderObj so') = obj_key (SleepOrderObj so)" by simp
      then show ?thesis by (simp add: order_key_def)
    qed
  qed
  show ?thesis
    unfolding updateSleepOrder_def by (simp, rule wp_Update) (subst wp_return, rule *)
qed

end

context controllers
begin

text \<open>An attempt on a living order does not touch the target.\<close>

definition fin_inv :: "okey \<Rightarrow> client_object \<Rightarrow> view \<Rightarrow> fin_state \<Rightarrow> 'w \<Rightarrow> bool" where
  "fin_inv S t v0 s w \<longleftrightarrow>
     (case s of (so, t', stop) \<Rightarrow> order_key so = S \<and> t' = t) \<and> unchanged_but S v0 (V w) \<and> alive S (V w)"

lemma order_key_meta [simp]:
  "order_key (so\<lparr>ord_meta := x_AddFinalizer E (ord_meta so) f\<rparr>) = order_key so"
  "order_key (so\<lparr>ord_meta := x_RemoveFinalizer E (ord_meta so) f\<rparr>) = order_key so"
  by (simp_all add: order_key_def add_law remove_law)

lemma wp_finalizerAttempt_alive:
  assumes "fin_inv S t v0 s w"
  shows "wp (finalizerAttempt E c s) (\<lambda>r w'. fin_inv S t v0 (snd r) w') w"
proof -
  obtain so0 stop where s: "s = (so0, t, stop)" and so0: "order_key so0 = S"
    and v: "unchanged_but S v0 (V w)" "alive S (V w)"
    using assms by (cases s) (auto simp: fin_inv_def)
  have add: "wp (addFinalizerStep E (so, t, stop)) (\<lambda>r w'. fin_inv S t v0 (snd r) w') w1"
    if "order_key so = S" "unchanged_but S v0 (V w1)" "alive S (V w1)" for so w1
    unfolding addFinalizerStep_def prod.case Let_def
    using that
    by (auto simp: fin_inv_def split: sum.splits intro!: wp_updateSleepOrder
        intro: unchanged_trans)
  show ?thesis
    unfolding finalizerAttempt_def s prod.case wp_bind
  proof (rule wp_getSleepOrder, goal_cases)
    case (1 g w1)
    show ?case
    proof (cases g)
      case (Inl e)
      then show ?thesis using 1 so0 v by (simp add: fin_inv_def)
    next
      case (Inr so)
      have k: "order_key so = S" using 1 Inr so0 by (simp add: order_key_def)
      have "V w S = Some (SleepOrderObj so)" using 1 Inr so0 by (simp add: order_result_def order_key_def)
      then have "om_deletion (ord_meta so) = None" using v(2) by (simp add: alive_def)
      moreover have "wp (addFinalizerStep E (so, t, stop)) (\<lambda>r w'. fin_inv S t v0 (snd r) w') w1"
        using 1 v by (intro add [OF k]) simp_all
      ultimately show ?thesis by (simp add: Inr)
    qed
  qed
qed

lemma wp_handleFinalizer_alive:
  assumes "alive (order_key so) (V w)"
    and "\<And>r so' w'. order_key so' = order_key so \<Longrightarrow> unchanged_but (order_key so) (V w) (V w') \<Longrightarrow>
      Q (r, so', t) w'"
  shows "wp (handleFinalizer E so t c) Q w"
proof -
  have "wp (x_RetryOnConflict E (finalizerAttempt E c) (so, t, False))
      (\<lambda>r w'. fin_inv (order_key so) t (V w) (snd r) w') w"
    by (rule wp_retry [OF conflict_retry_axioms, where I = "fin_inv (order_key so) t (V w)"])
      (auto intro: wp_mono [OF wp_finalizerAttempt_alive] wp_finalizerAttempt_alive
        simp: fin_inv_def [of _ _ _ "(so, t, False)"] assms(1))
  then show ?thesis
    unfolding handleFinalizer_def wp_bind
    by (rule wp_mono) (auto simp: fin_inv_def intro: assms(2))
qed

lemma wp_reconcileTarget_alive:
  assumes t: "V w (obj_key t) = Some t" and wl: "is_workload t"
    and a: "alive (order_key so) (V w)" and ne: "order_key so \<noteq> obj_key t"
  shows "wp (reconcileTarget E so t) (\<lambda>r w'. intact (order_key so) (obj_key t) (V w) (V w')) w"
proof -
  obtain c where c: "getReplicas t = Inr c" using wl by (auto simp: getReplicas_workload)
  note refl = intact_refl [OF t wl, where S = "order_key so"]
  have step: "wp (if stop then ret (empty_result, err) else
        if sleep then handleSleep E so1 t ev else handleWake E so1 t c ev)
      (\<lambda>r w'. intact (order_key so) (obj_key t) (V w) (V w')) w2"
    if "order_key so1 = order_key so" "unchanged_but (order_key so) (V w) (V w2)" for stop err sleep so1 ev w2
  proof -
    have i: "intact (order_key so) (obj_key t) (V w) (V w2)" by (rule intact_order [OF refl that(2) ne])
    have t2: "V w2 (obj_key t) = Some t" using unchangedD [OF that(2)] ne t by simp
    have "wp (handleWake E so1 t c ev) (\<lambda>r w'. intact (order_key so) (obj_key t) (V w2) (V w')) w2"
      using wp_handleWake [OF t2 c, of so1 ev] that(1) ne by simp
    then have "wp (handleWake E so1 t c ev) (\<lambda>r w'. intact (order_key so) (obj_key t) (V w) (V w')) w2"
      by (rule wp_mono) (rule intact_trans [OF i])
    moreover have "wp (handleSleep E so1 t ev) (\<lambda>r w'. intact (order_key so) (obj_key t) (V w) (V w')) w2"
      using wp_handleSleep [of so1 t "V w" w2 t ev] i t like_refl [OF wl] that(1) ne by simp
    ultimately show ?thesis using i by simp
  qed
  show ?thesis
    unfolding reconcileTarget_def wp_bind
  proof (rule wp_Now', goal_cases)
    case (1 now w1)
    then have a1: "alive (order_key so) (V w1)" and r1: "intact (order_key so) (obj_key t) (V w) (V w1)"
      using a refl by simp_all
    show ?case
      by (simp add: Let_def c r1 split: sum.splits prod.splits)
        (use 1 a1 in \<open>auto intro!: wp_handleFinalizer_alive [OF a1] step\<close>)
  qed
qed

end

context controllers
begin

lemma wp_Reconcile_alive:
  assumes so: "V w (KSleepOrder, ns, n) = Some (SleepOrderObj so)" and a: "om_deletion (ord_meta so) = None"
    and T: "target_key ns (so_TargetRef (ord_spec so)) = Some T"
  shows "wp (Reconcile_SleepOrder E ns n) (\<lambda>r w'. intact (KSleepOrder, ns, n) T (V w) (V w')) w"
proof -
  let ?S = "(KSleepOrder, ns, n)"
  have k: "order_key so = ?S" using view_key [OF so] by (simp add: order_key_def)
  have ne: "?S \<noteq> T" using target_key_kind [OF T] by (cases T) auto
  have wl: "is_workload t" if "V w T = Some t" for t
    using view_key [OF that] target_key_kind [OF T] by (cases T) (auto simp: obj_key_def is_workload_def)
  have refl: "intact ?S T (V w) (V w)" unfolding intact_def by (simp add: kept_refl wl)
  have alive: "alive ?S (V w)" using so a by (simp add: alive_def)
  have missing: "wp (targetNotFound E so) (\<lambda>r w'. intact ?S T (V w) (V w')) w2" if "V w2 = V w" for w2
  proof -
    have "wp (targetNotFound E so) (\<lambda>r w'. unchanged_but ?S (V w) (V w')) w2"
      unfolding targetNotFound_def using that k
      by (auto simp: Let_def split: sum.splits
          intro!: wp_Now' wp_updateSleepOrder wp_updateStatus_frame) (blast intro: unchanged_trans)+
    then show ?thesis by (rule wp_mono) (rule intact_order [OF refl _ ne])
  qed
  have get: "wp (getTargetObject E ns (so_TargetRef (ord_spec so))) Q w1"
    if "\<And>r w2. V w2 = V w1 \<Longrightarrow> get_result (V w1 T) r \<Longrightarrow> Q r w2" for Q w1
    using T that by (auto simp: getTargetObject_def target_key_def split: if_splits intro!: wp_Get)
  have target: "wp (reconcileTarget E so t) (\<lambda>r w'. intact ?S T (V w) (V w')) w2"
    if "V w2 = V w" "V w T = Some t" for t w2
  proof -
    have "obj_key t = T" using that(2) by (rule view_key)
    then show ?thesis
      using wp_reconcileTarget_alive [of w2 t so] that wl alive k ne by simp
  qed
  show ?thesis
    unfolding Reconcile_SleepOrder_def FetchSleepOrderOrContinue_def wp_bind
  proof (rule wp_getSleepOrder, goal_cases)
    case (1 g w1)
    show ?case
    proof (cases g)
      case (Inr so')
      then have so': "so' = so" using 1 so by (simp add: order_result_def)
      show ?thesis
        unfolding Inr so' sum.case wp_return option.case wp_bind
        by (rule get)
          (auto simp: 1 refl get_result_def split: sum.splits intro!: missing target)
    qed (use 1 refl in auto)
  qed
qed

end

end
