(* ===== verification/Sleep_Order_Live.thy ===== *)
theory Sleep_Order_Live
  imports Sleep_Order_Safe
begin

text \<open>
  What the SleepOrder controller achieves in a healthy world: the exact effect of each handler on
  the order and on its target.
\<close>

section \<open>What is achieved\<close>

text \<open>
  The workload \<open>t\<close> has become \<open>t'\<close>, asleep or awake: nothing but the replica count and the annotation
  differs, and what is remembered is the same.
\<close>

definition settled :: "bool \<Rightarrow> client_object \<Rightarrow> client_object \<Rightarrow> bool" where
  "settled asleep t t' \<longleftrightarrow>
     like t' t \<and> om_deletion (obj_meta t') = om_deletion (obj_meta t) \<and>
     (if asleep then
        getReplicas t' = Inr 0 \<and> annotation t' originalReplicasAnnotationKey \<noteq> None
      else if getReplicas t = Inr 0 \<and> annotation t originalReplicasAnnotationKey \<noteq> None then
        annotation t' originalReplicasAnnotationKey = None
      else
        getReplicas t' = getReplicas t \<and>
        annotation t' originalReplicasAnnotationKey = annotation t originalReplicasAnnotationKey)"

lemma settled_awake:
  assumes "settled False t t'" "getReplicas t = Inr 0" "remembered t = Some n"
    and "annotation t originalReplicasAnnotationKey \<noteq> None"
  shows "getReplicas t' = Inr n \<and> annotation t' originalReplicasAnnotationKey = None"
proof -
  from assms have a: "annotation t' originalReplicasAnnotationKey = None" "remembered t' = Some n"
    by (auto simp: settled_def like_def)
  then show ?thesis by (auto simp: remembered_def [of t'] split: sum.splits)
qed

text \<open>The status that order \<open>so'\<close> shows, and nothing else of \<open>so\<close> changed.\<close>

definition reports :: "sleep_order \<Rightarrow> sleep_order \<Rightarrow> string \<Rightarrow> time \<Rightarrow> int32 option \<Rightarrow> bool" where
  "reports so so' st ev r \<longleftrightarrow>
     ord_spec so' = ord_spec so \<and> (\<exists>v. ord_meta so' = (ord_meta so)\<lparr>om_rv := v\<rparr>) \<and>
     ss_CurrentState (ord_status so') = st \<and> ss_OriginalReplicas (ord_status so') = r \<and>
     ss_NextOperationTime (ord_status so') \<in> {Some (t_ns ev), Some (trunc_sec (t_ns ev))} \<and>
     (ss_CurrentState (ord_status so) = st \<longrightarrow>
        map_option trunc_sec (ss_LastTransitionTime (ord_status so')) =
        map_option trunc_sec (ss_LastTransitionTime (ord_status so)))"

lemma trunc_sec_idem [simp]: "trunc_sec (trunc_sec t) = trunc_sec t"
  by (simp add: trunc_sec_def)

lemma equal_ptrs [simp]:
  "equalTimePtr a b \<longleftrightarrow> a = b"
  "equalInt32Ptr i j \<longleftrightarrow> i = j"
  by (cases a; cases b; simp add: equalTimePtr_def) (cases i; cases j; simp add: equalInt32Ptr_def)

lemma not_released: "om_deletion (obj_meta ob) = None \<Longrightarrow> \<not> released ob"
  by (simp add: released_def)

lemma set_replicas_id: "getReplicas t = Inr n \<Longrightarrow> setReplicas t n = Inr t' \<Longrightarrow> like t' t"
  by (rule setReplicas_like) (auto simp: remembered_def)

text \<open>What the schedule of an order says at instant \<open>x\<close>.\<close>

definition order_state :: "'w env \<Rightarrow> sleep_order \<Rightarrow> int \<Rightarrow> go_error + (bool \<times> time \<times> string)" where
  "order_state E so x = GetTimeState (x_tz E) \<lparr>t_ns = x, t_loc = tz_local (x_tz E)\<rparr>
     (so_WakeAt (ord_spec so)) (so_SleepAt (ord_spec so)) (so_Timezone (ord_spec so))
     (so_WorkingDays (ord_spec so))"

section \<open>The handlers\<close>

text \<open>The time left to \<open>ev\<close> at some moment between \<open>lo\<close> and \<open>hi\<close>.\<close>

definition due :: "time \<Rightarrow> int \<Rightarrow> int \<Rightarrow> int \<Rightarrow> bool" where
  "due ev lo hi d \<longleftrightarrow> (\<exists>x. lo \<le> x \<and> x \<le> hi \<and> d = max min_int64 (min max_int64 (t_ns ev - x)))"

lemma dueI: "lo \<le> x \<Longrightarrow> x \<le> hi \<Longrightarrow> due ev lo hi (max min_int64 (min max_int64 (t_ns ev - x)))"
  unfolding due_def by blast

lemma due_earlier: "due ev lo hi d \<Longrightarrow> lo' \<le> lo \<Longrightarrow> due ev lo' hi d"
  by (auto simp: due_def [of _ lo] intro: dueI)

context healthy_controllers
begin

lemma due_later: "later w w1 \<Longrightarrow> due ev (C w1) hi d \<Longrightarrow> due ev (C w) hi d"
  by (erule due_earlier) (simp add: later_def)

lemma wp_updateStatus_ok:
  assumes h: "H w" and cur: "V w (order_key so) = Some (SleepOrderObj cur)"
    and Q: "\<And>d w' cur'. later w w' \<Longrightarrow> V w' = (V w)(order_key so \<mapsto> SleepOrderObj cur') \<Longrightarrow>
      reports cur cur' st ev r \<Longrightarrow> due ev (C w) (C w') d \<Longrightarrow> Q (requeue_after d, None) w'"
  shows "wp (updateStatus E so st ev r) Q w"
proof -
  have key: "obj_key (SleepOrderObj cur) = order_key so" by (rule view_key [OF cur])
  have until: "wp (do { d \<leftarrow> Until E ev; ret (requeue_after d, None) }) Q w1"
    if "later w w1" "V w1 = (V w)(order_key so \<mapsto> SleepOrderObj cur')" "reports cur cur' st ev r" for w1 cur'
    unfolding wp_bind
    by (rule wp_Until_ok) (use that in \<open>auto simp: later_def Sub_def intro!: Q dueI\<close>)
  have put_st: "wp (x_StatusUpdate E (SleepOrderObj (cur\<lparr>ord_status := s\<rparr>)))
      (\<lambda>u. wp (case u of Inl e \<Rightarrow> ret (empty_result, Some e)
          | Inr _ \<Rightarrow> do { d \<leftarrow> Until E ev; ret (requeue_after d, None) }) Q) w1"
    if w1: "later w w1" "V w1 = V w"
      and s: "ss_CurrentState s = st" "ss_NextOperationTime s = Some (t_ns ev)" "ss_OriginalReplicas s = r"
        "ss_CurrentState (ord_status cur) = st \<Longrightarrow> ss_LastTransitionTime s = ss_LastTransitionTime (ord_status cur)"
    for s w1
  proof (rule wp_StatusUpdate_ok [where old = "SleepOrderObj cur"], goal_cases)
    case (4 rv ob' w2)
    define cur' where "cur' = cur\<lparr>ord_meta := (ord_meta cur)\<lparr>om_rv := rv\<rparr>, ord_status := trunc_status s\<rparr>"
    have "ob' = SleepOrderObj cur'" using 4 by (simp add: with_rv_def cur'_def)
    then have "V w2 = (V w)(order_key so \<mapsto> SleepOrderObj cur')" using 4(4) w1(2) key by simp
    moreover have "reports cur cur' st ev r"
      using s by (auto simp: reports_def cur'_def trunc_status_def option.map_comp comp_def)
    moreover have "later w w2" using 4 w1 by (simp add: later_def)
    ultimately show ?case by (simp only: sum.case until)
  qed (use w1 key cur in \<open>simp_all add: later_def\<close>)
  show ?thesis
    unfolding updateStatus_def wp_bind
  proof (rule wp_getSleepOrder_ok [OF h cur [unfolded order_key_def]], goal_cases)
    case (1 w1)
    then have w1: "later w w1" by (simp add: later_def)
    have same: "V w = (V w)(order_key so \<mapsto> SleepOrderObj cur)" using cur by (simp add: fun_upd_idem)
    show ?case
    proof (cases "ss_CurrentState (ord_status cur) = st")
      case True
      have rep: "reports cur cur st ev r"
        if "ss_NextOperationTime (ord_status cur) = Some (t_ns ev)" "ss_OriginalReplicas (ord_status cur) = r"
        using that True by (auto simp: reports_def intro!: exI [of _ "om_rv (ord_meta cur)"])
      show ?thesis
        using 1 w1 True same rep until [of w1 cur] put_st [of w1 "(ord_status cur)\<lparr>ss_CurrentState := st,
          ss_NextOperationTime := Some (t_ns ev), ss_OriginalReplicas := r\<rparr>"]
        by (auto simp: Let_def)
    next
      case False
      have "wp (Now E) (\<lambda>now. wp (do {
          u \<leftarrow> x_StatusUpdate E (SleepOrderObj (cur\<lparr>ord_status := (ord_status cur)
            \<lparr>ss_CurrentState := st, ss_NextOperationTime := Some (t_ns ev), ss_OriginalReplicas := r,
             ss_LastTransitionTime := Some (t_ns now)\<rparr>\<rparr>));
          (case u of Inl e \<Rightarrow> ret (empty_result, Some e)
            | Inr _ \<Rightarrow> do { d \<leftarrow> Until E ev; ret (requeue_after d, None) }) }) Q) w1"
        by (rule wp_Now_ok) (use 1 w1 False in \<open>simp_all add: later_def put_st\<close>)
      then show ?thesis using False by (simp add: Let_def)
    qed
  qed
qed

end

text \<open>Writes of the target.\<close>

definition same_state :: "client_object \<Rightarrow> client_object \<Rightarrow> bool" where
  "same_state a b \<longleftrightarrow> like a b \<and> getReplicas a = getReplicas b \<and>
     annotation a originalReplicasAnnotationKey = annotation b originalReplicasAnnotationKey"

text \<open>The stored, living target.\<close>

definition stored :: "view \<Rightarrow> client_object \<Rightarrow> bool" where
  "stored v t \<longleftrightarrow> v (obj_key t) = Some t \<and> is_workload t \<and> om_deletion (obj_meta t) = None"

lemma same_state_write: "is_workload ob \<Longrightarrow> same_state (with_rv rv (write_over old ob)) ob"
  by (simp add: same_state_def like_def same_workload_write)

context healthy_controllers
begin

lemma wp_target_write_ok:
  assumes h: "H w" and t: "stored (V w) t"
    and ob: "obj_key ob = obj_key t" "om_rv (obj_meta ob) = om_rv (obj_meta t)" "is_workload ob"
    and Q: "\<And>ob' w'. later w w' \<Longrightarrow> V w' = (V w)(obj_key t \<mapsto> ob') \<Longrightarrow> stored (V w') ob' \<Longrightarrow>
      same_state ob' ob \<Longrightarrow> obj_key ob' = obj_key t \<Longrightarrow> Q (Inr ob') w'"
  shows "wp (x_Update E ob) Q w"
proof (rule wp_Update_ok [OF h, of ob t], goal_cases)
  case (3 rv ob' w')
  from 3(3) ob(3) have s: "same_state ob' ob" by (simp add: same_state_write)
  then have l: "same_workload ob' ob" by (simp add: same_state_def like_def)
  have k: "obj_key ob' = obj_key t" using 3(3) ob by simp
  have d: "om_deletion (obj_meta ob') = None" using t 3(3) by (simp add: stored_def)
  then have v: "V w' = (V w)(obj_key t \<mapsto> ob')" using 3(4) ob(1) by (simp only: not_released [OF d] if_False)
  show ?case
    by (rule Q) (use 3(1,2) v s l k d in \<open>auto simp: later_def stored_def dest: same_workload_is\<close>)
qed (use t ob in \<open>simp_all add: stored_def\<close>)

lemma wp_refresh_ok:
  assumes "H w" "stored (V w) t" "\<And>w'. later w w' \<Longrightarrow> V w' = V w \<Longrightarrow> Q (Inr t) w'"
  shows "wp (refresh E t) Q w"
  unfolding refresh_def
  by (rule wp_Get_ok) (use assms in \<open>auto simp: stored_def obj_key_def later_def\<close>)

lemma wp_snapshot_ok:
  assumes h: "H w" and t: "stored (V w) t"
    and n: "annotation t originalReplicasAnnotationKey = None" "getReplicas t = Inr n"
    and Q: "\<And>t' w'. later w w' \<Longrightarrow> V w' = (V w)(obj_key t \<mapsto> t') \<Longrightarrow> stored (V w') t' \<Longrightarrow> like t' t \<Longrightarrow>
      annotation t' originalReplicasAnnotationKey = Some (Itoa (sint n)) \<Longrightarrow> obj_key t' = obj_key t \<Longrightarrow>
      Q (Inr n, t') w'"
  shows "wp (snapshotReplicas E t) Q w"
  unfolding snapshotReplicas_def n(2) sum.case wp_bind
proof (rule wp_refresh_ok [OF h t], goal_cases)
  case (1 w1)
  define t2 where "t2 = set_annotations (Some (fmupd originalReplicasAnnotationKey (Itoa (sint n))
      (case om_annotations (obj_meta t) of None \<Rightarrow> fmempty | Some a \<Rightarrow> a))) t"
  have wl: "is_workload t" using t by (simp add: stored_def)
  have m: "remembered t = Some n" using n by (simp add: remembered_def)
  have l2: "like t2 t" unfolding t2_def by (rule snapshot_like [OF wl m refl])
  have 2: "obj_key t2 = obj_key t" "om_rv (obj_meta t2) = om_rv (obj_meta t)"
    "annotation t2 originalReplicasAnnotationKey = Some (Itoa (sint n))"
    by (simp_all add: t2_def)
  have wl2: "is_workload t2" using l2 by (auto simp: like_def dest: same_workload_is)
  have h1: "H w1" using 1 by (simp add: later_def)
  have t1: "stored (V w1) t" using 1 t by simp
  have "wp (x_Update E t2) (\<lambda>u. wp (case u of Inl e \<Rightarrow> ret (Inl e, t2) | Inr t3 \<Rightarrow> ret (Inr n, t3)) Q) w1"
    by (rule wp_target_write_ok [OF h1 t1 2(1,2) wl2])
      (use 1 2 l2 in \<open>auto intro!: Q simp: same_state_def intro: later_trans like_trans\<close>)
  then show ?case by (simp add: t2_def [symmetric] Let_def)
qed

lemma wp_restore_ok:
  assumes h: "H w" and t: "stored (V w) t"
    and val: "annotation t originalReplicasAnnotationKey = Some val" "Atoi val = Some i"
    and Q: "\<And>t' w'. later w w' \<Longrightarrow> V w' = (V w)(obj_key t \<mapsto> t') \<Longrightarrow> stored (V w') t' \<Longrightarrow> like t' t \<Longrightarrow>
      annotation t' originalReplicasAnnotationKey = None \<Longrightarrow> getReplicas t' = Inr (word_of_int i) \<Longrightarrow>
      obj_key t' = obj_key t \<Longrightarrow> Q (Inr (word_of_int i), t') w'"
  shows "wp (restoreReplicas E t) Q w"
  unfolding restoreReplicas_def wp_bind
proof (rule wp_refresh_ok [OF h t], goal_cases)
  case (1 w1)
  obtain a where a: "om_annotations (obj_meta t) = Some a" "fmlookup a originalReplicasAnnotationKey = Some val"
    using val(1) by (auto simp: annotation_def split: bind_splits)
  have ne: "val \<noteq> ''''" using val(2) by auto
  have wl: "is_workload t" using t by (simp add: stored_def)
  then obtain t2 where t2: "setReplicas t (word_of_int i) = Inr t2" using setReplicas_workload by blast
  define t3 where "t3 = set_annotations (Some (fmdrop originalReplicasAnnotationKey a)) t2"
  have l3: "like t3 t" unfolding t3_def by (rule restore_like [OF wl a val(2) t2])
  have 3: "obj_key t3 = obj_key t" "om_rv (obj_meta t3) = om_rv (obj_meta t)"
    "annotation t3 originalReplicasAnnotationKey = None" "getReplicas t3 = Inr (word_of_int i)"
    using setReplicas_simps [OF t2] by (simp_all add: t3_def)
  have wl3: "is_workload t3" using l3 by (auto simp: like_def dest: same_workload_is)
  have h1: "H w1" using 1 by (simp add: later_def)
  have t1: "stored (V w1) t" using 1 t by simp
  have "wp (x_Update E t3)
      (\<lambda>u. wp (case u of Inl e \<Rightarrow> ret (Inl e, t3) | Inr t4 \<Rightarrow> ret (Inr (word_of_int i), t4)) Q) w1"
    by (rule wp_target_write_ok [OF h1 t1 3(1,2) wl3])
      (use 1 3 l3 in \<open>auto intro!: Q simp: same_state_def intro: later_trans like_trans\<close>)
  then show ?case using a val ne t2 by (simp add: t3_def [symmetric] Let_def)
qed

end

text \<open>The transitions.\<close>

context healthy_controllers
begin

text \<open>Set the replica count and report.\<close>

lemma wp_scale_ok:
  assumes h: "H w" and t: "stored (V w) t" and cur: "V w (order_key so) = Some (SleepOrderObj cur)"
    and ne: "order_key so \<noteq> obj_key t"
    and Q: "\<And>d w' t' cur'. later w w' \<Longrightarrow>
      V w' = (V w)(obj_key t \<mapsto> t', order_key so \<mapsto> SleepOrderObj cur') \<Longrightarrow> same_workload t' t \<Longrightarrow>
      getReplicas t' = Inr n \<Longrightarrow>
      annotation t' originalReplicasAnnotationKey = annotation t originalReplicasAnnotationKey \<Longrightarrow>
      om_deletion (obj_meta t') = None \<Longrightarrow> reports cur cur' st ev r \<Longrightarrow> due ev (C w) (C w') d \<Longrightarrow>
      Q (requeue_after d, None) w'"
  shows "wp (case setReplicas t n of
        Inl e \<Rightarrow> ret (empty_result, Some e)
      | Inr t2 \<Rightarrow> do {
          u \<leftarrow> x_Update E t2;
          (case u of
             Inl e \<Rightarrow> ret (empty_result, Some e)
           | Inr _ \<Rightarrow> updateStatus E so st ev r) }) Q w"
proof -
  obtain t2 where t2: "setReplicas t n = Inr t2"
    using t setReplicas_workload by (auto simp: stored_def)
  note 2 = setReplicas_simps [OF t2]
  show ?thesis
    unfolding t2 sum.case wp_bind
  proof (rule wp_target_write_ok [OF h t], goal_cases)
    case (4 t3 w1)
    have "V w1 (order_key so) = Some (SleepOrderObj cur)" using 4 cur ne by simp
    moreover have "same_workload t3 t"
      using 4(4) 2(6) by (auto simp: same_state_def like_def intro: same_workload_trans)
    ultimately show ?case
      unfolding sum.case
      by (intro wp_updateStatus_ok)
        (use 4 2 in \<open>auto intro!: Q intro: later_trans due_earlier simp: later_def same_state_def stored_def\<close>)
  qed (use 2 in simp_all)
qed

lemma wp_handleSleep_ok:
  assumes h: "H w" and t: "stored (V w) t" and cur: "V w (order_key so) = Some (SleepOrderObj cur)"
    and ne: "order_key so \<noteq> obj_key t" and n: "remembered t = Some n"
    and Q: "\<And>d w' t' cur'. later w w' \<Longrightarrow>
      V w' = (V w)(obj_key t \<mapsto> t', order_key so \<mapsto> SleepOrderObj cur') \<Longrightarrow> settled True t t' \<Longrightarrow>
      reports cur cur' sleepingState ev (Some n) \<Longrightarrow> due ev (C w) (C w') d \<Longrightarrow> Q (requeue_after d, None) w'"
  shows "wp (handleSleep E so t ev) Q w"
proof (cases "annotation t originalReplicasAnnotationKey")
  case (Some val)
  then obtain i where i: "Atoi val = Some i" "n = word_of_int i" using n by (auto simp: remembered_def)
  show ?thesis
    unfolding handleSleep_def Some option.case i wp_bind wp_return prod.case sum.case
    by (rule wp_scale_ok [OF h t cur ne])
      (use Some i n t in \<open>auto intro!: Q simp: settled_def like_def remembered_def stored_def\<close>)
next
  case None
  have wl: "is_workload t" using t by (simp add: stored_def)
  have rep: "getReplicas t = Inr n" using n None by (auto simp: remembered_def split: sum.splits)
  show ?thesis
    unfolding handleSleep_def None option.case wp_bind
  proof (rule wp_snapshot_ok [OF h t None rep], goal_cases)
    case (1 t1 w1)
    have "H w1" "V w1 (order_key so) = Some (SleepOrderObj cur)" "order_key so \<noteq> obj_key t1"
      using 1 cur ne by (simp_all add: later_def)
    with 1 show ?case
      unfolding prod.case sum.case
      by (intro wp_scale_ok [where t = t1 and cur = cur])
        (auto intro!: Q intro: later_trans due_later same_workload_trans
          simp: settled_def like_def remembered_def rep None t [unfolded stored_def])
  qed
qed

lemma wp_handleWake_ok:
  assumes h: "H w" and t: "stored (V w) t" and cur: "V w (order_key so) = Some (SleepOrderObj cur)"
    and ne: "order_key so \<noteq> obj_key t" and c: "getReplicas t = Inr c"
    and n: "remembered t = Some n" and ann: "c = 0 \<Longrightarrow> annotation t originalReplicasAnnotationKey \<noteq> None"
    and Q: "\<And>d w' t' cur' r. later w w' \<Longrightarrow>
      V w' = (V w)(obj_key t \<mapsto> t', order_key so \<mapsto> SleepOrderObj cur') \<Longrightarrow> settled False t t' \<Longrightarrow>
      getReplicas t' = Inr r \<Longrightarrow> reports cur cur' awakeState ev (Some r) \<Longrightarrow> due ev (C w) (C w') d \<Longrightarrow>
      Q (requeue_after d, None) w'"
  shows "wp (handleWake E so t c ev) Q w"
proof (cases "c = 0")
  case True
  then obtain val i where val: "annotation t originalReplicasAnnotationKey = Some val" "Atoi val = Some i"
    "n = word_of_int i" using n ann by (auto simp: remembered_def)
  show ?thesis
    unfolding handleWake_def if_P [OF True] wp_bind
  proof (rule wp_restore_ok [OF h t val(1,2)], goal_cases)
    case (1 t1 w1)
    have "H w1" "V w1 (order_key so) = Some (SleepOrderObj cur)" "order_key so \<noteq> obj_key t1"
      using 1 cur ne by (simp_all add: later_def)
    with 1 show ?case
      unfolding prod.case sum.case
      by (intro wp_scale_ok [where t = t1 and cur = cur])
        (auto intro!: Q intro: later_trans due_later same_workload_trans
          simp: settled_def like_def remembered_def val c True t [unfolded stored_def])
  qed
next
  case False
  have "V w = (V w)(obj_key t \<mapsto> t)" using t by (simp add: stored_def fun_upd_idem)
  moreover have "settled False t t"
    using t by (auto simp: settled_def stored_def c False like_refl)
  ultimately show ?thesis
    unfolding handleWake_def if_not_P [OF False]
    by (intro wp_updateStatus_ok [OF h cur]) (auto intro!: Q c)
qed

end

section \<open>Reconcile of a living order\<close>

text \<open>The order is enrolled: it carries the finalizer, and is otherwise the same.\<close>

definition enrolled :: "sleep_order \<Rightarrow> sleep_order \<Rightarrow> bool" where
  "enrolled so so' \<longleftrightarrow>
     order_key so' = order_key so \<and> ord_spec so' = ord_spec so \<and> ord_status so' = ord_status so \<and>
     om_deletion (ord_meta so') = om_deletion (ord_meta so) \<and>
     set (om_finalizers (ord_meta so')) = insert sleepOrderFinalizer (set (om_finalizers (ord_meta so)))"

lemma enrolled_update:
  assumes "SleepOrderObj so' = with_rv rv (write_over (SleepOrderObj so) (SleepOrderObj
    (so\<lparr>ord_meta := (ord_meta so)\<lparr>om_finalizers := om_finalizers (ord_meta so) @ [sleepOrderFinalizer]\<rparr>\<rparr>)))"
  shows "enrolled so so'"
  using assms by (auto simp: enrolled_def with_rv_def write_over_def norm_meta_def order_key_def)

context healthy_controllers
begin

lemma wp_handleFinalizer_ok:
  assumes h: "H w" and cur: "V w (order_key so) = Some (SleepOrderObj cur)"
    and a: "om_deletion (ord_meta cur) = None"
    and Q: "\<And>so1 w' cur'. later w w' \<Longrightarrow> V w' = (V w)(order_key so \<mapsto> SleepOrderObj cur') \<Longrightarrow>
      enrolled cur cur' \<Longrightarrow> order_key so1 = order_key so \<Longrightarrow> Q ((False, None), so1, t) w'"
  shows "wp (handleFinalizer E so t c) Q w"
proof -
  have key: "order_key cur = order_key so" using view_key [OF cur] by (simp add: order_key_def)
  let ?R = "\<lambda>r w'. fst r = None \<and> (\<exists>so1 cur'. snd r = (so1, t, False) \<and> order_key so1 = order_key so \<and>
      later w w' \<and> V w' = (V w)(order_key so \<mapsto> SleepOrderObj cur') \<and> enrolled cur cur')"
  have add: "wp (addFinalizerStep E (cur, t, False)) ?R w1" if w1: "later w w1" "V w1 = V w" for w1
  proof (cases "x_ContainsFinalizer E (ord_meta cur) sleepOrderFinalizer")
    case True
    then have "enrolled cur cur" by (auto simp: enrolled_def contains_law)
    moreover have "V w1 = (V w)(order_key so \<mapsto> SleepOrderObj cur)" using w1 cur by (simp add: fun_upd_idem)
    ultimately show ?thesis using True w1 key by (auto simp: addFinalizerStep_def)
  next
    case False
    let ?so1 = "cur\<lparr>ord_meta := x_AddFinalizer E (ord_meta cur) sleepOrderFinalizer\<rparr>"
    have m: "x_AddFinalizer E (ord_meta cur) sleepOrderFinalizer =
        (ord_meta cur)\<lparr>om_finalizers := om_finalizers (ord_meta cur) @ [sleepOrderFinalizer]\<rparr>"
      using False by (simp add: add_law contains_law)
    have k1: "obj_key (SleepOrderObj ?so1) = order_key so" using key by (simp add: m order_key_def)
    have "wp (updateSleepOrder E ?so1)
      (\<lambda>u. wp (case u of Inl e \<Rightarrow> ret (IgnoreNotFound e, (?so1, t, False))
          | Inr so2 \<Rightarrow> ret (None, (so2, t, False))) ?R) w1"
      unfolding updateSleepOrder_def wp_bind
    proof (rule wp_Update_ok [where old = "SleepOrderObj cur"], goal_cases)
      case (4 rv ob' w2)
      have "\<exists>cur'. ob' = SleepOrderObj cur'"
        using 4(3) by (simp add: with_rv_def write_over_def)
      then obtain cur' where cur': "ob' = SleepOrderObj cur'" by blast
      have e: "enrolled cur cur'"
        by (rule enrolled_update [of _ rv]) (use 4(3) m cur' in simp)
      then have "V w2 = (V w1)(order_key so \<mapsto> SleepOrderObj cur')"
        using 4(4) a cur' by (simp add: k1 [simplified] not_released enrolled_def)
      then show ?case
        using 4(1,2) w1 e key by (auto simp: cur' as_SleepOrder_def later_def enrolled_def)
    qed (use w1 cur k1 m in \<open>simp_all add: later_def\<close>)
    then show ?thesis using False by (simp add: addFinalizerStep_def Let_def)
  qed
  have attempt: "wp (finalizerAttempt E c (so, t, False)) ?R w"
    unfolding finalizerAttempt_def prod.case wp_bind
  proof (rule wp_getSleepOrder_ok [OF h cur [unfolded order_key_def]], goal_cases)
    case (1 w1)
    then show ?case unfolding sum.case if_P [OF a] by (intro add) (simp_all add: later_def)
  qed
  have "wp (x_RetryOnConflict E (finalizerAttempt E c) (so, t, False)) ?R w"
    by (rule wp_retry_first [OF conflict_retry_axioms], rule wp_mono [OF attempt]) auto
  then show ?thesis
    unfolding handleFinalizer_def wp_bind
    by (rule wp_mono) (auto intro!: Q)
qed

end

context healthy_controllers
begin

text \<open>Fetching the order and its target leads to \<open>reconcileTarget\<close>.\<close>

lemma wp_Reconcile_target:
  assumes h: "H w" and so: "V w (KSleepOrder, ns, n) = Some (SleepOrderObj so)"
    and T: "target_key ns (so_TargetRef (ord_spec so)) = Some (obj_key t)" and t: "V w (obj_key t) = Some t"
    and Q: "\<And>w'. later w w' \<Longrightarrow> V w' = V w \<Longrightarrow> wp (reconcileTarget E so t) Q w'"
  shows "wp (Reconcile_SleepOrder E ns n) Q w"
  unfolding Reconcile_SleepOrder_def FetchSleepOrderOrContinue_def wp_bind
proof (rule wp_getSleepOrder_ok [OF h so], goal_cases)
  case (1 w1)
  have "wp (getTargetObject E ns (so_TargetRef (ord_spec so))) (\<lambda>g. wp (case g of
            Inl e \<Rightarrow> if IsNotFound e then targetNotFound E so else ret (empty_result, Some e)
          | Inr target \<Rightarrow> reconcileTarget E so target) Q) w1"
    using 1 T t unfolding getTargetObject_def target_key_def
    by (auto split: if_splits intro!: wp_Get_ok Q simp: later_def)
  then show ?case by simp
qed

text \<open>
  \<open>now\<close> is the clock reading of the run.  With an error of the schedule nothing is written; otherwise
  the target settles in the state the schedule gives, and the order reports it.
\<close>

lemma wp_reconcileTarget_ok:
  assumes h: "H w" and t: "stored (V w) t" and cur: "V w (order_key so) = Some (SleepOrderObj so)"
    and a: "om_deletion (ord_meta so) = None" and ne: "order_key so \<noteq> obj_key t"
    and n: "remembered t = Some n"
    and ann: "getReplicas t = Inr 0 \<Longrightarrow> annotation t originalReplicasAnnotationKey \<noteq> None"
    and err: "\<And>now w' e. C w \<le> now \<Longrightarrow> now \<le> C w' \<Longrightarrow> later w w' \<Longrightarrow> V w' = V w \<Longrightarrow>
      order_state E so now = Inl e \<Longrightarrow> Q (empty_result, Some e) w'"
    and ok: "\<And>now w' d asleep ev k t' cur' cur'' r. C w \<le> now \<Longrightarrow> now \<le> C w' \<Longrightarrow> later w w' \<Longrightarrow>
      order_state E so now = Inr (asleep, ev, k) \<Longrightarrow>
      V w' = (V w)(obj_key t \<mapsto> t', order_key so \<mapsto> SleepOrderObj cur'') \<Longrightarrow>
      settled asleep t t' \<Longrightarrow> enrolled so cur' \<Longrightarrow>
      reports cur' cur'' (if asleep then sleepingState else awakeState) ev (Some r) \<Longrightarrow>
      (if asleep then Some r = remembered t else getReplicas t' = Inr r) \<Longrightarrow> due ev now (C w') d \<Longrightarrow>
      Q (requeue_after d, None) w'"
  shows "wp (reconcileTarget E so t) Q w"
proof -
  obtain c where c: "getReplicas t = Inr c" using t by (auto simp: stored_def getReplicas_workload)
  show ?thesis
    unfolding reconcileTarget_def wp_bind
  proof (rule wp_Now_ok [OF h], goal_cases)
    case (1 now w1)
    show ?case
    proof (cases "order_state E so now")
      case (Inl e)
      then show ?thesis using 1 err [of now w1 e]
        by (simp add: Let_def later_def order_state_def)
    next
      case (Inr g)
      obtain asleep ev k where g: "g = (asleep, ev, k)" by (cases g)
      note ok' = ok [of now, OF _ _ _ Inr [unfolded g]]
      have "wp (handleFinalizer E so t c) (\<lambda>r. wp (case r of ((stop, err), so1, t1) \<Rightarrow>
          (if stop then ret (empty_result, err)
           else if asleep then handleSleep E so1 t1 ev else handleWake E so1 t1 c ev)) Q) w1"
      proof (rule wp_handleFinalizer_ok [where cur = so], goal_cases)
        case (4 so1 w2 cur')
        have V2: "V w2 = (V w)(order_key so \<mapsto> SleepOrderObj cur')" using 4 1 by simp
        have h2: "H w2" and t2: "stored (V w2) t"
          and cur2: "V w2 (order_key so1) = Some (SleepOrderObj cur')" and ne1: "order_key so1 \<noteq> obj_key t"
          using 4(1,4) t ne by (simp_all add: V2 later_def stored_def)
        have order: "C w \<le> now" "\<And>w3. later w2 w3 \<Longrightarrow> now \<le> C w3 \<and> later w w3"
          "\<And>hi d. due ev (C w2) hi d \<Longrightarrow> due ev now hi d"
          using 1 4 by (auto simp: later_def intro: due_earlier)
        have upd: "(V w2)(obj_key t \<mapsto> t', order_key so1 \<mapsto> x) = (V w)(obj_key t \<mapsto> t', order_key so \<mapsto> x)" for t' x
          using V2 4(4) ne by (simp add: fun_upd_twist)
        show ?case
        proof (cases asleep)
          case True
          then show ?thesis
            using wp_handleSleep_ok [OF h2 t2 cur2 ne1 n, of ev Q] ok' [OF order(1)] order(2,3) 4(3) n
            by (simp add: upd)
        next
          case False
          then show ?thesis
            using wp_handleWake_ok [OF h2 t2 cur2 ne1 c n, of ev Q] ok' [OF order(1)] order(2,3) 4(3) ann c
            by (simp add: upd)
        qed
      qed (use 1 cur a in simp_all)
      then show ?thesis using Inr g c by (auto simp: Let_def order_state_def elim!: wp_mono)
    qed
  qed
qed

end

section \<open>Deleting an order\<close>

text \<open>The order without the finalizer; with no finalizer left it is gone.\<close>

definition dismissed :: "sleep_order \<Rightarrow> client_object option \<Rightarrow> bool" where
  "dismissed so x \<longleftrightarrow>
     (if set (om_finalizers (ord_meta so)) \<subseteq> {sleepOrderFinalizer} then x = None
      else \<exists>so'. x = Some (SleepOrderObj so') \<and> ord_spec so' = ord_spec so \<and>
        om_finalizers (ord_meta so') = removeAll sleepOrderFinalizer (om_finalizers (ord_meta so)))"

lemma removeAll_Nil: "removeAll x xs = [] \<longleftrightarrow> set xs \<subseteq> {x}"
  by (induction xs) auto

context healthy_controllers
begin

lemma wp_removeFinalizerStep_ok:
  assumes h: "H w" and cur: "V w (order_key cur) = Some (SleepOrderObj cur)"
    and d: "om_deletion (ord_meta cur) \<noteq> None"
    and Q: "\<And>so1 w' x. later w w' \<Longrightarrow> V w' = (V w)(order_key cur := x) \<Longrightarrow> dismissed cur x \<Longrightarrow>
      Q (None, (so1, t, True)) w'"
  shows "wp (removeFinalizerStep E (cur, t, stop)) Q w"
proof -
  let ?so1 = "cur\<lparr>ord_meta := x_RemoveFinalizer E (ord_meta cur) sleepOrderFinalizer\<rparr>"
  have key: "obj_key (SleepOrderObj ?so1) = order_key cur" by (simp add: remove_law order_key_def)
  show ?thesis
    unfolding removeFinalizerStep_def updateSleepOrder_def prod.case Let_def wp_bind
  proof (rule wp_Update_ok [OF h, where old = "SleepOrderObj cur"], goal_cases)
    case (3 rv ob' w')
    have "\<exists>so'. ob' = SleepOrderObj so' \<and> ord_spec so' = ord_spec cur \<and>
        om_finalizers (ord_meta so') = removeAll sleepOrderFinalizer (om_finalizers (ord_meta cur)) \<and>
        om_deletion (ord_meta so') = om_deletion (ord_meta cur)"
      using 3(3) by (auto simp: with_rv_def write_over_def norm_meta_def remove_law)
    then obtain so' where so': "ob' = SleepOrderObj so'" "ord_spec so' = ord_spec cur"
      "om_finalizers (ord_meta so') = removeAll sleepOrderFinalizer (om_finalizers (ord_meta cur))"
      "om_deletion (ord_meta so') = om_deletion (ord_meta cur)" by blast
    have dis: "dismissed cur (if released ob' then None else Some ob')"
      using so' d by (simp add: dismissed_def released_def removeAll_Nil)
    have v: "V w' = (V w)(order_key cur := (if released ob' then None else Some ob'))"
      using 3(4) by (simp only: key)
    have l: "later w w'" using 3(1,2) by (simp add: later_def)
    have "as_SleepOrder (Inr ob') = Inr so'" using so'(1) by (simp add: as_SleepOrder_def)
    then show ?case by (simp only: wp_return sum.case) (rule Q [OF l v dis])
  qed (use cur key in \<open>simp_all add: remove_law\<close>)
qed

lemma wp_restoreTargetStep_ok:
  assumes h: "H w" and t: "stored (V w) t" and c: "getReplicas t = Inr 0"
    and val: "annotation t originalReplicasAnnotationKey = Some val" "Atoi val = Some i"
    and Q: "\<And>t' w'. later w w' \<Longrightarrow> V w' = (V w)(obj_key t \<mapsto> t') \<Longrightarrow> settled False t t' \<Longrightarrow>
      Q (None, t') w'"
  shows "wp (restoreTargetStep E t) Q w"
  unfolding restoreTargetStep_def wp_bind
proof (rule wp_restore_ok [OF h t val], goal_cases)
  case (1 t1 w1)
  then obtain t2 where t2: "setReplicas t1 (word_of_int i) = Inr t2"
    using setReplicas_workload by (auto simp: stored_def)
  note 2 = setReplicas_simps [OF t2]
  have h1: "H w1" using 1 by (simp add: later_def)
  show ?case
    unfolding prod.case sum.case t2 wp_bind
  proof (rule wp_target_write_ok [OF h1 1(3)], goal_cases)
    case (4 t3 w2)
    have "like t3 t"
      using 4(4) set_replicas_id [OF 1(6) t2] 1(4) by (auto simp: same_state_def intro: like_trans)
    moreover have "annotation t3 originalReplicasAnnotationKey = None"
      using 4(4) 2 1(5) by (simp add: same_state_def)
    moreover have "om_deletion (obj_meta t3) = om_deletion (obj_meta t)"
      using 4(3) t by (simp add: stored_def)
    ultimately have "settled False t t3" using c val by (simp add: settled_def)
    with 4 1 show ?case by (auto intro!: Q intro: later_trans)
  qed (use 2 in simp_all)
qed

text \<open>The finalizer of an order under deletion: the target is woken first.\<close>

lemma wp_handleFinalizer_delete:
  assumes h: "H w" and t: "stored (V w) t" and cur: "V w (order_key so) = Some (SleepOrderObj cur)"
    and d: "om_deletion (ord_meta cur) \<noteq> None" and f: "sleepOrderFinalizer \<in> set (om_finalizers (ord_meta cur))"
    and ne: "order_key so \<noteq> obj_key t" and c: "getReplicas t = Inr c" and n: "remembered t = Some n"
    and ann: "c = 0 \<Longrightarrow> annotation t originalReplicasAnnotationKey \<noteq> None"
    and Q: "\<And>so1 w' t' x t1. later w w' \<Longrightarrow> V w' = (V w)(obj_key t \<mapsto> t', order_key so := x) \<Longrightarrow>
      settled False t t' \<Longrightarrow> dismissed cur x \<Longrightarrow> Q ((True, None), so1, t1) w'"
  shows "wp (handleFinalizer E so t c) Q w"
proof -
  have key: "order_key cur = order_key so" using view_key [OF cur] by (simp add: order_key_def)
  let ?R = "\<lambda>r w'. fst r = None \<and> (\<exists>so1 t1 t' x. snd r = (so1, t1, True) \<and> later w w' \<and>
      V w' = (V w)(obj_key t \<mapsto> t', order_key so := x) \<and> settled False t t' \<and> dismissed cur x)"
  have remove: "wp (removeFinalizerStep E (cur, t1, False)) ?R w1"
    if w1: "later w w1" "V w1 = (V w)(obj_key t \<mapsto> t')" "settled False t t'" for t1 t' w1
  proof (rule wp_removeFinalizerStep_ok [OF _ _ d], goal_cases)
    case (3 so1 w' x)
    with w1 key show ?case by (auto intro: later_trans)
  qed (use w1 cur key ne in \<open>simp_all add: later_def\<close>)
  have attempt: "wp (finalizerAttempt E c (so, t, False)) ?R w"
    unfolding finalizerAttempt_def prod.case wp_bind
  proof (rule wp_getSleepOrder_ok [OF h cur [unfolded order_key_def]], goal_cases)
    case (1 w1)
    have l1: "later w w1" and h1: "H w1" and t1: "stored (V w1) t"
      using 1 t by (simp_all add: later_def)
    have f': "x_ContainsFinalizer E (ord_meta cur) sleepOrderFinalizer" using f by (simp add: contains_law)
    show ?case
    proof (cases "c = 0")
      case True
      then obtain val i where val: "annotation t originalReplicasAnnotationKey = Some val" "Atoi val = Some i"
        using n ann by (auto simp: remembered_def)
      have "wp (restoreTargetStep E t) (\<lambda>r. wp (case r of (early, t1) \<Rightarrow>
          (case early of Some err \<Rightarrow> ret (err, (cur, t1, False))
           | None \<Rightarrow> removeFinalizerStep E (cur, t1, False))) ?R) w1"
      proof (rule wp_restoreTargetStep_ok [OF h1 t1 _ val], goal_cases)
        case (2 t' w2)
        have "later w w2" using l1 2(1) by (rule later_trans)
        moreover have "V w2 = (V w)(obj_key t \<mapsto> t')" using 2(2) 1(3) by simp
        ultimately show ?case unfolding prod.case option.case by (rule remove) (rule 2(3))
      qed (use c True in simp)
      then show ?thesis unfolding sum.case if_not_P [OF d] if_P [OF f'] if_P [OF True] wp_bind .
    next
      case False
      have "settled False t t"
        using t c False by (simp add: settled_def stored_def like_refl)
      moreover have "V w1 = (V w)(obj_key t \<mapsto> t)" using 1 t by (simp add: stored_def fun_upd_idem)
      ultimately have "wp (removeFinalizerStep E (cur, t, False)) ?R w1" by (intro remove [OF l1])
      then show ?thesis unfolding sum.case if_not_P [OF d] if_P [OF f'] if_not_P [OF False] .
    qed
  qed
  have "wp (x_RetryOnConflict E (finalizerAttempt E c) (so, t, False)) ?R w"
    by (rule wp_retry_first [OF conflict_retry_axioms], rule wp_mono [OF attempt]) auto
  then show ?thesis
    unfolding handleFinalizer_def wp_bind
    by (rule wp_mono) (auto intro!: Q)
qed

text \<open>The attempt once more, on a target without the annotation: it is scaled to 0.\<close>

lemma wp_restoreTargetStep_bare:
  assumes h: "H w" and t: "stored (V w) t"
    and a: "annotation t originalReplicasAnnotationKey = None" "om_annotations (obj_meta t) \<noteq> None"
    and Q: "\<And>t' w'. later w w' \<Longrightarrow> V w' = (V w)(obj_key t \<mapsto> t') \<Longrightarrow> getReplicas t' = Inr 0 \<Longrightarrow>
      annotation t' originalReplicasAnnotationKey = None \<Longrightarrow> same_workload t' t \<Longrightarrow> Q (None, t') w'"
  shows "wp (restoreTargetStep E t) Q w"
proof -
  obtain m where m: "om_annotations (obj_meta t) = Some m" "fmlookup m originalReplicasAnnotationKey = None"
    using a by (auto simp: annotation_def)
  have wl: "is_workload t" using t by (simp add: stored_def)
  obtain t2 where t2: "setReplicas t 0 = Inr t2" using setReplicas_workload [OF wl] by blast
  note s2 = setReplicas_simps [OF t2]
  have t2w: "is_workload t2" "same_workload t2 t" "annotation t2 originalReplicasAnnotationKey = None"
    using s2 a(1) by simp_all
  show ?thesis
    unfolding restoreTargetStep_def restoreReplicas_def wp_bind
  proof (rule wp_refresh_ok [OF h t], goal_cases)
    case (1 w1)
    have h1: "H w1" "stored (V w1) t" using 1 t by (simp_all add: later_def)
    have "wp (x_Update E t2) (\<lambda>u. wp (case u of Inl e \<Rightarrow> ret (Some (IgnoreNotFound e), t2)
        | Inr t3 \<Rightarrow> ret (None, t3)) Q) w1"
    proof (rule wp_target_write_ok [OF h1 _ _ t2w(1)], goal_cases)
      case (3 t3 w2)
      have "Q (None, t3) w2"
        using 3 1 s2(1) t2w(2,3) later_trans [of w w1 w2]
        by (intro Q) (auto simp: same_state_def like_def intro: same_workload_trans)
      then show ?case by simp
    qed (simp_all add: s2)
    then show ?case by (simp add: m t2)
  qed
qed

lemma wp_finalizerAttempt_bare:
  assumes h: "H w" and cur: "V w (order_key so) = Some (SleepOrderObj cur)"
    and d: "om_deletion (ord_meta cur) \<noteq> None" "sleepOrderFinalizer \<in> set (om_finalizers (ord_meta cur))"
    and ne: "order_key so \<noteq> obj_key t" and t: "stored (V w) t"
    and a: "annotation t originalReplicasAnnotationKey = None" "om_annotations (obj_meta t) \<noteq> None"
  shows "wp (finalizerAttempt E 0 (so, t, stop)) (\<lambda>r w'. \<exists>so1 t' x. r = (None, so1, t', True) \<and>
    V w' = (V w)(obj_key t \<mapsto> t', order_key so := x) \<and> dismissed cur x \<and> same_workload t' t \<and>
    getReplicas t' = Inr 0 \<and> annotation t' originalReplicasAnnotationKey = None) w"
    (is "wp _ ?Q w")
  unfolding finalizerAttempt_def prod.case wp_bind
proof (rule wp_getSleepOrder_ok [OF h cur [unfolded order_key_def]], goal_cases)
  case (1 w1)
  have key: "order_key cur = order_key so" using view_key [OF cur] by (simp add: order_key_def)
  have h1: "H w1" "stored (V w1) t" using 1 t by (simp_all add: later_def)
  have f: "x_ContainsFinalizer E (ord_meta cur) sleepOrderFinalizer" using d(2) by (simp add: contains_law)
  have "wp (restoreTargetStep E t) (\<lambda>r. wp (case r of (early, t1) \<Rightarrow>
      (case early of Some err \<Rightarrow> ret (err, (cur, t1, stop))
       | None \<Rightarrow> removeFinalizerStep E (cur, t1, stop))) ?Q) w1"
  proof (rule wp_restoreTargetStep_bare [OF h1 a], goal_cases)
    case (1 t' w2)
    have "wp (removeFinalizerStep E (cur, t', stop)) ?Q w2"
    proof (rule wp_removeFinalizerStep_ok [OF _ _ d(1)], goal_cases)
      case (3 so1 w' x)
      then show ?case using 1 \<open>V w1 = V w\<close> key by auto
    qed (use 1 \<open>V w1 = V w\<close> cur key ne in \<open>simp_all add: later_def\<close>)
    then show ?case by simp
  qed
  then show ?case unfolding sum.case if_not_P [OF d(1)] if_P [OF f] if_P [OF refl] wp_bind .
qed

end

section \<open>Whole runs\<close>

text \<open>What one run achieves for a living order with target \<open>t\<close>, from view \<open>v\<close> to view \<open>v'\<close>.\<close>

definition run_effect ::
  "go_error + (bool \<times> time \<times> string) \<Rightarrow> sleep_order \<Rightarrow> client_object \<Rightarrow> view \<Rightarrow> reconcile_result \<Rightarrow> view \<Rightarrow> bool" where
  "run_effect sched so t v r v' \<longleftrightarrow>
     (case sched of
        Inl e \<Rightarrow> r = (empty_result, Some e) \<and> v' = v
      | Inr (asleep, next_t, _) \<Rightarrow>
          (\<exists>d t' so1 so2 k.
             r = (requeue_after d, None) \<and>
             v' = v(obj_key t \<mapsto> t', order_key so \<mapsto> SleepOrderObj so2) \<and>
             settled asleep t t' \<and> enrolled so so1 \<and>
             reports so1 so2 (if asleep then sleepingState else awakeState) next_t (Some k) \<and>
             (if asleep then Some k = remembered t else getReplicas t' = Inr k)))"

text \<open>The run asks to be called again when the next event is due.\<close>

definition called_again ::
  "go_error + (bool \<times> time \<times> string) \<Rightarrow> int \<Rightarrow> int \<Rightarrow> reconcile_result \<Rightarrow> bool" where
  "called_again sched now end_of_run r \<longleftrightarrow>
     (case sched of Inl e \<Rightarrow> True
      | Inr (_, next_t, _) \<Rightarrow> \<exists>d. r = (requeue_after d, None) \<and> due next_t now end_of_run d)"

context healthy_controllers
begin

lemma wp_Reconcile_timed:
  assumes h: "H w" and so: "V w (KSleepOrder, ns, n) = Some (SleepOrderObj so)"
    and a: "om_deletion (ord_meta so) = None"
    and T: "target_key ns (so_TargetRef (ord_spec so)) = Some (obj_key t)" and t: "stored (V w) t"
    and m: "remembered t \<noteq> None"
    and ann: "getReplicas t = Inr 0 \<Longrightarrow> annotation t originalReplicasAnnotationKey \<noteq> None"
  shows "wp (Reconcile_SleepOrder E ns n)
    (\<lambda>r w'. H w' \<and> (\<exists>now. C w \<le> now \<and> now \<le> C w' \<and> run_effect (order_state E so now) so t (V w) r (V w') \<and>
      called_again (order_state E so now) now (C w') r)) w"
proof (rule wp_Reconcile_target [OF h so T])
  show "V w (obj_key t) = Some t" using t by (simp add: stored_def)
  have key: "order_key so = (KSleepOrder, ns, n)" using view_key [OF so] by (simp add: order_key_def)
  have ne: "order_key so \<noteq> obj_key t" using target_key_ne [OF T] key by simp
  obtain k where k: "remembered t = Some k" using m by auto
  fix w1
  assume w1: "later w w1" "V w1 = V w"
  then have h1: "H w1" "stored (V w1) t" "V w1 (order_key so) = Some (SleepOrderObj so)"
    using t so key by (simp_all add: later_def)
  show "wp (reconcileTarget E so t) (\<lambda>r w'. H w' \<and> (\<exists>now. C w \<le> now \<and> now \<le> C w' \<and>
      run_effect (order_state E so now) so t (V w) r (V w') \<and> called_again (order_state E so now) now (C w') r)) w1"
  proof (rule wp_reconcileTarget_ok [OF h1 a ne k ann], goal_cases)
    case (2 now w' e)
    then have "C w \<le> now" "H w'" using w1 by (auto simp: later_def)
    moreover have "run_effect (order_state E so now) so t (V w) (empty_result, Some e) (V w')"
      using 2 w1 by (simp add: run_effect_def)
    moreover have "called_again (order_state E so now) now (C w') (empty_result, Some e)"
      using 2 by (simp add: called_again_def)
    ultimately show ?case using 2 by blast
  next
    case (3 now w' d asleep ev k' t' so1 so2 r)
    then have "C w \<le> now" "H w'" using w1 by (auto simp: later_def)
    moreover have "run_effect (order_state E so now) so t (V w) (requeue_after d, None) (V w')"
      unfolding run_effect_def 3(4) sum.case prod.case
      by (intro exI conjI) (use 3 w1 in \<open>simp_all\<close>)
    moreover have "called_again (order_state E so now) now (C w') (requeue_after d, None)"
      unfolding called_again_def 3(4) using 3 by auto
    ultimately show ?case using 3(2) by blast
  qed
qed

lemma wp_Reconcile_ok:
  assumes h: "H w" and so: "V w (KSleepOrder, ns, n) = Some (SleepOrderObj so)"
    and a: "om_deletion (ord_meta so) = None"
    and T: "target_key ns (so_TargetRef (ord_spec so)) = Some (obj_key t)" and t: "stored (V w) t"
    and m: "remembered t \<noteq> None"
    and ann: "getReplicas t = Inr 0 \<Longrightarrow> annotation t originalReplicasAnnotationKey \<noteq> None"
  shows "wp (Reconcile_SleepOrder E ns n)
    (\<lambda>r w'. H w' \<and> (\<exists>now. C w \<le> now \<and> now \<le> C w' \<and> run_effect (order_state E so now) so t (V w) r (V w'))) w"
  by (rule wp_mono [OF wp_Reconcile_timed [OF assms]]) auto

lemma wp_Reconcile_delete:
  assumes h: "H w" and so: "V w (KSleepOrder, ns, n) = Some (SleepOrderObj so)"
    and d: "om_deletion (ord_meta so) \<noteq> None" "sleepOrderFinalizer \<in> set (om_finalizers (ord_meta so))"
    and T: "target_key ns (so_TargetRef (ord_spec so)) = Some (obj_key t)" and t: "stored (V w) t"
    and m: "remembered t \<noteq> None"
    and ann: "getReplicas t = Inr 0 \<Longrightarrow> annotation t originalReplicasAnnotationKey \<noteq> None"
    and sched: "\<And>now. C w \<le> now \<Longrightarrow> \<exists>s. order_state E so now = Inr s"
  shows "wp (Reconcile_SleepOrder E ns n)
    (\<lambda>r w'. H w' \<and> C w \<le> C w' \<and> r = (empty_result, None) \<and> (\<exists>t' x. settled False t t' \<and> dismissed so x \<and>
       V w' = (V w)(obj_key t \<mapsto> t', (KSleepOrder, ns, n) := x))) w"
proof (rule wp_Reconcile_target [OF h so T])
  show "V w (obj_key t) = Some t" using t by (simp add: stored_def)
  have key: "order_key so = (KSleepOrder, ns, n)" using view_key [OF so] by (simp add: order_key_def)
  have ne: "order_key so \<noteq> obj_key t" using target_key_ne [OF T] key by simp
  obtain k where k: "remembered t = Some k" using m by auto
  obtain c where c: "getReplicas t = Inr c" using t by (auto simp: stored_def getReplicas_workload)
  fix w1
  assume w1: "later w w1" "V w1 = V w"
  then have h1: "H w1" by (simp add: later_def)
  show "wp (reconcileTarget E so t) (\<lambda>r w'. H w' \<and> C w \<le> C w' \<and> r = (empty_result, None) \<and>
      (\<exists>t' x. settled False t t' \<and> dismissed so x \<and> V w' = (V w)(obj_key t \<mapsto> t', (KSleepOrder, ns, n) := x))) w1"
    (is "wp _ ?Q _")
    unfolding reconcileTarget_def wp_bind
  proof (rule wp_Now_ok [OF h1], goal_cases)
    case (1 now w2)
    have l2: "later w w2" "V w2 = V w" using 1 w1 by (auto simp: later_def)
    obtain asleep ev ev' where s: "order_state E so now = Inr (asleep, ev, ev')"
      using sched [of now] 1 w1 by (auto simp: later_def)
    have "wp (handleFinalizer E so t c) (\<lambda>r. wp (case r of ((stop, err), so1, t1) \<Rightarrow>
        (if stop then ret (empty_result, err)
         else if asleep then handleSleep E so1 t1 ev else handleWake E so1 t1 c ev)) ?Q) w2"
    proof (rule wp_handleFinalizer_delete [where cur = so and n = k], goal_cases)
      case (10 so1 w' t' x t1)
      have "later w w'" using l2(1) 10(1) by (rule later_trans)
      then show ?case using 10 l2 key by (auto simp: later_def)
    qed (use l2 t so key d ne c k ann in \<open>simp_all add: later_def\<close>)
    then show ?case using s c by (auto simp: Let_def order_state_def elim!: wp_mono)
  qed
qed

end

section \<open>Runs that cannot reach the target\<close>

context kube_api
begin

text \<open>A schedule that cannot be read ends the run before anything is written.\<close>

lemma wp_bad_schedule:
  assumes so: "V w (KSleepOrder, ns, n) = Some (SleepOrderObj so)"
    and T: "target_key ns (so_TargetRef (ord_spec so)) = Some T" and t: "V w T \<noteq> None"
    and bad: "\<And>x. \<exists>e. order_state E so x = Inl e"
  shows "wp (Reconcile_SleepOrder E ns n) (\<lambda>r w'. V w' = V w \<and> snd r \<noteq> None) w"
proof -
  have target: "wp (reconcileTarget E so ob) (\<lambda>r w'. V w' = V w \<and> snd r \<noteq> None) w1" if "V w1 = V w" for ob w1
    unfolding reconcileTarget_def wp_bind
  proof (rule wp_Now_at, goal_cases)
    case (1 x w2)
    moreover obtain e where "order_state E so x = Inl e" using bad by blast
    ultimately show ?case using that by (simp add: order_state_def Let_def)
  qed
  have get: "wp (getTargetObject E ns (so_TargetRef (ord_spec so))) Q w1"
    if "\<And>r w2. V w2 = V w1 \<Longrightarrow> get_result (V w1 T) r \<Longrightarrow> Q r w2" for Q w1
    using T that by (auto simp: getTargetObject_def target_key_def split: if_splits intro!: wp_Get)
  show ?thesis
    unfolding Reconcile_SleepOrder_def FetchSleepOrderOrContinue_def wp_bind
  proof (rule wp_getSleepOrder, goal_cases)
    case (1 g w1)
    show ?case
    proof (cases g)
      case (Inl e)
      have "\<not> IsNotFound e" using 1(2) so Inl by (auto simp: order_result_def IsNotFound_def)
      then show ?thesis using 1 Inl by simp
    next
      case (Inr so')
      then have so': "so' = so" using 1 so by (simp add: order_result_def)
      show ?thesis
        unfolding Inr so' sum.case wp_return option.case wp_bind
      proof (rule get)
        fix r w2
        assume r: "V w2 = V w1" "get_result (V w1 T) r"
        show "wp (case r of
            Inl e \<Rightarrow> if IsNotFound e then targetNotFound E so else ret (empty_result, Some e)
          | Inr target \<Rightarrow> reconcileTarget E so target) (\<lambda>r w'. V w' = V w \<and> snd r \<noteq> None) w2"
        proof (cases r)
          case (Inl e)
          then have "\<not> IsNotFound e" using r(2) t 1(1) by (auto simp: get_result_def IsNotFound_def)
          then show ?thesis using Inl r 1 by simp
        next
          case (Inr ob)
          then show ?thesis using target r 1 by simp
        qed
      qed
    qed
  qed
qed

text \<open>An unsupported kind of target is an error, and nothing is written.\<close>

lemma wp_unsupported_kind:
  assumes so: "V w (KSleepOrder, ns, n) = Some (SleepOrderObj so)"
    and T: "target_key ns (so_TargetRef (ord_spec so)) = None"
  shows "wp (Reconcile_SleepOrder E ns n) (\<lambda>r w'. V w' = V w \<and> snd r \<noteq> None) w"
  unfolding Reconcile_SleepOrder_def FetchSleepOrderOrContinue_def wp_bind
proof (rule wp_getSleepOrder, goal_cases)
  case (1 g w1)
  show ?case
  proof (cases g)
    case (Inl e)
    have "\<not> IsNotFound e" using 1(2) so Inl by (auto simp: order_result_def IsNotFound_def)
    then show ?thesis using 1 Inl by simp
  next
    case (Inr so')
    then have "so' = so" using 1 so by (simp add: order_result_def)
    then show ?thesis
      using 1 T Inr by (auto simp: getTargetObject_def target_key_def split: if_splits)
  qed
qed

end

context healthy_controllers
begin

text \<open>A missing target: the finalizer goes, and the order reports it while it exists.\<close>

lemma wp_targetNotFound_ok:
  assumes h: "H w" and so: "V w (order_key so) = Some (SleepOrderObj so)"
    and a: "om_deletion (ord_meta so) = None"
  shows "wp (targetNotFound E so) (\<lambda>r w'. \<exists>d so1 so2 next_t. r = (requeue_after d, None) \<and>
     V w' = (V w)(order_key so \<mapsto> SleepOrderObj so2) \<and> ord_spec so1 = ord_spec so \<and>
     om_finalizers (ord_meta so1) = removeAll sleepOrderFinalizer (om_finalizers (ord_meta so)) \<and>
     C w + minute_ns \<le> t_ns next_t \<and> t_ns next_t \<le> C w' + minute_ns \<and>
     reports so1 so2 ''Error TargetNotFound'' next_t None) w" (is "wp _ ?Q _")
  unfolding targetNotFound_def wp_bind
proof (rule wp_Now_ok [OF h], goal_cases)
  case (1 now w1)
  let ?so1 = "so\<lparr>ord_meta := x_RemoveFinalizer E (ord_meta so) sleepOrderFinalizer\<rparr>"
  let ?ev = "AddDuration \<lparr>t_ns = now, t_loc = tz_local (x_tz E)\<rparr> minute_ns"
  have key: "obj_key (SleepOrderObj ?so1) = order_key so" by (simp add: remove_law order_key_def)
  have "wp (updateSleepOrder E ?so1) (\<lambda>u. wp (case u of Inl e \<Rightarrow> ret (requeue_after minute_ns, Some e)
      | Inr so2 \<Rightarrow> updateStatus E so2 ''Error TargetNotFound'' ?ev None) ?Q) w1"
    unfolding updateSleepOrder_def wp_bind
  proof (rule wp_Update_ok [where old = "SleepOrderObj so"], goal_cases)
    case (4 rv ob' w2)
    have "\<exists>so1. ob' = SleepOrderObj so1 \<and> ord_spec so1 = ord_spec so \<and> order_key so1 = order_key so \<and>
        om_finalizers (ord_meta so1) = removeAll sleepOrderFinalizer (om_finalizers (ord_meta so)) \<and>
        om_deletion (ord_meta so1) = None"
      using 4(3) a by (auto simp: with_rv_def write_over_def norm_meta_def remove_law order_key_def)
    then obtain so1 where so1: "ob' = SleepOrderObj so1" "ord_spec so1 = ord_spec so" "order_key so1 = order_key so"
      "om_finalizers (ord_meta so1) = removeAll sleepOrderFinalizer (om_finalizers (ord_meta so))"
      "om_deletion (ord_meta so1) = None" by blast
    have v: "V w2 = (V w)(order_key so \<mapsto> SleepOrderObj so1)"
      using 4(4) 1 key so1 by (simp add: not_released)
    have "as_SleepOrder (Inr ob') = Inr so1" using so1(1) by (simp add: as_SleepOrder_def)
    moreover have "wp (updateStatus E so1 ''Error TargetNotFound'' ?ev None) ?Q w2"
    proof (rule wp_updateStatus_ok [where cur = so1], goal_cases)
      case (3 d w' so2)
      show ?case
        by (rule exI [of _ d], rule exI [of _ so1], rule exI [of _ so2], rule exI [of _ ?ev])
          (use 1 3 4(1,2) v so1 in \<open>auto simp: later_def AddDuration_def\<close>)
    qed (use 1 4(1,2) v so1 in \<open>auto simp: later_def\<close>)
    ultimately show ?case by simp
  qed (use 1 so key in \<open>simp_all add: remove_law\<close>)
  then show ?case by (simp add: Let_def)
qed

end

context healthy_controllers
begin

lemma wp_Reconcile_missing:
  assumes h: "H w" and so: "V w (KSleepOrder, ns, n) = Some (SleepOrderObj so)"
    and a: "om_deletion (ord_meta so) = None"
    and T: "target_key ns (so_TargetRef (ord_spec so)) = Some T" and t: "V w T = None"
  shows "wp (Reconcile_SleepOrder E ns n) (\<lambda>r w'. \<exists>d so1 so2 next_t. r = (requeue_after d, None) \<and>
     V w' = (V w)((KSleepOrder, ns, n) \<mapsto> SleepOrderObj so2) \<and> ord_spec so1 = ord_spec so \<and>
     om_finalizers (ord_meta so1) = removeAll sleepOrderFinalizer (om_finalizers (ord_meta so)) \<and>
     C w + minute_ns \<le> t_ns next_t \<and> t_ns next_t \<le> C w' + minute_ns \<and>
     reports so1 so2 ''Error TargetNotFound'' next_t None) w" (is "wp _ ?Q _")
  unfolding Reconcile_SleepOrder_def FetchSleepOrderOrContinue_def wp_bind
proof (rule wp_getSleepOrder_ok [OF h so], goal_cases)
  case (1 w1)
  have key: "order_key so = (KSleepOrder, ns, n)" using view_key [OF so] by (simp add: order_key_def)
  have "wp (getTargetObject E ns (so_TargetRef (ord_spec so)))
      (\<lambda>g w2. g = Inl (ApiErr NotFound) \<and> H w2 \<and> C w1 \<le> C w2 \<and> V w2 = V w1) w1"
    using 1 T t unfolding getTargetObject_def target_key_def
    by (auto split: if_splits intro!: wp_Get_missing)
  then have "wp (getTargetObject E ns (so_TargetRef (ord_spec so))) (\<lambda>g. wp (case g of
            Inl e \<Rightarrow> if IsNotFound e then targetNotFound E so else ret (empty_result, Some e)
          | Inr target \<Rightarrow> reconcileTarget E so target) ?Q) w1"
  proof (rule wp_mono)
    fix g :: "go_error + client_object" and w2
    assume g: "g = Inl (ApiErr NotFound) \<and> H w2 \<and> C w1 \<le> C w2 \<and> V w2 = V w1"
    then have h2: "H w2" and s2: "V w2 (order_key so) = Some (SleepOrderObj so)" using 1 so key by simp_all
    have "C w \<le> C w2" "V w2 = V w" using g 1 by auto
    with wp_targetNotFound_ok [OF h2 s2 a] have "wp (targetNotFound E so) ?Q w2"
      by (elim wp_mono) (use key in force)
    then show "wp (case g of
            Inl e \<Rightarrow> if IsNotFound e then targetNotFound E so else ret (empty_result, Some e)
          | Inr target \<Rightarrow> reconcileTarget E so target) ?Q w2"
      using g by simp
  qed
  then show ?case by simp
qed

end

end
