(* ===== verification/Sleep_Order_Props.thy ===== *)
theory Sleep_Order_Props
  imports Sleep_Order_Live
begin

text \<open>
  The properties of the SleepOrder controller: what it never does whatever calls fail, what a
  reconciliation achieves in a healthy world on each branch, and what is lost when the removal of
  the finalizer fails.  They hold in every environment that satisfies the interfaces of theory
  Client; the witnesses run on the reference server.
\<close>

section \<open>A cluster for the examples\<close>

definition ex_meta :: "string \<Rightarrow> object_meta" where
  "ex_meta n = \<lparr>om_name = n, om_namespace = ''shop'', om_annotations = None, om_finalizers = [],
     om_owner = None, om_creation = 0, om_deletion = None, om_rv = 1\<rparr>"

definition ex_web :: client_object where
  "ex_web = Deployment \<lparr>wl_meta = (ex_meta ''web'')\<lparr>om_annotations := Some (fmap_of_list [(''rev'', ''1'')])\<rparr>,
     wl_replicas = Some 3, wl_rest = ''nginx''\<rparr>"

definition ex_order :: sleep_order where
  "ex_order = \<lparr>ord_meta = ex_meta ''web-order'',
     ord_spec = \<lparr>so_TargetRef = \<lparr>tr_APIVersion = ''apps/v1'', tr_Kind = ''Deployment'', tr_Name = ''web''\<rparr>,
       so_WakeAt = ''08:00'', so_SleepAt = ''20:00'', so_Timezone = ''UTC'', so_WorkingDays = ''Monday-Friday''\<rparr>,
     ord_status = empty_order_status\<rparr>"

text \<open>Monday noon and Monday nine in the evening, UTC.\<close>

definition ex_mem :: "int \<Rightarrow> fault list \<Rightarrow> client_object list \<Rightarrow> mem" where
  "ex_mem now fs obs = \<lparr>m_objs = obs, m_rv = 1, m_clock = now, m_faults = fs\<rparr>"

definition ex_day :: int where "ex_day = 1763985600000000000"
definition ex_evening :: int where "ex_evening = 1764018000000000000"

lemma ex_keys [simp]:
  "obj_key ex_web = (KDeployment, ''shop'', ''web'')"
  "obj_key (SleepOrderObj ex_order) = (KSleepOrder, ''shop'', ''web-order'')"
  "om_deletion (ord_meta ex_order) = None"
  "target_key ''shop'' (so_TargetRef (ord_spec ex_order)) = Some (KDeployment, ''shop'', ''web'')"
  by (simp_all add: ex_web_def ex_order_def ex_meta_def target_key_def kindDeployment_def)

lemma ex_order_simps:
  "om_namespace (ord_meta ex_order) = ''shop''" "om_name (ord_meta ex_order) = ''web-order''"
  by (simp_all add: ex_order_def ex_meta_def)

lemma ex_mem_simps [simp]:
  "m_objs (ex_mem now fs obs) = obs" "m_faults (ex_mem now fs obs) = fs"
  "m_clock (ex_mem now fs obs) = now" "m_rv (ex_mem now fs obs) = 1"
  by (simp_all add: ex_mem_def)

section \<open>Safety under any failures\<close>

text \<open>
  C1: whatever calls fail, lose their reply or conflict, and wherever the controller crashes, the
  reconciliation of an order that is not being deleted leaves its target with the replica count it
  remembers, changes nothing of the target but the replica count and the controller's own
  annotation, never removes it, and changes no object but the order and its target.
\<close>

theorem Reconcile_keeps_target:
  assumes "controllers E V"
    and "V w (KSleepOrder, ns, n) = Some (SleepOrderObj so)"
    and "om_deletion (ord_meta so) = None"
    and "target_key ns (so_TargetRef (ord_spec so)) = Some T"
    and "run_state (Reconcile_SleepOrder E ns n) w = (r, w')"
  shows "intact (KSleepOrder, ns, n) T (V w) (V w')"
  using wp_run [OF controllers.wp_Reconcile_alive [OF assms(1-4)] assms(5)] .

text \<open>The evening reconciliation, with the reply to its first write lost and a conflict on the second.\<close>

definition ex_storm :: mem where
  "ex_storm = ex_mem ex_evening [Fine, Fine, Fine, ReplyLost, Fine, Concurrent] [SleepOrderObj ex_order, ex_web]"

theorem Reconcile_keeps_target_witness:
  "intact (KSleepOrder, ''shop'', ''web-order'') (KDeployment, ''shop'', ''web'') (mem_view ex_storm)
     (mem_view (snd (run_state (Reconcile_SleepOrder (mem_env ex_tz) ''shop'' ''web-order'') ex_storm)))"
  by (rule Reconcile_keeps_target [where so = ex_order, OF mem.controllers_axioms _ _ _ surjective_pairing])
    (simp_all add: ex_storm_def mem_view_def ex_order_simps)

section \<open>A healthy world\<close>

text \<open>
  C5: in a healthy world one reconciliation settles the target of an order that is not being deleted.
  The target exists, is not being deleted, has a replica count to go back to, and is annotated with it if
  it has 0 replicas (otherwise waking it fails, see \<open>wake_without_annotations_fails\<close>).  With a clock
  reading taken during the run, a schedule error is returned and nothing is written; asleep, the target
  has 0 replicas and its annotation holds the count to go back to; awake, a sleeping target gets its count
  back and loses the annotation, a running one is left alone.  The order carries the finalizer and reports
  state, count and next event; no other object changes, and the run returns a time to be called again
  after.
\<close>

theorem Reconcile_settles:
  assumes "healthy_controllers E V H C" and "H w"
    and "V w (KSleepOrder, ns, n) = Some (SleepOrderObj so)"
    and "om_deletion (ord_meta so) = None"
    and "target_key ns (so_TargetRef (ord_spec so)) = Some (obj_key t)"
    and "stored (V w) t" and "remembered t \<noteq> None"
    and "getReplicas t = Inr 0 \<Longrightarrow> annotation t originalReplicasAnnotationKey \<noteq> None"
    and "run_state (Reconcile_SleepOrder E ns n) w = (r, w')"
  shows "\<exists>now. C w \<le> now \<and> now \<le> C w' \<and> run_effect (order_state E so now) so t (V w) r (V w')"
  using wp_run [OF healthy_controllers.wp_Reconcile_ok [OF assms(1-8)] assms(9)] by simp

definition ex_calm :: mem where
  "ex_calm = ex_mem ex_evening [] [SleepOrderObj ex_order, ex_web]"

lemma ex_web_facts:
  "getReplicas ex_web = Inr 3" "annotation ex_web originalReplicasAnnotationKey = None"
  "remembered ex_web = Some 3" "is_workload ex_web" "om_deletion (obj_meta ex_web) = None"
  by (simp_all add: ex_web_def ex_meta_def remembered_def annotation_def is_workload_def
      originalReplicasAnnotationKey_def fmlookup_of_list)

lemma ex_calm_view:
  "mem_view ex_calm (KSleepOrder, ''shop'', ''web-order'') = Some (SleepOrderObj ex_order)"
  "stored (mem_view ex_calm) ex_web" "mem_healthy ex_calm"
  by (simp_all add: ex_calm_def mem_view_def stored_def ex_order_simps mem_healthy_def ex_web_facts)

theorem Reconcile_settles_witness:
  "\<exists>now r w'. run_state (Reconcile_SleepOrder (mem_env ex_tz) ''shop'' ''web-order'') ex_calm = (r, w') \<and>
     ex_evening \<le> now \<and> run_effect (order_state (mem_env ex_tz) ex_order now) ex_order ex_web
       (mem_view ex_calm) r (mem_view w')"
proof -
  obtain r w' where run: "run_state (Reconcile_SleepOrder (mem_env ex_tz) ''shop'' ''web-order'') ex_calm = (r, w')"
    by (cases "run_state (Reconcile_SleepOrder (mem_env ex_tz) ''shop'' ''web-order'') ex_calm")
  have "\<exists>now. m_clock ex_calm \<le> now \<and> now \<le> m_clock w' \<and>
      run_effect (order_state (mem_env ex_tz) ex_order now) ex_order ex_web (mem_view ex_calm) r (mem_view w')"
    by (rule Reconcile_settles [OF mem.healthy_controllers_axioms ex_calm_view(3,1) _ _ ex_calm_view(2) _ _ run])
      (simp_all add: ex_web_facts)
  with run show ?thesis by (auto simp: ex_calm_def)
qed

text \<open>
  C4: putting a workload to sleep and waking it up again restores it.  A running workload with no
  annotation of the controller is scaled to 0 by a run during which the schedule says asleep; after
  a later run during which it says awake (the order may have been edited in between) it has its
  replica count back, the annotation is gone, and nothing else of it has changed.
\<close>

theorem sleep_wake_roundtrip:
  assumes env: "healthy_controllers E V H C" and h: "H w" "H u"
    and so: "V w (KSleepOrder, ns, n) = Some (SleepOrderObj so)" "om_deletion (ord_meta so) = None"
      "target_key ns (so_TargetRef (ord_spec so)) = Some (obj_key t)"
    and t: "stored (V w) t" "getReplicas t = Inr k" "k \<noteq> 0"
      "annotation t originalReplicasAnnotationKey = None"
    and run1: "run_state (Reconcile_SleepOrder E ns n) w = (r1, w1)"
    and asleep: "\<And>x. C w \<le> x \<Longrightarrow> x \<le> C w1 \<Longrightarrow> \<exists>e ev. order_state E so x = Inr (True, e, ev)"
    and so': "V u (KSleepOrder, ns, n) = Some (SleepOrderObj so')" "om_deletion (ord_meta so') = None"
      "target_key ns (so_TargetRef (ord_spec so')) = Some (obj_key t)"
    and between: "V u (obj_key t) = V w1 (obj_key t)"
    and run2: "run_state (Reconcile_SleepOrder E ns n) u = (r2, w2)"
    and awake: "\<And>x. C u \<le> x \<Longrightarrow> x \<le> C w2 \<Longrightarrow> \<exists>e ev. order_state E so' x = Inr (False, e, ev)"
  shows "\<exists>t1 t2. V w1 (obj_key t) = Some t1 \<and> getReplicas t1 = Inr 0 \<and>
     V w2 (obj_key t) = Some t2 \<and> getReplicas t2 = Inr k \<and> same_workload t2 t \<and>
     annotation t2 originalReplicasAnnotationKey = None"
proof -
  note ok = wp_run [OF healthy_controllers.wp_Reconcile_ok [OF env]]
  have rem: "remembered t = Some k" using t by (simp add: remembered_def)
  obtain x where x: "C w \<le> x" "x \<le> C w1" "run_effect (order_state E so x) so t (V w) r1 (V w1)"
    using ok [OF h(1) so t(1) _ _ run1] rem t by auto
  obtain t1 so2 where t1: "V w1 = (V w)(obj_key t \<mapsto> t1, order_key so \<mapsto> so2)" "settled True t t1"
    using asleep [OF x(1,2)] x(3) by (auto simp: run_effect_def)
  have ne: "order_key so \<noteq> obj_key t" using target_key_ne [OF so(3)] by (simp add: order_key_def)
  then have v1: "V w1 (obj_key t) = Some t1" using t1(1) by simp
  have k1: "obj_key t1 = obj_key t" and l1: "like t1 t" using t1(2) by (auto simp: settled_def dest: like_key)
  have s1: "stored (V u) t1"
    using v1 k1 l1 t1(2) t(1) between by (auto simp: stored_def settled_def like_def dest: same_workload_is)
  have rem1: "remembered t1 = Some k" using l1 rem by (simp add: like_def)
  obtain y where y: "C u \<le> y" "y \<le> C w2" "run_effect (order_state E so' y) so' t1 (V u) r2 (V w2)"
    using ok [OF h(2) so'(1,2) _ s1 _ _ run2] so'(3) rem1 t1(2) k1 by (auto simp: settled_def)
  obtain t2 so3 where t2: "V w2 = (V u)(obj_key t \<mapsto> t2, order_key so' \<mapsto> so3)" "settled False t1 t2"
    using awake [OF y(1,2)] y(3) k1 by (auto simp: run_effect_def)
  have "order_key so' \<noteq> obj_key t" using target_key_ne [OF so'(3)] by (simp add: order_key_def)
  then have v2: "V w2 (obj_key t) = Some t2" using t2(1) by simp
  have a2: "annotation t2 originalReplicasAnnotationKey = None" "getReplicas t2 = Inr k" and l2: "like t2 t1"
    using settled_awake [OF t2(2) _ rem1] t1(2) t2(2) by (auto simp: settled_def)
  moreover have "same_workload t2 t"
    using l1 l2 by (auto simp: like_def intro: same_workload_trans)
  ultimately show ?thesis using v1 v2 a2 t1(2) by (auto simp: settled_def)
qed

text \<open>
  The order of a workload that never works, edited into one whose shift never ends.
\<close>

definition ex_never :: sleep_order where
  "ex_never = ex_order\<lparr>ord_spec := (ord_spec ex_order)\<lparr>so_WorkingDays := ''never''\<rparr>\<rparr>"

definition ex_always :: sleep_order where
  "ex_always = ex_order\<lparr>ord_spec := (ord_spec ex_order)\<lparr>so_SleepAt := ''08:00'', so_WorkingDays := ''''\<rparr>\<rparr>"

definition ex_night :: mem where
  "ex_night = ex_mem ex_evening [] [SleepOrderObj ex_never, ex_web]"

lemma ex_never_state:
  "\<exists>e ev. order_state (mem_env ex_tz) ex_never x = Inr (True, e, ev)"
proof -
  have "parseDay ''never'' = -1" "CHR ''-'' \<notin> set (TrimSpace ''never'')" "TrimSpace ''never'' = ''never''"
    "Split CHR '','' (ToLower ''never'') = [''never'']"
    by code_simp+
  then have "\<not> isDayWorking t ''never''" for t
    by (simp add: isDayWorking_def part_matches_def)
  moreover have "\<exists>tw ts tn. parseSchedule ex_tz \<lparr>t_ns = x, t_loc = tz_local ex_tz\<rparr> ''08:00'' ''20:00'' ''UTC'' = Inr (tn, tw, ts)"
    by (simp add: parseSchedule_def parseTimeToLocation_def LoadLocation_def ex_0800 ex_2000 split: prod.splits)
  ultimately show ?thesis
    by (auto simp: order_state_def ex_never_def ex_order_def GetTimeState_def Let_def)
qed

lemma ex_always_state:
  "\<exists>e ev. order_state (mem_env ex_tz) ex_always x = Inr (False, e, ev)"
proof -
  have "isDayWorking t ''''" for t by (simp add: isDayWorking_def)
  moreover have "\<exists>tw tn. parseSchedule ex_tz \<lparr>t_ns = x, t_loc = tz_local ex_tz\<rparr> ''08:00'' ''08:00'' ''UTC'' = Inr (tn, tw, tw)"
    by (simp add: parseSchedule_def parseTimeToLocation_def LoadLocation_def ex_0800 split: prod.splits)
  ultimately show ?thesis
    by (auto simp: order_state_def ex_always_def ex_order_def GetTimeState_def Let_def Before_def After_def Equal_def)
qed

theorem sleep_wake_roundtrip_witness:
  "\<exists>w1 u w2 t1 t2. w1 = snd (run_state (Reconcile_SleepOrder (mem_env ex_tz) ''shop'' ''web-order'') ex_night) \<and>
     u = w1\<lparr>m_objs := put (SleepOrderObj ex_always) (m_objs w1)\<rparr> \<and>
     w2 = snd (run_state (Reconcile_SleepOrder (mem_env ex_tz) ''shop'' ''web-order'') u) \<and>
     mem_view w1 (obj_key ex_web) = Some t1 \<and> getReplicas t1 = Inr 0 \<and>
     mem_view w2 (obj_key ex_web) = Some t2 \<and> getReplicas t2 = Inr 3 \<and> same_workload t2 ex_web \<and>
     annotation t2 originalReplicasAnnotationKey = None"
proof -
  let ?R = "Reconcile_SleepOrder (mem_env ex_tz) ''shop'' ''web-order''"
  let ?S = "(KSleepOrder, ''shop'', ''web-order'')"
  have facts: "om_deletion (ord_meta ex_never) = None" "om_deletion (ord_meta ex_always) = None"
    "target_key ''shop'' (so_TargetRef (ord_spec ex_never)) = Some (obj_key ex_web)"
    "target_key ''shop'' (so_TargetRef (ord_spec ex_always)) = Some (obj_key ex_web)"
    "obj_key (SleepOrderObj ex_never) = ?S" "obj_key (SleepOrderObj ex_always) = ?S"
    by (simp_all add: ex_never_def ex_always_def ex_order_def ex_meta_def target_key_def kindDeployment_def)
  have v: "mem_view ex_night ?S = Some (SleepOrderObj ex_never)" "stored (mem_view ex_night) ex_web"
    "mem_healthy ex_night"
    using facts(5) by (simp_all add: ex_night_def mem_view_def stored_def mem_healthy_def ex_web_facts)
  obtain r1 w1 where run1: "run_state ?R ex_night = (r1, w1)" by (cases "run_state ?R ex_night")
  define u where "u = w1\<lparr>m_objs := put (SleepOrderObj ex_always) (m_objs w1)\<rparr>"
  obtain r2 w2 where run2: "run_state ?R u = (r2, w2)" by (cases "run_state ?R u")
  have "mem_healthy w1"
    using wp_run [OF mem.wp_Reconcile_ok [OF v(3,1) facts(1,3) v(2)] run1] by (simp add: ex_web_facts)
  then have hu: "mem_healthy u" by (simp add: u_def)
  have vu: "mem_view u = (mem_view w1)(?S \<mapsto> SleepOrderObj ex_always)"
    using facts(6) by (simp add: u_def)
  have "\<exists>t1 t2. mem_view w1 (obj_key ex_web) = Some t1 \<and> getReplicas t1 = Inr 0 \<and>
     mem_view w2 (obj_key ex_web) = Some t2 \<and> getReplicas t2 = Inr 3 \<and> same_workload t2 ex_web \<and>
     annotation t2 originalReplicasAnnotationKey = None"
    by (rule sleep_wake_roundtrip [OF mem.healthy_controllers_axioms v(3) hu v(1) facts(1,3) v(2) _ _ _
          run1 ex_never_state _ facts(2,4) _ run2 ex_always_state])
      (simp_all add: ex_web_facts vu)
  then show ?thesis using run1 run2 by (auto simp: u_def)
qed

section \<open>Deletion\<close>

text \<open>
  C10: in a healthy world, one reconciliation of an order that is being deleted and carries the finalizer
  ends without error and without asking to be called again, if its schedule can be read, its target exists
  and is not being deleted, and the target has a replica count to go back to, in the annotation if it has
  0 replicas.  It wakes the target (a sleeping target gets its count back and loses the annotation, a
  running one is left alone) and takes the finalizer off, so that the order goes away when no other
  finalizer is left.
\<close>

theorem Reconcile_deletion:
  assumes "healthy_controllers E V H C" and "H w"
    and "V w (KSleepOrder, ns, n) = Some (SleepOrderObj so)"
    and "om_deletion (ord_meta so) \<noteq> None" and "sleepOrderFinalizer \<in> set (om_finalizers (ord_meta so))"
    and "target_key ns (so_TargetRef (ord_spec so)) = Some (obj_key t)"
    and "stored (V w) t" and "remembered t \<noteq> None"
    and "getReplicas t = Inr 0 \<Longrightarrow> annotation t originalReplicasAnnotationKey \<noteq> None"
    and "\<And>now. C w \<le> now \<Longrightarrow> \<exists>s. order_state E so now = Inr s"
    and "run_state (Reconcile_SleepOrder E ns n) w = (r, w')"
  shows "r = (empty_result, None) \<and>
    (\<exists>t' x. settled False t t' \<and> dismissed so x \<and> V w' = (V w)(obj_key t \<mapsto> t', (KSleepOrder, ns, n) := x))"
  using wp_run [OF healthy_controllers.wp_Reconcile_delete [OF assms(1-10)] assms(11)] by simp

text \<open>A workload put to sleep with 3 replicas, and its order under deletion.\<close>

definition ex_slept :: client_object where
  "ex_slept = Deployment \<lparr>wl_meta = (ex_meta ''web'')\<lparr>om_annotations :=
       Some (fmap_of_list [(''rev'', ''1''), (originalReplicasAnnotationKey, ''3'')])\<rparr>,
     wl_replicas = Some 0, wl_rest = ''nginx''\<rparr>"

definition ex_leaving :: sleep_order where
  "ex_leaving = ex_never\<lparr>ord_meta := (ord_meta ex_order)
     \<lparr>om_deletion := Some 1, om_finalizers := [sleepOrderFinalizer]\<rparr>\<rparr>"

definition ex_farewell :: mem where
  "ex_farewell = ex_mem ex_evening [] [SleepOrderObj ex_leaving, ex_slept]"

lemma ex_slept_facts:
  "getReplicas ex_slept = Inr 0" "annotation ex_slept originalReplicasAnnotationKey = Some ''3''"
  "remembered ex_slept = Some 3" "is_workload ex_slept" "om_deletion (obj_meta ex_slept) = None"
  "obj_key ex_slept = (KDeployment, ''shop'', ''web'')"
proof -
  show a: "annotation ex_slept originalReplicasAnnotationKey = Some ''3''"
    by (simp add: ex_slept_def annotation_def fmlookup_of_list originalReplicasAnnotationKey_def)
  have "Atoi ''3'' = Some 3" by code_simp
  then show "remembered ex_slept = Some 3" by (simp add: remembered_def a)
qed (simp_all add: ex_slept_def ex_meta_def is_workload_def)

lemma ex_leaving_facts:
  "obj_key (SleepOrderObj ex_leaving) = (KSleepOrder, ''shop'', ''web-order'')"
  "om_deletion (ord_meta ex_leaving) = Some 1" "om_finalizers (ord_meta ex_leaving) = [sleepOrderFinalizer]"
  "target_key ''shop'' (so_TargetRef (ord_spec ex_leaving)) = Some (obj_key ex_slept)"
  "order_state (mem_env ex_tz) ex_leaving x = order_state (mem_env ex_tz) ex_never x"
  by (simp_all add: ex_leaving_def ex_never_def ex_order_def ex_meta_def target_key_def
      kindDeployment_def ex_slept_facts order_state_def)

theorem Reconcile_deletion_witness:
  "\<exists>w' t'. w' = snd (run_state (Reconcile_SleepOrder (mem_env ex_tz) ''shop'' ''web-order'') ex_farewell) \<and>
     mem_view w' (obj_key ex_slept) = Some t' \<and> getReplicas t' = Inr 3 \<and>
     mem_view w' (KSleepOrder, ''shop'', ''web-order'') = None"
proof -
  let ?R = "Reconcile_SleepOrder (mem_env ex_tz) ''shop'' ''web-order''"
  obtain r w' where run: "run_state ?R ex_farewell = (r, w')" by (cases "run_state ?R ex_farewell")
  have v: "mem_view ex_farewell (KSleepOrder, ''shop'', ''web-order'') = Some (SleepOrderObj ex_leaving)"
    "stored (mem_view ex_farewell) ex_slept" "mem_healthy ex_farewell"
    using ex_leaving_facts(1)
    by (simp_all add: ex_farewell_def mem_view_def stored_def mem_healthy_def ex_slept_facts)
  have "\<exists>s. order_state (mem_env ex_tz) ex_leaving x = Inr s" for x
    using ex_never_state [of x] by (auto simp: ex_leaving_facts)
  then have "\<exists>t' x. settled False ex_slept t' \<and> dismissed ex_leaving x \<and>
      mem_view w' = (mem_view ex_farewell)(obj_key ex_slept \<mapsto> t', (KSleepOrder, ''shop'', ''web-order'') := x)"
    using Reconcile_deletion [OF mem.healthy_controllers_axioms v(3,1) _ _ ex_leaving_facts(4) v(2) _ _ _ run]
    by (simp add: ex_leaving_facts ex_slept_facts)
  then obtain t' x where "settled False ex_slept t'" "x = None"
      "mem_view w' = (mem_view ex_farewell)(obj_key ex_slept \<mapsto> t', (KSleepOrder, ''shop'', ''web-order'') := x)"
    by (auto simp: dismissed_def ex_leaving_facts)
  moreover from this have "getReplicas t' = Inr 3"
    using settled_awake [of ex_slept t' 3] by (simp add: ex_slept_facts)
  ultimately show ?thesis using run by (auto simp: ex_slept_facts)
qed

text \<open>
  C11: a replica count is lost.  In a healthy world, and with a library that tries at least twice, an
  order under deletion has a sleeping target, so that the closure has captured 0 replicas.  Its first
  attempt wakes the target and then meets a conflict, so the order still carries the finalizer; the target
  now has its \<open>k\<close> replicas back, the controller's annotation is gone, and other annotations are left.  The
  second attempt finds no annotation and scales the target to 0.  The finalizer goes off and the run stops
  without error: the workload is left with 0 replicas and no annotation, and \<open>k\<close> is written nowhere.
  (Without any other annotation the second attempt fails instead.)
\<close>

theorem deletion_retry_loses_replicas:
  assumes "healthy_controllers E V H C"
    and "x_RetryOnConflict E = retry_n (Suc n)"
    and first: "run_state (finalizerAttempt E 0 (so, t0, False)) w0 = ((Some (ApiErr Conflict), so1, t, stop), w)"
    and "H w" and "V w (order_key so1) = Some (SleepOrderObj cur)"
    and "om_deletion (ord_meta cur) \<noteq> None" and "sleepOrderFinalizer \<in> set (om_finalizers (ord_meta cur))"
    and "order_key so1 \<noteq> obj_key t" and "stored (V w) t" and "getReplicas t = Inr k" and "k \<noteq> 0"
    and "annotation t originalReplicasAnnotationKey = None" and "om_annotations (obj_meta t) \<noteq> None"
    and run: "run_state (handleFinalizer E so t0 0) w0 = (((shouldStop, err), so2, t2), w')"
  shows "shouldStop \<and> err = None \<and> remembered t = Some k \<and> (\<exists>t' x. V w' = (V w)(obj_key t \<mapsto> t', order_key so1 := x) \<and>
    dismissed cur x \<and> same_workload t' t \<and> getReplicas t' = Inr 0 \<and>
    annotation t' originalReplicasAnnotationKey = None \<and> remembered t' = Some 0)"
proof -
  define lost where "lost = (\<lambda>w'. \<exists>t' x. V w' = (V w)(obj_key t \<mapsto> t', order_key so1 := x) \<and>
    dismissed cur x \<and> same_workload t' t \<and> getReplicas t' = Inr 0 \<and>
    annotation t' originalReplicasAnnotationKey = None)"
  let ?Q = "\<lambda>r w'. (\<exists>so2 t'. r = (None, so2, t', True)) \<and> lost w'"
  note attempt = healthy_controllers.wp_finalizerAttempt_bare [OF assms(1,4,5,6,7,8,9,12,13)]
  have "wp (finalizerAttempt E 0 (so1, t, stop)) ?Q w"
    by (rule wp_mono [OF attempt]) (unfold lost_def, blast)
  then have "wp (retry_n n (finalizerAttempt E 0) (so1, t, stop)) ?Q w"
    by (intro retry_n_first) (auto elim!: wp_mono)
  then have "wp (retry_n (Suc n) (finalizerAttempt E 0) (so, t0, False)) ?Q w0"
    by (simp add: wp_eqI [OF first])
  then have "wp (handleFinalizer E so t0 0) (\<lambda>r w'. fst r = (True, None) \<and> lost w') w0"
    unfolding handleFinalizer_def assms(2) wp_bind by (rule wp_mono) auto
  from wp_run [OF this run] have "shouldStop" "err = None" "lost w'" by auto
  moreover have "remembered t = Some k" using assms(10,12) by (simp add: remembered_def)
  moreover have "remembered t' = Some 0" if "getReplicas t' = Inr 0" "annotation t' originalReplicasAnnotationKey = None" for t'
    using that by (simp add: remembered_def)
  ultimately show ?thesis unfolding lost_def by blast
qed

definition ex_contended :: mem where
  "ex_contended = ex_mem 0 [Fine, Fine, Fine, Fine, Concurrent] [SleepOrderObj ex_leaving, ex_slept]"

text \<open>The first attempt of the example, with its result and the world after it.\<close>

definition ex_attempt :: "(go_error option \<times> fin_state) \<times> mem" where
  "ex_attempt = run_state (finalizerAttempt (mem_env ex_tz) 0 (ex_leaving, ex_slept, False)) ex_contended"

theorem deletion_retry_loses_replicas_witness:
  "\<exists>t'. mem_view (snd (run_state (handleFinalizer (mem_env ex_tz) ex_leaving ex_slept 0) ex_contended))
     (KDeployment, ''shop'', ''web'') = Some t' \<and> remembered t' = Some 0"
proof -
  obtain e so1 t stop w where r: "ex_attempt = ((e, so1, t, stop), w)" by (cases ex_attempt) auto
  have "(case ex_attempt of ((e, so1, t, _), w) \<Rightarrow> e = Some (ApiErr Conflict) \<and> mem_healthy w \<and>
      obj_key (SleepOrderObj so1) = (KSleepOrder, ''shop'', ''web-order'') \<and> obj_key t = (KDeployment, ''shop'', ''web'') \<and>
      getReplicas t = Inr 3 \<and> annotation t originalReplicasAnnotationKey = None \<and> om_annotations (obj_meta t) \<noteq> None \<and>
      is_workload t \<and> om_deletion (obj_meta t) = None)"
    by code_simp
  note f = this [unfolded r prod.case]
  have "(case ex_attempt of ((_, _, t, _), w) \<Rightarrow> mem_view w (obj_key t) = Some t)" by code_simp
  note t = this [unfolded r prod.case]
  have "(case ex_attempt of (_, w) \<Rightarrow> (case mem_view w (KSleepOrder, ''shop'', ''web-order'') of
      Some (SleepOrderObj cur) \<Rightarrow> om_deletion (ord_meta cur) \<noteq> None \<and> sleepOrderFinalizer \<in> set (om_finalizers (ord_meta cur))
    | _ \<Rightarrow> False))"
    by code_simp
  then obtain cur where cur: "mem_view w (KSleepOrder, ''shop'', ''web-order'') = Some (SleepOrderObj cur)"
    "om_deletion (ord_meta cur) \<noteq> None" "sleepOrderFinalizer \<in> set (om_finalizers (ord_meta cur))"
    by (auto simp: r split: option.splits client_object.splits)
  have key: "order_key so1 = (KSleepOrder, ''shop'', ''web-order'')" using f by (simp add: order_key_def)
  obtain stop' err so2 t2 w' where run: "run_state (handleFinalizer (mem_env ex_tz) ex_leaving ex_slept 0) ex_contended =
      (((stop', err), so2, t2), w')" by (metis surj_pair)
  have retry: "x_RetryOnConflict (mem_env ex_tz) = retry_n (Suc 3)" by (simp add: numeral_eq_Suc)
  have "run_state (finalizerAttempt (mem_env ex_tz) 0 (ex_leaving, ex_slept, False)) ex_contended =
      ((Some (ApiErr Conflict), so1, t, stop), w)" using r f by (simp add: ex_attempt_def)
  note first = this
  have "mem_view w (order_key so1) = Some (SleepOrderObj cur)" "order_key so1 \<noteq> obj_key t"
    "stored (mem_view w) t" "(3::int32) \<noteq> 0" "mem_healthy w"
    using f t cur(1) key by (simp_all add: stored_def)
  note w = this
  have "getReplicas t = Inr 3" "annotation t originalReplicasAnnotationKey = None" "om_annotations (obj_meta t) \<noteq> None"
    using f by simp_all
  from deletion_retry_loses_replicas [OF mem.healthy_controllers_axioms retry first w(5,1) cur(2,3) w(2,3) this(1) w(4) this(2,3) run]
  have "\<exists>t' x. mem_view w' = (mem_view w)(obj_key t \<mapsto> t', order_key so1 := x) \<and> remembered t' = Some 0" by blast
  then show ?thesis using f key by (auto simp: run)
qed

section \<open>Errors\<close>

text \<open>
  C15: while the target of an order exists, a schedule that cannot be read (time zone, wake or sleep
  time) makes every reconciliation of the order fail without writing anything, whatever the other calls
  do.  This includes an order that is being deleted: its finalizer is not removed until the schedule is
  repaired or the target is gone.
\<close>

theorem bad_schedule_writes_nothing:
  assumes "controllers E V"
    and "V w (KSleepOrder, ns, n) = Some (SleepOrderObj so)"
    and "target_key ns (so_TargetRef (ord_spec so)) = Some T" and "V w T \<noteq> None"
    and "LoadLocation (x_tz E) (so_Timezone (ord_spec so)) = None \<or>
      Parse_hhmm (so_WakeAt (ord_spec so)) = None \<or> Parse_hhmm (so_SleepAt (ord_spec so)) = None"
    and "run_state (Reconcile_SleepOrder E ns n) w = (r, w')"
  shows "V w' = V w \<and> snd r \<noteq> None"
proof -
  have "\<exists>e. order_state E so x = Inl e" for x
    using assms(5)
    by (auto simp: order_state_def GetTimeState_def parseSchedule_def parseTimeToLocation_def
        split: option.splits)
  from wp_run [OF kube_api.wp_bad_schedule [OF controllers.axioms(1) [OF assms(1)] assms(2-4) this] assms(6)] show ?thesis .
qed

text \<open>The order under deletion, with the misspelt time zone \<open>UTCX\<close>.\<close>

definition ex_stuck :: mem where
  "ex_stuck = ex_mem ex_evening [] [SleepOrderObj (ex_leaving\<lparr>ord_spec := (ord_spec ex_leaving)\<lparr>so_Timezone := ''UTCX''\<rparr>\<rparr>), ex_slept]"

theorem bad_schedule_writes_nothing_witness:
  "mem_view (snd (run_state (Reconcile_SleepOrder (mem_env ex_tz) ''shop'' ''web-order'') ex_stuck)) = mem_view ex_stuck"
proof -
  let ?so = "ex_leaving\<lparr>ord_spec := (ord_spec ex_leaving)\<lparr>so_Timezone := ''UTCX''\<rparr>\<rparr>"
  have "LoadLocation ex_tz ''UTCX'' = None" by (simp add: LoadLocation_def ex_tz_def)
  moreover have "obj_key (SleepOrderObj ?so) = (KSleepOrder, ''shop'', ''web-order'')"
    using ex_leaving_facts(1) by simp
  ultimately show ?thesis
    using bad_schedule_writes_nothing [OF mem.controllers_axioms _ _ _ _ surjective_pairing,
        of ex_stuck "''shop''" "''web-order''" ?so "obj_key ex_slept"] ex_leaving_facts(4)
    by (simp add: ex_stuck_def mem_view_def)
qed

text \<open>
  An order whose target is of an unsupported kind is an error, and nothing is written.
\<close>

theorem unsupported_kind_writes_nothing:
  assumes "controllers E V"
    and "V w (KSleepOrder, ns, n) = Some (SleepOrderObj so)"
    and "tr_Kind (so_TargetRef (ord_spec so)) \<notin> {kindDeployment, kindStatefulSet}"
    and "run_state (Reconcile_SleepOrder E ns n) w = (r, w')"
  shows "V w' = V w \<and> snd r \<noteq> None"
proof -
  have "target_key ns (so_TargetRef (ord_spec so)) = None" using assms(3) by (simp add: target_key_def)
  from wp_run [OF kube_api.wp_unsupported_kind [OF controllers.axioms(1) [OF assms(1)] assms(2) this] assms(4)]
  show ?thesis .
qed

definition ex_daemon :: sleep_order where
  "ex_daemon = ex_order\<lparr>ord_spec := (ord_spec ex_order)\<lparr>so_TargetRef :=
     \<lparr>tr_APIVersion = ''apps/v1'', tr_Kind = ''DaemonSet'', tr_Name = ''web''\<rparr>\<rparr>\<rparr>"

theorem unsupported_kind_writes_nothing_witness:
  "snd (fst (run_state (Reconcile_SleepOrder (mem_env ex_tz) ''shop'' ''web-order'')
     (ex_mem ex_evening [] [SleepOrderObj ex_daemon, ex_web]))) \<noteq> None"
proof -
  have "obj_key (SleepOrderObj ex_daemon) = (KSleepOrder, ''shop'', ''web-order'')"
    by (simp add: ex_daemon_def ex_order_simps)
  moreover have "tr_Kind (so_TargetRef (ord_spec ex_daemon)) \<notin> {kindDeployment, kindStatefulSet}"
    by (simp add: ex_daemon_def kindDeployment_def kindStatefulSet_def)
  ultimately show ?thesis
    using unsupported_kind_writes_nothing [OF mem.controllers_axioms _ _ surjective_pairing,
        of "ex_mem ex_evening [] [SleepOrderObj ex_daemon, ex_web]" "''shop''" "''web-order''" ex_daemon]
    by (simp add: mem_view_def)
qed

text \<open>
  C16: in a healthy world, an order that is not being deleted and whose target does not exist gives its
  finalizer up, so that it can be deleted, reports \<open>Error TargetNotFound\<close> with the time of the next
  attempt one minute after the clock reading, and asks to be called again.
\<close>

theorem missing_target_reported:
  assumes "healthy_controllers E V H C" and "H w"
    and "V w (KSleepOrder, ns, n) = Some (SleepOrderObj so)"
    and "om_deletion (ord_meta so) = None"
    and "target_key ns (so_TargetRef (ord_spec so)) = Some T" and "V w T = None"
    and "run_state (Reconcile_SleepOrder E ns n) w = (r, w')"
  shows "\<exists>d so1 so2 next_t. r = (requeue_after d, None) \<and>
     V w' = (V w)((KSleepOrder, ns, n) \<mapsto> SleepOrderObj so2) \<and> ord_spec so1 = ord_spec so \<and>
     om_finalizers (ord_meta so1) = removeAll sleepOrderFinalizer (om_finalizers (ord_meta so)) \<and>
     C w + minute_ns \<le> t_ns next_t \<and> t_ns next_t \<le> C w' + minute_ns \<and>
     reports so1 so2 ''Error TargetNotFound'' next_t None"
  by (rule wp_run [OF healthy_controllers.wp_Reconcile_missing [OF assms(1-6)] assms(7)])

definition ex_alone :: mem where
  "ex_alone = ex_mem ex_evening [] [SleepOrderObj (ex_order\<lparr>ord_meta := (ord_meta ex_order)\<lparr>om_finalizers := [sleepOrderFinalizer]\<rparr>\<rparr>)]"

theorem missing_target_reported_witness:
  "\<exists>so2. mem_view (snd (run_state (Reconcile_SleepOrder (mem_env ex_tz) ''shop'' ''web-order'') ex_alone))
       (KSleepOrder, ''shop'', ''web-order'') = Some (SleepOrderObj so2) \<and>
     ss_CurrentState (ord_status so2) = ''Error TargetNotFound'' \<and> om_finalizers (ord_meta so2) = []"
proof -
  let ?so = "ex_order\<lparr>ord_meta := (ord_meta ex_order)\<lparr>om_finalizers := [sleepOrderFinalizer]\<rparr>\<rparr>"
  obtain r w' where run: "run_state (Reconcile_SleepOrder (mem_env ex_tz) ''shop'' ''web-order'') ex_alone = (r, w')"
    by (cases "run_state (Reconcile_SleepOrder (mem_env ex_tz) ''shop'' ''web-order'') ex_alone")
  have k: "obj_key (SleepOrderObj ?so) = (KSleepOrder, ''shop'', ''web-order'')" by (simp add: ex_order_simps)
  have v: "mem_view ex_alone (KSleepOrder, ''shop'', ''web-order'') = Some (SleepOrderObj ?so)"
    "mem_healthy ex_alone" "mem_view ex_alone (KDeployment, ''shop'', ''web'') = None"
    using k by (simp_all add: ex_alone_def mem_view_def mem_healthy_def)
  from missing_target_reported [OF mem.healthy_controllers_axioms v(2,1) _ _ v(3) run] run
  show ?thesis by (auto simp: reports_def)
qed

text \<open>
  C17: waking a workload with 0 replicas and no annotations at all fails with an error and writes
  nothing, although one with other annotations is reported awake: the answer 0 that the code gives
  when the annotation is missing is not reached when the map is nil.
\<close>

theorem wake_without_annotations_fails:
  assumes "healthy_controllers E V H C" and "H w"
    and "stored (V w) t" and "om_annotations (obj_meta t) = None"
    and "run_state (handleWake E so t 0 next_t) w = (r, w')"
  shows "r = (empty_result, Some ErrNoAnnotations) \<and> V w' = V w"
proof -
  have "wp (handleWake E so t 0 next_t) (\<lambda>r w'. r = (empty_result, Some ErrNoAnnotations) \<and> V w' = V w) w"
    unfolding handleWake_def restoreReplicas_def
    by (simp, rule healthy_controllers.wp_refresh_ok [OF assms(1-3)]) (simp add: assms(4))
  from wp_run [OF this assms(5)] show ?thesis .
qed

definition ex_bare :: client_object where
  "ex_bare = StatefulSet \<lparr>wl_meta = ex_meta ''db'', wl_replicas = Some 0, wl_rest = ''postgres''\<rparr>"

theorem wake_without_annotations_fails_witness:
  "fst (run_state (handleWake (mem_env ex_tz) ex_order ex_bare 0 ex_noon) (ex_mem 0 [] [ex_bare])) =
     (empty_result, Some ErrNoAnnotations)"
  using wake_without_annotations_fails [OF mem.healthy_controllers_axioms _ _ _ surjective_pairing,
      of "ex_mem 0 [] [ex_bare]" ex_bare ex_tz ex_order ex_noon]
  by (simp add: mem_healthy_def stored_def mem_view_def ex_bare_def ex_meta_def is_workload_def)

end
