(* ===== verification/Sleep_Order_Timed.thy ===== *)
theory Sleep_Order_Timed
  imports Sleep_Order_Props Schedule_Spec
begin

text \<open>
  An order in control of its workload over time: its runs, one after the other, with anything in
  between that leaves the two objects alone.  After each run the workload is in the state of the
  schedule, and that state stays right until the next event.
\<close>

section \<open>Sequences of runs\<close>

text \<open>
  From world \<open>w\<close> the order \<open>n\<close> of namespace \<open>ns\<close> is run any number of times; between the runs time
  passes and other objects change, but not the order nor the workload \<open>T\<close>.
\<close>

inductive controlled ::
  "'w env \<Rightarrow> ('w \<Rightarrow> view) \<Rightarrow> ('w \<Rightarrow> bool) \<Rightarrow> string \<Rightarrow> string \<Rightarrow> okey \<Rightarrow> 'w \<Rightarrow> 'w \<Rightarrow> bool"
  for E V H ns n T w where
  controlled_start: "controlled E V H ns n T w w"
| controlled_run: "controlled E V H ns n T w w1 \<Longrightarrow> run_state (Reconcile_SleepOrder E ns n) w1 = (r, w2) \<Longrightarrow>
    controlled E V H ns n T w w2"
| controlled_idle: "controlled E V H ns n T w w1 \<Longrightarrow> H w2 \<Longrightarrow>
    V w2 (KSleepOrder, ns, n) = V w1 (KSleepOrder, ns, n) \<Longrightarrow> V w2 T = V w1 T \<Longrightarrow>
    controlled E V H ns n T w w2"

text \<open>
  Between two runs: the order is stored with its specification \<open>sp\<close> and alive, its target is like \<open>t\<close>,
  and it carries the count to go back to exactly while it sleeps.
\<close>

definition sound :: "client_object \<Rightarrow> bool" where
  "sound u \<longleftrightarrow> (getReplicas u = Inr 0 \<longleftrightarrow> annotation u originalReplicasAnnotationKey \<noteq> None)"

definition in_control :: "view \<Rightarrow> string \<Rightarrow> string \<Rightarrow> sleep_order_spec \<Rightarrow> client_object \<Rightarrow> sleep_order \<Rightarrow> client_object \<Rightarrow> bool" where
  "in_control v ns n sp t so u \<longleftrightarrow>
     v (KSleepOrder, ns, n) = Some (SleepOrderObj so) \<and> ord_spec so = sp \<and> om_deletion (ord_meta so) = None \<and>
     stored v u \<and> like u t \<and> sound u"

lemma settled_sound:
  assumes st: "settled asleep t t'" and t: "is_workload t" "remembered t = Some k" "k \<noteq> 0" "sound t"
  shows "sound t' \<and> getReplicas t' = Inr (if asleep then 0 else k)"
proof (cases "\<not> asleep \<and> getReplicas t = Inr 0")
  case True
  then have "settled False t t'" "getReplicas t = Inr 0" using st by simp_all
  from settled_awake [OF this t(2)] t(3,4) True show ?thesis by (simp add: sound_def)
next
  case False
  have "getReplicas t = Inr k" if "getReplicas t \<noteq> Inr 0"
    using t that by (auto simp: remembered_def sound_def split: sum.splits)
  with False st t(4) show ?thesis by (auto simp: settled_def sound_def split: if_splits)
qed

lemma in_control_run:
  assumes c: "in_control v ns n sp t so u" and k: "remembered t = Some k" "k \<noteq> 0"
    and key: "order_key so = (KSleepOrder, ns, n)" and ne: "order_key so \<noteq> obj_key t"
    and r: "run_effect (Inr (asleep, next_t, ev)) so u v r v'"
  obtains so' u' where "in_control v' ns n sp t so' u'" "settled asleep u u'" "v' (obj_key t) = Some u'"
proof -
  from c have u: "stored v u" "like u t" "obj_key u = obj_key t" by (auto simp: in_control_def dest: like_key)
  from r obtain u' so1 so2 st m where v': "v' = v(obj_key u \<mapsto> u', order_key so \<mapsto> SleepOrderObj so2)"
    and st: "settled asleep u u'" and so: "enrolled so so1" "reports so1 so2 st next_t m"
    by (auto simp: run_effect_def)
  have rem: "remembered u = Some k" using u(2) k(1) by (simp add: like_def)
  have l: "like u' u" using st by (simp add: settled_def)
  have u': "stored v' u'"
    using u(1,3) l st v' ne same_workload_is [of u' u] like_key [OF l] by (auto simp: stored_def settled_def like_def)
  have sl: "sound u'"
    using settled_sound [OF st _ rem k(2)] c u by (auto simp: in_control_def stored_def)
  show thesis
  proof (rule that [of so2 u'])
    show "in_control v' ns n sp t so2 u'"
      using c so v' key u' sl l u(2) unfolding in_control_def
      by (auto simp: enrolled_def reports_def intro: like_trans)
    show "v' (obj_key t) = Some u'" using v' ne u(3) by auto
  qed (rule st)
qed

lemma in_control_start:
  assumes "V w (KSleepOrder, ns, n) = Some (SleepOrderObj so)" "om_deletion (ord_meta so) = None"
    and "stored (V w) t" "sound t"
  shows "in_control (V w) ns n (ord_spec so) t so t"
  using assms by (simp add: in_control_def stored_def like_refl)

section \<open>The schedule is held\<close>

text \<open>The answer of \<open>ShouldBeAsleep\<close> at instant \<open>x\<close>, as the order asks it.\<close>

definition asleep_at :: "'w env \<Rightarrow> sleep_order_spec \<Rightarrow> int \<Rightarrow> go_error + bool" where
  "asleep_at E sp x = ShouldBeAsleep (x_tz E) \<lparr>t_ns = x, t_loc = tz_local (x_tz E)\<rparr>
     (so_WakeAt sp) (so_SleepAt sp) (so_Timezone sp) (so_WorkingDays sp)"

text \<open>A specification that can be read, with two different times, in a zone of constant offset.\<close>

definition plain_schedule :: "'w env \<Rightarrow> sleep_order_spec \<Rightarrow> bool" where
  "plain_schedule E sp \<longleftrightarrow>
     (\<exists>off wk sl. LoadLocation (x_tz E) (so_Timezone sp) = Some (fixed_zone off) \<and>
        Parse_hhmm (so_WakeAt sp) = Some wk \<and> Parse_hhmm (so_SleepAt sp) = Some sl \<and>
        clock_ns wk \<noteq> clock_ns sl)"

lemma plain_schedule_state:
  assumes "plain_schedule E (ord_spec so)"
  obtains asleep next_t ev where "order_state E so now = Inr (asleep, next_t, ev)"
    and "now \<le> t_ns next_t" "t_ns next_t < now + ns_per_day"
    and "\<And>x. now \<le> x \<Longrightarrow> x < t_ns next_t \<Longrightarrow> asleep_at E (ord_spec so) x = Inr asleep"
proof -
  let ?sp = "ord_spec so" and ?t = "\<lambda>x. \<lparr>t_ns = x, t_loc = tz_local (x_tz E)\<rparr>"
  obtain off wk sl where ps: "LoadLocation (x_tz E) (so_Timezone ?sp) = Some (fixed_zone off)"
    "Parse_hhmm (so_WakeAt ?sp) = Some wk" "Parse_hhmm (so_SleepAt ?sp) = Some sl" "clock_ns wk \<noteq> clock_ns sl"
    using assms by (auto simp: plain_schedule_def)
  obtain next_t ev asleep where s: "order_state E so now = Inr (asleep, next_t, ev)"
    by (rule GetTimeState_fixed [OF ps(1-3), of "?t now" "so_WorkingDays ?sp"]) (simp add: order_state_def)
  note g = s [unfolded order_state_def]
  have W: "0 \<le> clock_ns wk" "clock_ns wk < ns_per_day" and S: "0 \<le> clock_ns sl" "clock_ns sl < ns_per_day"
    using clock_ns_range ps(2,3) by auto
  note props = next_event_props [OF W S GetTimeState_fixed_iff(2) [OF ps(1-3) g, symmetric]]
  show thesis
  proof (rule that [OF s])
    show "now \<le> t_ns next_t" "t_ns next_t < now + ns_per_day"
      using props(1,2) by (simp_all add: local_ns_def)
    show "asleep_at E ?sp x = Inr asleep" if "now \<le> x" "x < t_ns next_t" for x
      using ShouldBeAsleep_until [OF ps g, of "?t x"] that by (simp add: asleep_at_def)
  qed
qed

lemma due_bounds:
  assumes "due ev lo hi d" "lo \<le> t_ns ev" "t_ns ev < lo + ns_per_day"
  shows "t_ns ev - hi \<le> d" "d \<le> t_ns ev - lo"
  using assms by (auto simp: due_def min_int64_def max_int64_def)

text \<open>What a run leaves behind: the state of the schedule until the event it asks to be called for.\<close>

definition on_duty ::
  "'w env \<Rightarrow> sleep_order_spec \<Rightarrow> int32 \<Rightarrow> int \<Rightarrow> int \<Rightarrow> reconcile_result \<Rightarrow> client_object \<Rightarrow> bool" where
  "on_duty E sp k started ended r t' \<longleftrightarrow>
     (\<exists>now event asleep d. started \<le> now \<and> now \<le> ended \<and> now \<le> event \<and> event < now + ns_per_day \<and>
        (\<forall>x. now \<le> x \<and> x < event \<longrightarrow> asleep_at E sp x = Inr asleep) \<and>
        getReplicas t' = Inr (if asleep then 0 else k) \<and> remembered t' = Some k \<and>
        r = (requeue_after d, None) \<and> event - ended \<le> d \<and> d \<le> event - now \<and> (ended < event \<longrightarrow> 0 < d))"

context healthy_controllers
begin

lemma wp_control:
  assumes h: "H w" and c: "in_control (V w) ns n sp t so u" and ps: "plain_schedule E sp"
    and T: "target_key ns (so_TargetRef sp) = Some (obj_key t)" and k: "remembered t = Some k" "k \<noteq> 0"
  shows "wp (Reconcile_SleepOrder E ns n)
    (\<lambda>r w'. H w' \<and> (\<exists>so' u'. in_control (V w') ns n sp t so' u' \<and> V w' (obj_key t) = Some u' \<and>
      on_duty E sp k (C w) (C w') r u')) w"
proof -
  from c have so: "V w (KSleepOrder, ns, n) = Some (SleepOrderObj so)" "ord_spec so = sp" "om_deletion (ord_meta so) = None"
    and u: "stored (V w) u" "like u t" "sound u" "is_workload u"
    by (auto simp: in_control_def stored_def)
  have T': "target_key ns (so_TargetRef (ord_spec so)) = Some (obj_key u)" using T so(2) like_key [OF u(2)] by simp
  have rem: "remembered u = Some k" using u(2) k(1) by (simp add: like_def)
  have key: "order_key so = (KSleepOrder, ns, n)" using view_key [OF so(1)] by (simp add: order_key_def)
  have ne: "order_key so \<noteq> obj_key t" using target_key_ne [OF T] key by simp
  show ?thesis
  proof (rule wp_mono [OF wp_Reconcile_timed [OF h so(1,3) T' u(1)]], goal_cases)
    case (3 r w')
    then obtain now where h': "H w'" and now: "C w \<le> now" "now \<le> C w'"
      and eff: "run_effect (order_state E so now) so u (V w) r (V w')"
      and again: "called_again (order_state E so now) now (C w') r" by auto
    obtain asleep next_t ev where s: "order_state E so now = Inr (asleep, next_t, ev)"
      and ev: "now \<le> t_ns next_t" "t_ns next_t < now + ns_per_day"
      and until: "\<And>x. now \<le> x \<Longrightarrow> x < t_ns next_t \<Longrightarrow> asleep_at E (ord_spec so) x = Inr asleep"
      using plain_schedule_state [of E so now] ps so(2) by metis
    obtain so' u' where c': "in_control (V w') ns n sp t so' u'" and st: "settled asleep u u'"
      and v: "V w' (obj_key t) = Some u'"
      by (rule in_control_run [OF c k key ne eff [unfolded s]])
    obtain d where d: "r = (requeue_after d, None)" "due next_t now (C w') d"
      using again by (auto simp: called_again_def s)
    have "remembered u' = Some k" using st rem by (simp add: settled_def like_def)
    moreover have "getReplicas u' = Inr (if asleep then 0 else k)"
      using settled_sound [OF st u(4) rem k(2) u(3)] by simp
    ultimately have "on_duty E sp k (C w) (C w') r u'"
      unfolding on_duty_def
      using now ev until so(2) d(1) due_bounds [OF d(2) ev] less_le_trans [of 0 "t_ns next_t - C w'" d]
      by (intro exI [of _ now] exI [of _ "t_ns next_t"] exI [of _ asleep] exI [of _ d]) simp
    with h' c' v show ?case by blast
  qed (use rem u(3) in \<open>simp_all add: sound_def\<close>)
qed

lemma controlled_in_control:
  assumes "controlled E V H ns n (obj_key t) w w'" and h: "H w" and c: "in_control (V w) ns n sp t so u"
    and ps: "plain_schedule E sp"
    and T: "target_key ns (so_TargetRef sp) = Some (obj_key t)" and k: "remembered t = Some k" "k \<noteq> 0"
  shows "H w' \<and> (\<exists>so u. in_control (V w') ns n sp t so u)"
  using assms(1)
proof (induction rule: controlled.induct)
  case controlled_start
  show ?case using h c by blast
next
  case (controlled_run w1 r w2)
  then obtain so u where "H w1" "in_control (V w1) ns n sp t so u" by blast
  from wp_run [OF wp_control [OF this ps T k] controlled_run.hyps(2)] show ?case by blast
next
  case (controlled_idle w1 w2)
  then obtain so u where "in_control (V w1) ns n sp t so u" by blast
  then have "in_control (V w2) ns n sp t so u"
    using controlled_idle.hyps by (auto simp: in_control_def stored_def dest!: like_key)
  then show ?case using controlled_idle.hyps(2) by blast
qed

end

text \<open>
  C3: an order holds its workload to the schedule from run to run.  The world is healthy; the order is
  stored and not being deleted, its two times of day parse and are different, and its zone has a constant
  offset (\<open>plain_schedule\<close>); its target is stored, not being deleted, has a count \<open>k\<close> other than 0 to go
  back to, and carries the annotation exactly while it has 0 replicas (\<open>sound\<close>).  The order has been run
  any number of times, and between the runs nothing else changed the order or the workload.  Then a run
  leaves the workload with 0 or \<open>k\<close> replicas, as \<open>ShouldBeAsleep\<close> says at a moment of the run and at every
  moment from then until an event less than a day away.  The time after which it asks to be run again is
  the time left to that event at some moment of the run, so it is positive when the run ends before the
  event.  When the event is reached during the run, which is always so at an exact event time, it may be
  0 or less, and then the library does not run the order again by itself.
\<close>

theorem schedule_held:
  assumes "healthy_controllers E V H C" and "H w"
    and "V w (KSleepOrder, ns, n) = Some (SleepOrderObj so)" and "om_deletion (ord_meta so) = None"
    and "target_key ns (so_TargetRef (ord_spec so)) = Some (obj_key t)" and "plain_schedule E (ord_spec so)"
    and "stored (V w) t" and "remembered t = Some k" and "k \<noteq> 0" and "sound t"
    and "controlled E V H ns n (obj_key t) w w1"
    and "run_state (Reconcile_SleepOrder E ns n) w1 = (r, w2)"
  shows "\<exists>t'. V w2 (obj_key t) = Some t' \<and> same_workload t' t \<and> on_duty E (ord_spec so) k (C w1) (C w2) r t'"
proof -
  note E = assms(1)
  have start: "in_control (V w) ns n (ord_spec so) t so t"
    by (rule in_control_start [where V = V and w = w]) (use assms in simp_all)
  obtain so1 u1 where "H w1" "in_control (V w1) ns n (ord_spec so) t so1 u1"
    using healthy_controllers.controlled_in_control [OF E assms(11,2) start assms(6,5,8,9)] by blast
  from wp_run [OF healthy_controllers.wp_control [OF E this assms(6,5,8,9)] assms(12)]
  show ?thesis by (auto simp: in_control_def stored_def like_def)
qed

text \<open>An evening, a run, and the next noon.\<close>

definition ex_noon_after :: mem where
  "ex_noon_after =
     (snd (run_state (Reconcile_SleepOrder (mem_env ex_tz) ''shop'' ''web-order'') ex_calm))
       \<lparr>m_clock := ex_day + 86400000000000\<rparr>"

lemma ex_plain: "plain_schedule (mem_env ex_tz) (ord_spec ex_order)"
  using ex_utc ex_0800 ex_2000 ex_clocks_neq unfolding plain_schedule_def
  by (simp add: ex_order_def) blast

theorem schedule_held_witness:
  "\<exists>t' r w'. run_state (Reconcile_SleepOrder (mem_env ex_tz) ''shop'' ''web-order'') ex_noon_after = (r, w') \<and>
     mem_view w' (KDeployment, ''shop'', ''web'') = Some t' \<and>
     on_duty (mem_env ex_tz) (ord_spec ex_order) 3 (ex_day + 86400000000000) (m_clock w') r t'"
proof -
  let ?E = "mem_env ex_tz" and ?C = "controlled (mem_env ex_tz) mem_view mem_healthy ''shop'' ''web-order''"
  let ?w1 = "snd (run_state (Reconcile_SleepOrder ?E ''shop'' ''web-order'') ex_calm)"
  have sound: "sound ex_web" by (simp add: sound_def ex_web_facts)
  have T: "target_key ''shop'' (so_TargetRef (ord_spec ex_order)) = Some (obj_key ex_web)" by simp
  have three: "(3::int32) \<noteq> 0" by simp
  have run: "?C (obj_key ex_web) ex_calm ?w1"
    by (rule controlled_run [OF controlled_start surjective_pairing])
  have "in_control (mem_view ex_calm) ''shop'' ''web-order'' (ord_spec ex_order) ex_web ex_order ex_web"
    by (rule in_control_start [where V = mem_view and w = ex_calm, OF ex_calm_view(1) ex_keys(3) ex_calm_view(2) sound])
  then have "mem_healthy ?w1"
    using mem.controlled_in_control [OF run ex_calm_view(3) _ ex_plain T ex_web_facts(3) three] by blast
  then have "?C (obj_key ex_web) ex_calm ex_noon_after"
    by (intro controlled_idle [OF run]) (simp_all add: ex_noon_after_def mem_healthy_def mem_view_def)
  note ok = schedule_held [OF mem.healthy_controllers_axioms ex_calm_view(3,1) ex_keys(3) T ex_plain
      ex_calm_view(2) ex_web_facts(3) three sound this]
  obtain r w' where r: "run_state (Reconcile_SleepOrder ?E ''shop'' ''web-order'') ex_noon_after = (r, w')"
    by (cases "run_state (Reconcile_SleepOrder ?E ''shop'' ''web-order'') ex_noon_after")
  have "m_clock ex_noon_after = ex_day + 86400000000000" by (simp add: ex_noon_after_def)
  with ok [OF r] r show ?thesis unfolding ex_keys(1) by metis
qed

section \<open>At an event\<close>

text \<open>
  C39: at an exact wake or sleep time the event that \<open>GetTimeState\<close> announces is the present moment, so
  the time left to it, which the caller takes a moment later and asks to wait, is never positive.
\<close>

theorem event_time_not_awaited:
  assumes "LoadLocation tz timezone = Some (fixed_zone off)"
    and "Parse_hhmm wakeAt = Some wk" and "Parse_hhmm sleepAt = Some sl"
    and "is_event (clock_ns wk) (clock_ns sl) (local_ns off now)"
    and "GetTimeState tz now wakeAt sleepAt timezone wd = Inr (asleep, next_t, ev)"
    and "t_ns now \<le> t_ns later"
  shows "t_ns next_t = t_ns now \<and> Sub next_t later \<le> 0"
proof -
  have W: "0 \<le> clock_ns wk" "clock_ns wk < ns_per_day" and S: "0 \<le> clock_ns sl" "clock_ns sl < ns_per_day"
    using clock_ns_range assms(2,3) by auto
  note props = next_event_props [OF W S GetTimeState_fixed_iff(2) [OF assms(1-3,5), symmetric]]
  have "local_ns off next_t = local_ns off now"
    using props(1) props(4) [of "local_ns off now"] assms(4) by fastforce
  then have "t_ns next_t = t_ns now" by (simp add: local_ns_def)
  with assms(6) show ?thesis by (simp add: Sub_def min_int64_def max_int64_def)
qed

definition ex_eight :: time where "ex_eight = ex_noon\<lparr>t_ns := 1764014400000000000\<rparr>"

theorem event_time_not_awaited_witness:
  "\<exists>asleep next_t ev. GetTimeState ex_tz ex_eight ''08:00'' ''20:00'' ''UTC'' ''Monday-Friday'' = Inr (asleep, next_t, ev) \<and>
     t_ns next_t = t_ns ex_eight"
proof (rule GetTimeState_fixed [OF ex_utc ex_0800 ex_2000, of ex_eight "''Monday-Friday''"])
  fix next_t ev
  let ?a = "\<not> awake_state (day_works ''Monday-Friday'') (clock_ns (Date 0 1 1 8 0 0 0 utc))
    (clock_ns (Date 0 1 1 20 0 0 0 utc)) (local_ns 0 ex_eight)"
  assume g: "GetTimeState ex_tz ex_eight ''08:00'' ''20:00'' ''UTC'' ''Monday-Friday'' = Inr (?a, next_t, ev)"
  have "is_event (clock_ns (Date 0 1 1 8 0 0 0 utc)) (clock_ns (Date 0 1 1 20 0 0 0 utc)) (local_ns 0 ex_eight)"
    by (simp add: ex_clocks ex_local is_event_def ex_eight_def)
  from event_time_not_awaited [OF ex_utc ex_0800 ex_2000 this g order_refl] g
  show ?thesis by blast
qed

end
