(* ===== verification/Config.thy ===== *)
theory Config
  imports Go_Strings Go_Time
begin

text \<open>
  \<open>internal/config/config.go\<close>: the configuration, read from environment variables.  The environment
  is a function from names to values, \<open>os.Getenv\<close>; a variable that is not set reads as the empty
  string.
\<close>

section \<open>The configuration\<close>

record namespace_config =
  nc_DelaySeconds :: int
  nc_ExcludedNamespaces :: "string list"
  nc_TTLEnabled :: bool
  nc_ExpirationTTLInDays :: int

record config =
  cf_DefaultWakeAt :: string
  cf_DefaultSleepAt :: string
  cf_DefaultTimezone :: string
  cf_NamespaceConfig :: namespace_config
  cf_Weekend :: string
  cf_ExcludeWeekend :: bool
  cf_DefaultPolicyEnabled :: bool

definition DefaultWakeAt :: string where "DefaultWakeAt = ''08:00''"
definition DefaultSleepAt :: string where "DefaultSleepAt = ''20:00''"
definition DefaultTimezone :: string where "DefaultTimezone = ''UTC''"
definition DefaultWeekend :: string where "DefaultWeekend = ''''"
definition DefaultExcludeWeekend :: bool where "DefaultExcludeWeekend = False"
definition DefaultPolicyEnabled :: bool where "DefaultPolicyEnabled = False"
definition DefaultNamespaceDelaySeconds :: int where "DefaultNamespaceDelaySeconds = 20"
definition DefaultNamespaceTTLEnabled :: bool where "DefaultNamespaceTTLEnabled = False"
definition DefaultNamespaceExpirationTTLInDays :: int where "DefaultNamespaceExpirationTTLInDays = 30"

definition DefaultExcludedNamespaces :: "string list" where
  "DefaultExcludedNamespaces =
     [''kube-system'', ''kube-public'', ''kube-node-lease'', ''local-path-storage'']"

section \<open>Reading the environment\<close>

type_synonym environment = "string \<Rightarrow> string"

definition getEnvStrOrDefault :: "environment \<Rightarrow> string \<Rightarrow> string \<Rightarrow> string" where
  "getEnvStrOrDefault env key defaultValue =
     (let value = env key in if value \<noteq> '''' then value else defaultValue)"

definition getEnvIntOrDefault :: "environment \<Rightarrow> string \<Rightarrow> int \<Rightarrow> int" where
  "getEnvIntOrDefault env key defaultValue =
     (let value = env key in
      if value \<noteq> '''' then (case Atoi value of Some intValue \<Rightarrow> intValue | None \<Rightarrow> defaultValue)
      else defaultValue)"

definition getEnvStringSliceOrDefault :: "environment \<Rightarrow> string \<Rightarrow> string list \<Rightarrow> string list" where
  "getEnvStringSliceOrDefault env key defaultValue =
     (let value = env key in if value \<noteq> '''' then Split CHR '','' value else defaultValue)"

definition getEnvBoolOrDefault :: "environment \<Rightarrow> string \<Rightarrow> bool \<Rightarrow> bool" where
  "getEnvBoolOrDefault env key defaultValue =
     (let value = env key in
      if value \<noteq> '''' then (case ParseBool value of Some boolValue \<Rightarrow> boolValue | None \<Rightarrow> defaultValue)
      else defaultValue)"

definition Load :: "environment \<Rightarrow> config" where
  "Load env =
     (let nc = \<lparr>nc_DelaySeconds = getEnvIntOrDefault env ''SLEEPOD_NAMESPACE_DELAY_SECONDS'' DefaultNamespaceDelaySeconds,
            nc_ExcludedNamespaces = getEnvStringSliceOrDefault env ''SLEEPOD_EXCLUDED_NAMESPACES'' DefaultExcludedNamespaces,
            nc_TTLEnabled = getEnvBoolOrDefault env ''SLEEPOD_NAMESPACE_TTL_ENABLED'' DefaultNamespaceTTLEnabled,
            nc_ExpirationTTLInDays = getEnvIntOrDefault env ''SLEEPOD_NAMESPACE_EXPIRATION_TTL_IN_DAYS'' DefaultNamespaceExpirationTTLInDays\<rparr>;
          cfg = \<lparr>cf_DefaultWakeAt = getEnvStrOrDefault env ''SLEEPOD_DEFAULT_WAKE_AT'' DefaultWakeAt,
            cf_DefaultSleepAt = getEnvStrOrDefault env ''SLEEPOD_DEFAULT_SLEEP_AT'' DefaultSleepAt,
            cf_DefaultTimezone = getEnvStrOrDefault env ''SLEEPOD_DEFAULT_TIMEZONE'' DefaultTimezone,
            cf_NamespaceConfig = nc,
            cf_Weekend = getEnvStrOrDefault env ''SLEEPOD_WEEKEND'' DefaultWeekend,
            cf_ExcludeWeekend = getEnvBoolOrDefault env ''SLEEPOD_EXCLUDE_WEEKEND'' DefaultExcludeWeekend,
            cf_DefaultPolicyEnabled = getEnvBoolOrDefault env ''SLEEPOD_DEFAULT_POLICY_ENABLED'' DefaultPolicyEnabled\<rparr>;
          ns = env ''SLEEPOD_NAMESPACE''
      in if ns \<noteq> '''' then
           cfg\<lparr>cf_NamespaceConfig := nc\<lparr>nc_ExcludedNamespaces := nc_ExcludedNamespaces nc @ [ns]\<rparr>\<rparr>
         else cfg)"

definition IsNamespaceExcludedFromConfig :: "config \<Rightarrow> string \<Rightarrow> bool" where
  "IsNamespaceExcludedFromConfig c ns =
     list_ex (\<lambda>excluded. excluded = ns) (nc_ExcludedNamespaces (cf_NamespaceConfig c))"

text \<open>\<open>time.Duration(n) * time.Second\<close> is a 64-bit product.\<close>

definition GetNamespaceDelay :: "config \<Rightarrow> int" where
  "GetNamespaceDelay c = wrap64 (nc_DelaySeconds (cf_NamespaceConfig c) * ns_per_sec)"

section \<open>Properties\<close>

lemma Load_simps:
  "cf_DefaultWakeAt (Load env) = getEnvStrOrDefault env ''SLEEPOD_DEFAULT_WAKE_AT'' DefaultWakeAt"
  "cf_DefaultSleepAt (Load env) = getEnvStrOrDefault env ''SLEEPOD_DEFAULT_SLEEP_AT'' DefaultSleepAt"
  "cf_DefaultTimezone (Load env) = getEnvStrOrDefault env ''SLEEPOD_DEFAULT_TIMEZONE'' DefaultTimezone"
  "nc_DelaySeconds (cf_NamespaceConfig (Load env)) =
     getEnvIntOrDefault env ''SLEEPOD_NAMESPACE_DELAY_SECONDS'' DefaultNamespaceDelaySeconds"
  by (simp_all add: Load_def Let_def)

text \<open>
  The namespaces excluded by the loaded configuration are the comma-separated entries of
  \<open>SLEEPOD_EXCLUDED_NAMESPACES\<close>, taken literally with their spaces, or the four defaults when it is
  empty, and in any case the namespace the controller itself runs in.
\<close>

theorem Load_excluded:
  "IsNamespaceExcludedFromConfig (Load env) ns \<longleftrightarrow>
     ns \<in> set (if env ''SLEEPOD_EXCLUDED_NAMESPACES'' = '''' then DefaultExcludedNamespaces
               else Split CHR '','' (env ''SLEEPOD_EXCLUDED_NAMESPACES'')) \<or>
     (ns = env ''SLEEPOD_NAMESPACE'' \<and> ns \<noteq> '''')"
  by (auto simp: IsNamespaceExcludedFromConfig_def Load_def Let_def list_ex_iff
      getEnvStringSliceOrDefault_def)

text \<open>
  Whatever the environment, the default times and zone of the loaded configuration are never
  empty and the delay fits a 64-bit integer; with the delay unset or not a number, it is 20 seconds.
\<close>

theorem Load_total:
  "cf_DefaultWakeAt (Load env) \<noteq> '''' \<and> cf_DefaultSleepAt (Load env) \<noteq> '''' \<and>
   cf_DefaultTimezone (Load env) \<noteq> '''' \<and>
   min_int64 \<le> nc_DelaySeconds (cf_NamespaceConfig (Load env)) \<and>
   nc_DelaySeconds (cf_NamespaceConfig (Load env)) \<le> max_int64 \<and>
   (Atoi (env ''SLEEPOD_NAMESPACE_DELAY_SECONDS'') = None \<longrightarrow> GetNamespaceDelay (Load env) = 20 * ns_per_sec)"
proof -
  have "min_int64 \<le> getEnvIntOrDefault env k 20 \<and> getEnvIntOrDefault env k 20 \<le> max_int64" for k
    by (auto simp: getEnvIntOrDefault_def Let_def min_int64_def max_int64_def split: option.splits
        dest!: Atoi_range)
  moreover have "getEnvIntOrDefault env k 20 = 20" if "Atoi (env k) = None" for k
    using that by (simp add: getEnvIntOrDefault_def Let_def)
  ultimately show ?thesis
    by (simp add: Load_simps GetNamespaceDelay_def getEnvStrOrDefault_def Let_def DefaultWakeAt_def
        DefaultSleepAt_def DefaultTimezone_def DefaultNamespaceDelaySeconds_def)
qed

theorem Load_total_witness:
  "GetNamespaceDelay (Load (\<lambda>k. if k = ''SLEEPOD_NAMESPACE_DELAY_SECONDS'' then ''soon'' else '''')) = 20000000000"
proof -
  have "Atoi ''soon'' = None" by code_simp
  then show ?thesis
    using Load_total [of "\<lambda>k. if k = ''SLEEPOD_NAMESPACE_DELAY_SECONDS'' then ''soon'' else ''''"] by simp
qed

text \<open>
  C18: the namespace delay is the configured number of seconds when that fits the 64-bit duration,
  that is up to about 292 years, and wraps around beyond: one more second gives a negative delay,
  with which every namespace counts as old enough.
\<close>

theorem GetNamespaceDelay_range:
  "(\<bar>nc_DelaySeconds (cf_NamespaceConfig c)\<bar> \<le> 9223372036 \<longrightarrow>
      GetNamespaceDelay c = nc_DelaySeconds (cf_NamespaceConfig c) * ns_per_sec) \<and>
   (nc_DelaySeconds (cf_NamespaceConfig c) = 9223372037 \<longrightarrow> GetNamespaceDelay c < 0)"
proof -
  have "wrap64 (s * ns_per_sec) = s * ns_per_sec" if "\<bar>s\<bar> \<le> 9223372036" for s
    by (rule wrap64_id) (use that in simp_all)
  then show ?thesis by (simp add: GetNamespaceDelay_def wrap64_def)
qed

definition ex_delay :: "int \<Rightarrow> config" where
  "ex_delay s = (Load (\<lambda>_. []))\<lparr>cf_NamespaceConfig := \<lparr>nc_DelaySeconds = s, nc_ExcludedNamespaces = [],
     nc_TTLEnabled = False, nc_ExpirationTTLInDays = 30\<rparr>\<rparr>"

theorem GetNamespaceDelay_range_witness:
  "GetNamespaceDelay (ex_delay 60) = 60000000000 \<and> GetNamespaceDelay (ex_delay 9223372037) < 0"
  using GetNamespaceDelay_range [of "ex_delay 60"] GetNamespaceDelay_range [of "ex_delay 9223372037"]
  by (simp add: ex_delay_def)

end
