(* ===== verification/Config_Hash.thy ===== *)
theory Config_Hash
  imports Api_Types
begin

unbundle bit_operations_syntax

text \<open>
  \<open>internal/config/utils/utils.go\<close>: the hash that tells whether a SleepOrder was made from the
  current parameters.  MD5 is the one of \<open>crypto/md5\<close>, on bytes; a character of a string stands for a
  byte.  The configuration is printed with \<open>%v\<close>: the fields of the struct, in order, separated by
  spaces, between braces.
\<close>

section \<open>MD5\<close>

type_synonym word32 = "32 word"

definition md5_K :: "word32 list" where
  "md5_K =
     [0xd76aa478, 0xe8c7b756, 0x242070db, 0xc1bdceee, 0xf57c0faf, 0x4787c62a, 0xa8304613, 0xfd469501,
      0x698098d8, 0x8b44f7af, 0xffff5bb1, 0x895cd7be, 0x6b901122, 0xfd987193, 0xa679438e, 0x49b40821,
      0xf61e2562, 0xc040b340, 0x265e5a51, 0xe9b6c7aa, 0xd62f105d, 0x02441453, 0xd8a1e681, 0xe7d3fbc8,
      0x21e1cde6, 0xc33707d6, 0xf4d50d87, 0x455a14ed, 0xa9e3e905, 0xfcefa3f8, 0x676f02d9, 0x8d2a4c8a,
      0xfffa3942, 0x8771f681, 0x6d9d6122, 0xfde5380c, 0xa4beea44, 0x4bdecfa9, 0xf6bb4b60, 0xbebfbc70,
      0x289b7ec6, 0xeaa127fa, 0xd4ef3085, 0x04881d05, 0xd9d4d039, 0xe6db99e5, 0x1fa27cf8, 0xc4ac5665,
      0xf4292244, 0x432aff97, 0xab9423a7, 0xfc93a039, 0x655b59c3, 0x8f0ccc92, 0xffeff47d, 0x85845dd1,
      0x6fa87e4f, 0xfe2ce6e0, 0xa3014314, 0x4e0811a1, 0xf7537e82, 0xbd3af235, 0x2ad7d2bb, 0xeb86d391]"

definition md5_S :: "nat list" where
  "md5_S =
     [7, 12, 17, 22, 7, 12, 17, 22, 7, 12, 17, 22, 7, 12, 17, 22,
      5, 9, 14, 20, 5, 9, 14, 20, 5, 9, 14, 20, 5, 9, 14, 20,
      4, 11, 16, 23, 4, 11, 16, 23, 4, 11, 16, 23, 4, 11, 16, 23,
      6, 10, 15, 21, 6, 10, 15, 21, 6, 10, 15, 21, 6, 10, 15, 21]"

definition rotl32 :: "nat \<Rightarrow> word32 \<Rightarrow> word32" where
  "rotl32 n x = (push_bit n x OR drop_bit (32 - n) x)"

type_synonym md5_state = "word32 \<times> word32 \<times> word32 \<times> word32"

text \<open>One of the 64 steps on a block of 16 words.\<close>

definition md5_step :: "word32 list \<Rightarrow> nat \<Rightarrow> md5_state \<Rightarrow> md5_state" where
  "md5_step M i s =
     (case s of (a, b, c, d) \<Rightarrow>
       let (f, g) =
         (if i < 16 then ((b AND c) OR ((NOT b) AND d), i)
          else if i < 32 then ((d AND b) OR ((NOT d) AND c), (5 * i + 1) mod 16)
          else if i < 48 then (b XOR c XOR d, (3 * i + 5) mod 16)
          else (c XOR (b OR NOT d), (7 * i) mod 16))
       in (d, b + rotl32 (md5_S ! i) (f + a + md5_K ! i + M ! g), b, c))"

definition md5_block :: "md5_state \<Rightarrow> word32 list \<Rightarrow> md5_state" where
  "md5_block s M =
     (case s of (a, b, c, d) \<Rightarrow>
        case fold (md5_step M) [0..<64] s of (a', b', c', d') \<Rightarrow> (a + a', b + b', c + c', d + d'))"

definition le_bytes :: "nat \<Rightarrow> int \<Rightarrow> int list" where
  "le_bytes n x = map (\<lambda>i. x div 256 ^ i mod 256) [0..<n]"

definition le_word :: "int list \<Rightarrow> word32" where
  "le_word bs = of_int (foldr (\<lambda>b acc. b + 256 * acc) bs 0)"

text \<open>Padding to a multiple of 64 bytes, with the length in bits at the end.\<close>

definition md5_pad :: "int list \<Rightarrow> int list" where
  "md5_pad bs =
     bs @ [128] @ replicate ((119 - length bs mod 64) mod 64) 0 @ le_bytes 8 (8 * int (length bs))"

fun chunks :: "nat \<Rightarrow> nat \<Rightarrow> 'a list \<Rightarrow> 'a list list" where
  "chunks 0 n xs = []"
| "chunks (Suc k) n xs = take n xs # chunks k n (drop n xs)"

definition md5_Sum :: "int list \<Rightarrow> int list" where
  "md5_Sum bs =
     (let p = md5_pad bs;
          blocks = map (\<lambda>b. map le_word (chunks 16 4 b)) (chunks (length p div 64) 64 p)
      in case fold (\<lambda>M s. md5_block s M) blocks (0x67452301, 0xefcdab89, 0x98badcfe, 0x10325476) of
           (a, b, c, d) \<Rightarrow> concat (map (\<lambda>w. le_bytes 4 (uint w)) [a, b, c, d]))"

section \<open>The configuration hash\<close>

definition hex_digit :: "int \<Rightarrow> char" where
  "hex_digit n = char_of (if n < 10 then 48 + n else 87 + n)"

definition EncodeToString :: "int list \<Rightarrow> string" where
  "EncodeToString bs = concat (map (\<lambda>b. [hex_digit (b div 16), hex_digit (b mod 16)]) bs)"

definition hashCalc :: "string \<Rightarrow> string" where
  "hashCalc input = EncodeToString (take 6 (md5_Sum (map of_char input)))"

text \<open>\<open>fmt.Sprintf("%v", config)\<close>.\<close>

definition Sprint_config :: "resource_sleep_params \<Rightarrow> string" where
  "Sprint_config c =
     ''{'' @ Join
       [rp_Name c, rp_Namespace c, rp_Kind c, rp_SleepAt c, rp_WakeAt c, rp_Timezone c, rp_WorkingDays c] '' ''
     @ ''}''"

definition ConfigHashCalc :: "resource_sleep_params \<Rightarrow> string" where
  "ConfigHashCalc config = hashCalc (Sprint_config config)"

section \<open>Properties\<close>

text \<open>Test vectors of RFC 1321, the second one of two blocks.\<close>

lemma md5_test_abc: "hashCalc ''abc'' = ''900150983cd2''"
  by code_simp

lemma md5_test_two_blocks:
  "hashCalc ''12345678901234567890123456789012345678901234567890123456789012345678901234567890'' = ''57edf4a22be3''"
  by code_simp

lemma length_le_bytes [simp]: "length (le_bytes n x) = n"
  by (simp add: le_bytes_def)

lemma le_bytes_range: "b \<in> set (le_bytes n x) \<Longrightarrow> 0 \<le> b \<and> b < 256"
  by (auto simp: le_bytes_def)

text \<open>Padding fills whole blocks, and the blocks are the padded message.\<close>

lemma md5_pad_length: "64 dvd length (md5_pad bs)"
proof -
  let ?m = "length bs mod 64"
  have "?m < 64" by simp
  then have "(?m + 1 + (119 - ?m) mod 64 + 8) mod 64 = 0"
    by (cases "?m \<le> 55") (auto simp: mod_if [of "119 - ?m" 64])
  moreover have "length (md5_pad bs) = length bs + (1 + (119 - ?m) mod 64 + 8)"
    by (simp add: md5_pad_def)
  ultimately show ?thesis
    by (metis (no_types, opaque_lifting) add.assoc mod_0_imp_dvd mod_add_left_eq)
qed

lemma concat_chunks: "length xs = k * n \<Longrightarrow> concat (chunks k n xs) = xs"
  by (induction k n xs rule: chunks.induct) auto

lemma md5_Sum_bytes: "length (md5_Sum bs) = 16 \<and> (\<forall>b \<in> set (md5_Sum bs). 0 \<le> b \<and> b < 256)"
  by (auto simp: md5_Sum_def Let_def split: prod.splits dest: le_bytes_range)

definition is_hex :: "char \<Rightarrow> bool" where
  "is_hex c \<longleftrightarrow> c \<in> set ''0123456789abcdef''"

lemma hex_digit_hex: "0 \<le> n \<Longrightarrow> n < 16 \<Longrightarrow> is_hex (hex_digit n)"
proof -
  assume "0 \<le> n" "n < 16"
  then have "n \<in> set [0, 1, 2, 3, 4, 5, 6, 7, 8, 9, 10, 11, 12, 13, 14, 15]" by (simp; arith)
  moreover have "list_all (\<lambda>n. is_hex (hex_digit n)) [0, 1, 2, 3, 4, 5, 6, 7, 8, 9, 10, 11, 12, 13, 14, 15]"
    by code_simp
  ultimately show ?thesis unfolding list_all_iff by blast
qed

text \<open>
  C19: the configuration hash of any parameters is 12 lower-case hexadecimal digits, a valid
  annotation value that is never empty.
\<close>

theorem ConfigHashCalc_form:
  "length (ConfigHashCalc c) = 12 \<and> list_all is_hex (ConfigHashCalc c)"
proof -
  let ?bs = "take 6 (md5_Sum (map of_char (Sprint_config c)))"
  have len: "length ?bs = 6" and rng: "\<And>b. b \<in> set ?bs \<Longrightarrow> 0 \<le> b \<and> b < 256"
    using md5_Sum_bytes by (auto dest: in_set_takeD)
  have "length (EncodeToString xs) = 2 * length xs" for xs
    by (induction xs) (simp_all add: EncodeToString_def)
  moreover have "is_hex (hex_digit (b div 16)) \<and> is_hex (hex_digit (b mod 16))" if "b \<in> set ?bs" for b
    using rng [OF that] by (auto intro!: hex_digit_hex)
  ultimately show ?thesis
    using len by (auto simp: ConfigHashCalc_def hashCalc_def list_all_iff EncodeToString_def)
qed

lemma append_sep_inj:
  "c \<notin> set a \<Longrightarrow> c \<notin> set b \<Longrightarrow> a @ c # x = b @ c # y \<longleftrightarrow> a = b \<and> x = y"
  by (induction a arbitrary: b) (case_tac [!] b; auto)+

text \<open>
  C20: what is hashed determines the parameters: two resources whose names, namespace, kind, times
  and zone hold no space are printed alike only if they are equal, working days included.
\<close>

theorem Sprint_config_inj:
  assumes "\<forall>x \<in> {rp_Name c, rp_Namespace c, rp_Kind c, rp_SleepAt c, rp_WakeAt c, rp_Timezone c,
      rp_Name d, rp_Namespace d, rp_Kind d, rp_SleepAt d, rp_WakeAt d, rp_Timezone d}. CHR '' '' \<notin> set x"
    and "Sprint_config c = Sprint_config d"
  shows "c = d"
  using assms by (auto simp: Sprint_config_def append_sep_inj)

definition ex_params :: "string \<Rightarrow> resource_sleep_params" where
  "ex_params days = \<lparr>rp_Name = ''web'', rp_Namespace = ''shop'', rp_Kind = ''Deployment'',
     rp_SleepAt = ''20:00'', rp_WakeAt = ''08:00'', rp_Timezone = ''UTC'', rp_WorkingDays = days\<rparr>"

theorem Sprint_config_inj_witness:
  "Sprint_config (ex_params ''Monday,Tuesday'') \<noteq> Sprint_config (ex_params ''Monday, Tuesday'')"
  using Sprint_config_inj [of "ex_params ''Monday,Tuesday''" "ex_params ''Monday, Tuesday''"]
  by (auto simp: ex_params_def)

end
