(* ===== verification/Sleep_Policy.thy ===== *)
theory Sleep_Policy
  imports Client Config Config_Hash Mem_Api Schedule
begin

text \<open>
  The SleepPolicy controller: \<open>internal/controller/sleeppolicy_logic.go\<close> and
  \<open>sleeppolicy_controller.go\<close>.  The policy is passed by pointer; a method that changes it returns the
  policy it leaves behind.  Log calls are left out, and with them the two loops at the end of
  \<open>checkAndBuildValidResource\<close> that only log.  Ranging over a Go map visits the entries in an order
  chosen by the environment (\<open>x_range\<close>).
\<close>

section \<open>Parameters of a resource\<close>

text \<open>Looking up a key; a nil map has no entries.\<close>

definition nil_lookup :: "('a, 'b) fmap option \<Rightarrow> 'a \<Rightarrow> 'b option" where
  "nil_lookup m k = Option.bind m (\<lambda>a. fmlookup a k)"

definition getSleepOrderName :: "string \<Rightarrow> string \<Rightarrow> string \<Rightarrow> string" where
  "getSleepOrderName policyName resourceKind resourceName =
     (let kind = ToLower resourceKind;
          kind' = (if kind = ToLower kindDeployment then ''dep''
                   else if kind = ToLower kindStatefulSet then ''sts'' else kind)
      in policyName @ ''-'' @ kind' @ ''-'' @ resourceName)"

definition allDays :: "string list" where
  "allDays = [''Monday'', ''Tuesday'', ''Wednesday'', ''Thursday'', ''Friday'', ''Saturday'', ''Sunday'']"

definition calculateWorkingDays :: "string \<Rightarrow> string" where
  "calculateWorkingDays weekend =
     (let weekendDays = Split CHR '','' weekend in
      Join (filter (\<lambda>day. \<not> list_ex (\<lambda>w. EqualFold (TrimSpace day) (TrimSpace w)) weekendDays) allDays) '','')"

definition resolveParams ::
  "config \<Rightarrow> string \<Rightarrow> string \<Rightarrow> string \<Rightarrow> policy_config \<Rightarrow> resource_sleep_params option" where
  "resolveParams c ns name kind policy =
     (if \<not> pc_Enable policy then None
      else
        let wakeAt = (if pc_WakeAt policy = '''' then cf_DefaultWakeAt c else pc_WakeAt policy);
            sleepAt = (if pc_SleepAt policy = '''' then cf_DefaultSleepAt c else pc_SleepAt policy);
            timezone = (if pc_Timezone policy = '''' then cf_DefaultTimezone c else pc_Timezone policy);
            workingDays =
              (if pc_WorkingDays policy = '''' then
                 (if cf_ExcludeWeekend c \<and> cf_Weekend c \<noteq> '''' then calculateWorkingDays (cf_Weekend c)
                  else ''Monday,Tuesday,Wednesday,Thursday,Friday,Saturday,Sunday'')
               else pc_WorkingDays policy)
        in Some \<lparr>rp_Name = name, rp_Namespace = ns, rp_Kind = kind, rp_SleepAt = sleepAt,
                 rp_WakeAt = wakeAt, rp_Timezone = timezone, rp_WorkingDays = workingDays\<rparr>)"

definition getEffectiveParams ::
  "config \<Rightarrow> string \<Rightarrow> string \<Rightarrow> string \<Rightarrow> config_map option \<Rightarrow> resource_sleep_params option" where
  "getEffectiveParams c ns name kind policyMap =
     (case nil_lookup policyMap name of
        Some cfg \<Rightarrow> resolveParams c ns name kind cfg
      | None \<Rightarrow>
        (case nil_lookup policyMap ''default'' of
           Some cfg \<Rightarrow> resolveParams c ns name kind cfg
         | None \<Rightarrow> None))"

section \<open>Validation of the policy\<close>

definition enabled_default :: policy_config where
  "enabled_default = \<lparr>pc_Enable = True, pc_WakeAt = '''', pc_SleepAt = '''', pc_Timezone = '''', pc_WorkingDays = ''''\<rparr>"

definition obj_name :: "client_object \<Rightarrow> string" where
  "obj_name ob = om_name (obj_meta ob)"

text \<open>Add \<open>default\<close> when a workload of the cluster is not in the map, and when the map is empty.\<close>

definition coverWorkloads :: "client_object list \<Rightarrow> config_map \<Rightarrow> config_map \<times> bool" where
  "coverWorkloads items m =
     (if list_ex (\<lambda>ob. fmlookup m (obj_name ob) = None) items \<and> fmlookup m ''default'' = None
      then (fmupd ''default'' enabled_default m, True) else (m, False))"

definition ensureDefault :: "config_map \<Rightarrow> config_map \<times> bool" where
  "ensureDefault m = (if m = fmempty then (fmupd ''default'' enabled_default m, True) else (m, False))"

definition set_maps :: "config_map \<Rightarrow> config_map \<Rightarrow> sleep_policy \<Rightarrow> sleep_policy" where
  "set_maps deps stss p =
     p\<lparr>pol_spec := (pol_spec p)\<lparr>sp_Deployments := Some deps, sp_StatefulSets := Some stss\<rparr>\<rparr>"

definition made_map :: "config_map option \<Rightarrow> config_map" where
  "made_map m = (case m of None \<Rightarrow> fmempty | Some a \<Rightarrow> a)"

definition checkAndBuildValidResource ::
  "'w env \<Rightarrow> sleep_policy \<Rightarrow> ('w, (go_error + bool) \<times> sleep_policy) state" where
  "checkAndBuildValidResource E policy = do {
     let ns = om_namespace (pol_meta policy);
     let deps0 = made_map (sp_Deployments (pol_spec policy));
     let stss0 = made_map (sp_StatefulSets (pol_spec policy));
     dl \<leftarrow> x_List E KDeployment ns;
     (case dl of
        Inl e \<Rightarrow> ret (Inl e, set_maps deps0 stss0 policy)
      | Inr deploymentList \<Rightarrow> do {
          let (deps1, changed1) = coverWorkloads deploymentList deps0;
          sl \<leftarrow> x_List E KStatefulSet ns;
          (case sl of
             Inl e \<Rightarrow> ret (Inl e, set_maps deps1 stss0 policy)
           | Inr stsList \<Rightarrow> do {
               let (stss1, changed2) = coverWorkloads stsList stss0;
               let (deps2, changed3) = ensureDefault deps1;
               let (stss2, changed4) = ensureDefault stss1;
               ret (Inr (changed1 \<or> changed2 \<or> changed3 \<or> changed4), set_maps deps2 stss2 policy) }) }) }"

section \<open>The desired state\<close>

definition addDesired ::
  "config \<Rightarrow> sleep_policy \<Rightarrow> string \<Rightarrow> config_map option \<Rightarrow> client_object \<Rightarrow> desired_state \<Rightarrow> desired_state" where
  "addDesired c policy kind policyMap ob ds =
     (case getEffectiveParams c (om_namespace (pol_meta policy)) (obj_name ob) kind policyMap of
        None \<Rightarrow> ds
      | Some params \<Rightarrow> fmupd (getSleepOrderName (om_name (pol_meta policy)) (rp_Kind params) (rp_Name params)) params ds)"

definition buildTheDesiredState ::
  "'w env \<Rightarrow> config \<Rightarrow> sleep_policy \<Rightarrow> ('w, go_error + desired_state) state" where
  "buildTheDesiredState E c policy = do {
     let ns = om_namespace (pol_meta policy);
     dl \<leftarrow> x_List E KDeployment ns;
     (case dl of
        Inl e \<Rightarrow> ret (Inl e)
      | Inr deploymentList \<Rightarrow> do {
          let ds1 = fold (addDesired c policy kindDeployment (sp_Deployments (pol_spec policy))) deploymentList fmempty;
          sl \<leftarrow> x_List E KStatefulSet ns;
          (case sl of
             Inl e \<Rightarrow> ret (Inl e)
           | Inr stsList \<Rightarrow>
               ret (Inr (fold (addDesired c policy kindStatefulSet (sp_StatefulSets (pol_spec policy))) stsList ds1))) }) }"

section \<open>Orders\<close>

fun deleteLoop :: "'w env \<Rightarrow> desired_state \<Rightarrow> client_object list \<Rightarrow> ('w, go_error option) state" where
  "deleteLoop E desiredState [] = ret None"
| "deleteLoop E desiredState (sleepOrder # rest) =
     (case fmlookup desiredState (obj_name sleepOrder) of
        Some _ \<Rightarrow> deleteLoop E desiredState rest
      | None \<Rightarrow> do {
          d \<leftarrow> x_Delete E sleepOrder;
          (case d of
             None \<Rightarrow> deleteLoop E desiredState rest
           | Some e \<Rightarrow> if IgnoreNotFound e \<noteq> None then ret (Some e) else deleteLoop E desiredState rest) })"

definition deleteUndesiredResources ::
  "'w env \<Rightarrow> string \<Rightarrow> desired_state \<Rightarrow> ('w, go_error option) state" where
  "deleteUndesiredResources E ns desiredState = do {
     l \<leftarrow> x_List E KSleepOrder ns;
     (case l of
        Inl e \<Rightarrow> ret (Some e)
      | Inr items \<Rightarrow> deleteLoop E desiredState items) }"

text \<open>Reading a key that is not in a map of strings gives the empty string.\<close>

definition annotation_value :: "object_meta \<Rightarrow> string \<Rightarrow> string" where
  "annotation_value m k = (case nil_lookup (om_annotations m) k of None \<Rightarrow> '''' | Some v \<Rightarrow> v)"

definition needToDeploySleepOrder ::
  "'w env \<Rightarrow> string \<Rightarrow> resource_sleep_params \<Rightarrow> ('w, go_error + (bool \<times> action)) state" where
  "needToDeploySleepOrder E policyName desired = do {
     let expectedName = getSleepOrderName policyName (rp_Kind desired) (rp_Name desired);
     g \<leftarrow> getSleepOrder E (rp_Namespace desired) expectedName;
     ret (case g of
            Inr so \<Rightarrow>
              if annotation_value (ord_meta so) configHashAnnotationKey \<noteq> ConfigHashCalc desired
              then Inr (True, ActionUpdate) else Inr (False, NoAction)
          | Inl e \<Rightarrow> if IsNotFound e then Inr (True, ActionCreate) else Inl e) }"

definition newSleepOrder :: "sleep_policy \<Rightarrow> resource_sleep_params \<Rightarrow> sleep_order" where
  "newSleepOrder policy desired =
     \<lparr>ord_meta = \<lparr>om_name = getSleepOrderName (om_name (pol_meta policy)) (rp_Kind desired) (rp_Name desired),
        om_namespace = rp_Namespace desired, om_annotations = Some fmempty, om_finalizers = [],
        om_owner = None, om_creation = 0, om_deletion = None, om_rv = 0\<rparr>,
      ord_spec = \<lparr>so_TargetRef = \<lparr>tr_APIVersion = '''', tr_Kind = rp_Kind desired, tr_Name = rp_Name desired\<rparr>,
        so_WakeAt = rp_WakeAt desired, so_SleepAt = rp_SleepAt desired, so_Timezone = rp_Timezone desired,
        so_WorkingDays = rp_WorkingDays desired\<rparr>,
      ord_status = empty_order_status\<rparr>"

text \<open>In both actions the annotations are the hash alone: they start from an empty map.\<close>

definition with_hash :: "resource_sleep_params \<Rightarrow> object_meta \<Rightarrow> object_meta" where
  "with_hash desired m =
     m\<lparr>om_annotations := Some (fmupd configHashAnnotationKey (ConfigHashCalc desired) fmempty)\<rparr>"

definition DeploySleepOrderResource ::
  "'w env \<Rightarrow> sleep_policy \<Rightarrow> resource_sleep_params \<Rightarrow> action \<Rightarrow> ('w, go_error option) state" where
  "DeploySleepOrderResource E policy desired act =
     (let sleepOrder = newSleepOrder policy desired in
      (case act of
         ActionCreate \<Rightarrow>
           (case x_SetControllerReference E policy (with_hash desired (ord_meta sleepOrder)) of
              Inl e \<Rightarrow> ret (Some e)
            | Inr m \<Rightarrow> do {
                r \<leftarrow> x_Create E (SleepOrderObj (sleepOrder\<lparr>ord_meta := m\<rparr>));
                ret (case r of Inl e \<Rightarrow> Some e | Inr _ \<Rightarrow> None) })
       | ActionUpdate \<Rightarrow> do {
           g \<leftarrow> getSleepOrder E (om_namespace (ord_meta sleepOrder)) (om_name (ord_meta sleepOrder));
           (case g of
              Inl e \<Rightarrow> ret (Some e)
            | Inr current \<Rightarrow>
                if om_annotations (ord_meta current) \<noteq> None \<and>
                   annotation_value (ord_meta current) configHashAnnotationKey = ConfigHashCalc desired
                then ret None
                else
                  (case x_SetControllerReference E policy
                      (with_hash desired ((ord_meta sleepOrder)\<lparr>om_rv := om_rv (ord_meta current)\<rparr>)) of
                     Inl e \<Rightarrow> ret (Some e)
                   | Inr m \<Rightarrow> do {
                       r \<leftarrow> x_Update E (SleepOrderObj (sleepOrder\<lparr>ord_meta := m\<rparr>));
                       ret (case r of Inl e \<Rightarrow> Some e | Inr _ \<Rightarrow> None) })) }
       | NoAction \<Rightarrow> ret None))"

fun applyLoop ::
  "'w env \<Rightarrow> sleep_policy \<Rightarrow> (string \<times> resource_sleep_params) list \<Rightarrow> ('w, go_error option) state" where
  "applyLoop E policy [] = ret None"
| "applyLoop E policy ((_, params) # rest) = do {
     n \<leftarrow> needToDeploySleepOrder E (om_name (pol_meta policy)) params;
     (case n of
        Inl e \<Rightarrow> ret (Some e)
      | Inr (need, act) \<Rightarrow>
          if need then do {
            d \<leftarrow> DeploySleepOrderResource E policy params act;
            (case d of Some e \<Rightarrow> ret (Some e) | None \<Rightarrow> applyLoop E policy rest) }
          else applyLoop E policy rest) }"

section \<open>Reconcile\<close>

text \<open>
  The policy that rules a namespace: the requested one if it is being deleted, else the only one, else
  the one of two that is not the default policy.
\<close>

fun the_policy :: "client_object \<Rightarrow> sleep_policy option" where
  "the_policy (SleepPolicyObj p) = Some p"
| "the_policy _ = None"

definition selectPolicy :: "string \<Rightarrow> sleep_policy list \<Rightarrow> go_error + sleep_policy option" where
  "selectPolicy name items =
     (case find (\<lambda>sp. om_name (pol_meta sp) = name \<and> om_deletion (pol_meta sp) \<noteq> None) items of
        Some sp \<Rightarrow> Inr (Some sp)
      | None \<Rightarrow>
        (case items of
           [] \<Rightarrow> Inr None
         | [sp] \<Rightarrow> Inr (Some sp)
         | [sp1, sp2] \<Rightarrow>
             if om_name (pol_meta sp1) = DefaultSleepPolicyName \<and> om_name (pol_meta sp2) \<noteq> DefaultSleepPolicyName
             then Inr (Some sp2)
             else if om_name (pol_meta sp1) \<noteq> DefaultSleepPolicyName \<and> om_name (pol_meta sp2) = DefaultSleepPolicyName
             then Inr (Some sp1)
             else Inl (ErrTooManyPolicies 2)
         | _ \<Rightarrow> Inl (ErrTooManyPolicies (length items))))"

definition FetchSleepPolicyOrContinue ::
  "'w env \<Rightarrow> string \<Rightarrow> string \<Rightarrow> ('w, go_error + sleep_policy option) state" where
  "FetchSleepPolicyOrContinue E ns name = do {
     l \<leftarrow> x_List E KSleepPolicy ns;
     ret (case l of
            Inl e \<Rightarrow> (if IsNotFound e then Inr None else Inl e)
          | Inr items \<Rightarrow> selectPolicy name (List.map_filter the_policy items)) }"

definition updateSleepPolicy :: "'w env \<Rightarrow> sleep_policy \<Rightarrow> ('w, go_error + sleep_policy) state" where
  "updateSleepPolicy E p = do { r \<leftarrow> x_Update E (SleepPolicyObj p); ret (as_SleepPolicy r) }"

definition requeue_now :: ctrl_result where
  "requeue_now = \<lparr>res_Requeue = True, res_RequeueAfter = 0\<rparr>"

text \<open>The part of Reconcile after the finalizer is in place: make the orders, report the state.\<close>

definition applyPolicy ::
  "'w env \<Rightarrow> config \<Rightarrow> string \<Rightarrow> sleep_policy \<Rightarrow> ('w, reconcile_result) state" where
  "applyPolicy E c ns policy = do {
     b \<leftarrow> buildTheDesiredState E c policy;
     (case b of
        Inl e \<Rightarrow> ret (empty_result, Some e)
      | Inr desiredState \<Rightarrow> do {
          d \<leftarrow> deleteUndesiredResources E ns desiredState;
          (case d of
             Some e \<Rightarrow> ret (empty_result, Some e)
           | None \<Rightarrow> do {
               a \<leftarrow> applyLoop E policy (x_range E desiredState);
               (case a of
                  Some e \<Rightarrow> ret (empty_result, Some e)
                | None \<Rightarrow>
                    if st_State (pol_status policy) \<noteq> Some desiredState then do {
                      u \<leftarrow> x_StatusUpdate E (SleepPolicyObj (policy\<lparr>pol_status := \<lparr>st_State = Some desiredState\<rparr>\<rparr>));
                      (case u of
                         Inl e \<Rightarrow> ret (empty_result, Some e)
                       | Inr _ \<Rightarrow> ret (empty_result, None)) }
                    else ret (empty_result, None)) }) }) }"

definition Reconcile_SleepPolicy ::
  "'w env \<Rightarrow> config \<Rightarrow> string \<Rightarrow> string \<Rightarrow> ('w, reconcile_result) state" where
  "Reconcile_SleepPolicy E c ns name = do {
     f \<leftarrow> FetchSleepPolicyOrContinue E ns name;
     (case f of
        Inl e \<Rightarrow> ret (empty_result, Some e)
      | Inr None \<Rightarrow> ret (empty_result, None)
      | Inr (Some policy0) \<Rightarrow> do {
          (v, policy) \<leftarrow> checkAndBuildValidResource E policy0;
          (case v of
             Inl e \<Rightarrow> ret (empty_result, Some e)
           | Inr resourceNeedToBeUpdate \<Rightarrow>
               if resourceNeedToBeUpdate then do {
                 u \<leftarrow> updateSleepPolicy E policy;
                 ret (case u of Inl e \<Rightarrow> (empty_result, Some e) | Inr _ \<Rightarrow> (requeue_now, None)) }
               else if om_deletion (pol_meta policy) \<noteq> None then do {
                 u \<leftarrow> updateSleepPolicy E
                   (policy\<lparr>pol_meta := x_RemoveFinalizer E (pol_meta policy) sleepPolicyFinalizer\<rparr>);
                 ret (case u of Inl e \<Rightarrow> (empty_result, Some e) | Inr _ \<Rightarrow> (empty_result, None)) }
               else if \<not> x_ContainsFinalizer E (pol_meta policy) sleepPolicyFinalizer then do {
                 u \<leftarrow> updateSleepPolicy E
                   (policy\<lparr>pol_meta := x_AddFinalizer E (pol_meta policy) sleepPolicyFinalizer\<rparr>);
                 ret (case u of Inl e \<Rightarrow> (empty_result, Some e) | Inr _ \<Rightarrow> (requeue_now, None)) }
               else applyPolicy E c ns policy) }) }"

end
