(* ===== verification/Sleep_Policy_Logic.thy ===== *)
theory Sleep_Policy_Logic
  imports Sleep_Policy
begin

text \<open>
  The decisions of the SleepPolicy controller, which make no write: the names of the orders, the
  effective parameters of a workload, the desired state of a namespace, the working days left by a
  weekend, the validation of a policy, and the choice of the policy that rules a namespace.
\<close>

section \<open>Names of orders\<close>

lemma getSleepOrderName_simps:
  "getSleepOrderName p kindDeployment n = p @ ''-dep-'' @ n"
  "getSleepOrderName p kindStatefulSet n = p @ ''-sts-'' @ n"
  by (simp_all add: getSleepOrderName_def kindDeployment_def kindStatefulSet_def Let_def
      ToLower_def lower_char_def)

lemma getSleepOrderName_inj:
  assumes "k \<in> {kindDeployment, kindStatefulSet}" "k' \<in> {kindDeployment, kindStatefulSet}"
    and "getSleepOrderName p k n = getSleepOrderName p k' n'"
  shows "k = k' \<and> n = n'"
  using assms by (auto simp: getSleepOrderName_simps)

section \<open>Effective parameters\<close>

lemma resolveParams_fields:
  assumes "resolveParams c ns n k cfg = Some p"
  shows "rp_Name p = n" "rp_Namespace p = ns" "rp_Kind p = k"
  using assms by (auto simp: resolveParams_def Let_def split: if_splits)

lemma getEffectiveParams_fields:
  assumes "getEffectiveParams c ns n k pm = Some p"
  shows "rp_Name p = n" "rp_Namespace p = ns" "rp_Kind p = k"
  using assms by (auto simp: getEffectiveParams_def resolveParams_fields split: option.splits)

lemma addDesired_eq:
  "addDesired c pol k pm ob ds =
     (case getEffectiveParams c (om_namespace (pol_meta pol)) (obj_name ob) k pm of
        None \<Rightarrow> ds
      | Some p \<Rightarrow> fmupd (getSleepOrderName (om_name (pol_meta pol)) k (obj_name ob)) p ds)"
  by (auto simp: addDesired_def getEffectiveParams_fields split: option.splits)

section \<open>The desired state\<close>

text \<open>One pass over a list of workloads: the last write of a key wins, and keys do not meet.\<close>

lemma fold_addDesired:
  fixes c pol k pm
  defines "eff \<equiv> \<lambda>ob. getEffectiveParams c (om_namespace (pol_meta pol)) (obj_name ob) k pm"
    and "key \<equiv> \<lambda>ob. getSleepOrderName (om_name (pol_meta pol)) k (obj_name ob)"
  assumes k: "k \<in> {kindDeployment, kindStatefulSet}" and d: "distinct (map obj_name obs)"
  shows "fmlookup (fold (addDesired c pol k pm) obs ds) x = Some p \<longleftrightarrow>
     (\<exists>ob \<in> set obs. eff ob = Some p \<and> x = key ob) \<or>
     (fmlookup ds x = Some p \<and> \<not> (\<exists>ob \<in> set obs. eff ob \<noteq> None \<and> x = key ob))"
  using d
proof (induction obs arbitrary: ds)
  case (Cons a obs)
  have inj: "key ob = key ob' \<longleftrightarrow> obj_name ob = obj_name ob'" for ob ob'
    unfolding key_def using getSleepOrderName_inj [OF k k] by metis
  have other: "key ob \<noteq> key a" if "ob \<in> set obs" for ob
    using Cons.prems that inj by force
  have step: "addDesired c pol k pm a ds = (case eff a of None \<Rightarrow> ds | Some q \<Rightarrow> fmupd (key a) q ds)"
    by (simp add: addDesired_eq eff_def key_def split: option.split)
  have d: "distinct (map obj_name obs)" using Cons.prems by simp
  show ?case
    unfolding fold_simps comp_def Cons.IH [OF d] step
    using other by (cases "eff a"; simp; metis option.distinct(1))
qed simp

text \<open>
  The state a policy asks for in a namespace with the workloads of view \<open>v\<close>: an entry for each
  Deployment and StatefulSet that has effective parameters.
\<close>

definition entry_of ::
  "config \<Rightarrow> sleep_policy \<Rightarrow> view \<Rightarrow> kind \<Rightarrow> string \<Rightarrow> config_map option \<Rightarrow> string \<Rightarrow> resource_sleep_params \<Rightarrow> bool" where
  "entry_of c pol v K k pm x p \<longleftrightarrow>
     (\<exists>n. v (K, om_namespace (pol_meta pol), n) \<noteq> None \<and>
        getEffectiveParams c (om_namespace (pol_meta pol)) n k pm = Some p \<and>
        x = getSleepOrderName (om_name (pol_meta pol)) k n)"

definition desired_entry ::
  "config \<Rightarrow> sleep_policy \<Rightarrow> view \<Rightarrow> string \<Rightarrow> resource_sleep_params \<Rightarrow> bool" where
  "desired_entry c pol v x p \<longleftrightarrow>
     entry_of c pol v KDeployment kindDeployment (sp_Deployments (pol_spec pol)) x p \<or>
     entry_of c pol v KStatefulSet kindStatefulSet (sp_StatefulSets (pol_spec pol)) x p"

context kube_api
begin

text \<open>A listing, by name.\<close>

lemma list_names:
  assumes "list_result (V w) k ns (Inr obs)"
  shows "ob \<in> set obs \<longleftrightarrow> V w (k, ns, obj_name ob) = Some ob" "distinct (map obj_name obs)"
proof -
  have key: "obj_key ob = (k, ns, obj_name ob)" if "ob \<in> set obs" for ob
  proof -
    from that assms obtain n where "V w (k, ns, n) = Some ob" by (auto simp: list_result_def)
    from view_key [OF this] show ?thesis by (simp add: obj_key_def obj_name_def)
  qed
  then show "distinct (map obj_name obs)"
    using assms by (auto simp: list_result_def distinct_map inj_on_def)
  show "ob \<in> set obs \<longleftrightarrow> V w (k, ns, obj_name ob) = Some ob"
  proof
    assume "ob \<in> set obs"
    moreover from this assms obtain n where "V w (k, ns, n) = Some ob" by (auto simp: list_result_def)
    ultimately show "V w (k, ns, obj_name ob) = Some ob" using view_key key by fastforce
  qed (use assms in \<open>auto simp: list_result_def\<close>)
qed

lemma list_names_ex:
  assumes "list_result (V w) k ns (Inr obs)"
  shows "(\<exists>ob \<in> set obs. P (obj_name ob)) \<longleftrightarrow> (\<exists>n. V w (k, ns, n) \<noteq> None \<and> P n)"
proof
  assume "\<exists>n. V w (k, ns, n) \<noteq> None \<and> P n"
  then obtain n ob where n: "V w (k, ns, n) = Some ob" "P n" by auto
  from view_key [OF n(1)] have "obj_name ob = n" by (simp add: obj_key_def obj_name_def)
  then show "\<exists>ob \<in> set obs. P (obj_name ob)" using n list_names(1) [OF assms, of ob] by auto
qed (use list_names(1) [OF assms] in auto)

text \<open>The desired state that the code builds is the specified one.\<close>

lemma desired_state_entries:
  assumes dl: "list_result (V w) KDeployment (om_namespace (pol_meta pol)) (Inr dl)"
    and sl: "list_result (V w) KStatefulSet (om_namespace (pol_meta pol)) (Inr sl)"
  shows "fmlookup (fold (addDesired c pol kindStatefulSet (sp_StatefulSets (pol_spec pol))) sl
       (fold (addDesired c pol kindDeployment (sp_Deployments (pol_spec pol))) dl fmempty)) x = Some p \<longleftrightarrow>
     desired_entry c pol (V w) x p"
proof -
  let ?eff = "\<lambda>k pm ob. getEffectiveParams c (om_namespace (pol_meta pol)) (obj_name ob) k pm"
  let ?key = "\<lambda>k ob. getSleepOrderName (om_name (pol_meta pol)) k (obj_name ob)"
  have D: "(\<exists>ob \<in> set dl. ?eff kindDeployment pm ob = Some p \<and> x = ?key kindDeployment ob) \<longleftrightarrow>
      entry_of c pol (V w) KDeployment kindDeployment pm x p" for pm
    unfolding entry_of_def by (rule list_names_ex [OF dl])
  have S: "(\<exists>ob \<in> set sl. ?eff kindStatefulSet pm ob = Some p \<and> x = ?key kindStatefulSet ob) \<longleftrightarrow>
      entry_of c pol (V w) KStatefulSet kindStatefulSet pm x p" for pm
    unfolding entry_of_def by (rule list_names_ex [OF sl])
  have "\<not> (entry_of c pol (V w) KDeployment kindDeployment pm x p \<and>
      (\<exists>ob \<in> set sl. ?eff kindStatefulSet pm' ob \<noteq> None \<and> x = ?key kindStatefulSet ob))" for pm pm'
    by (auto simp: entry_of_def getSleepOrderName_simps)
  then show ?thesis
    by (simp add: fold_addDesired list_names(2) [OF dl] list_names(2) [OF sl] desired_entry_def
        D [simplified] S [simplified]) blast
qed

lemma wp_buildTheDesiredState:
  assumes "\<And>e w'. V w' = V w \<Longrightarrow> Q (Inl e) w'"
    and "\<And>ds w'. V w' = V w \<Longrightarrow> (\<And>x p. fmlookup ds x = Some p \<longleftrightarrow> desired_entry c pol (V w) x p) \<Longrightarrow> Q (Inr ds) w'"
  shows "wp (buildTheDesiredState E c pol) Q w"
  unfolding buildTheDesiredState_def Let_def wp_bind
proof (rule wp_List, goal_cases)
  case (1 dl w1)
  show ?case
  proof (cases dl)
    case (Inr ds)
    show ?thesis
      unfolding Inr sum.case wp_bind
    proof (rule wp_List, goal_cases)
      case (1 sl w2)
      with \<open>V w1 = V w\<close> have v: "V w2 = V w" by simp
      show ?case
      proof (cases sl)
        case (Inr ss)
        then show ?thesis
          using 1 \<open>V w1 = V w\<close> \<open>list_result (V w) _ _ dl\<close> \<open>dl = Inr ds\<close> v
          by (simp, intro assms(2) desired_state_entries) simp_all
      qed (use v in \<open>simp add: assms(1)\<close>)
    qed
  qed (use 1 in \<open>simp add: assms(1)\<close>)
qed

end

section \<open>Working days from a weekend\<close>

text \<open>The English name of a weekday, from Sunday = 0.\<close>

definition day_name :: "int \<Rightarrow> string" where
  "day_name d =
     (if d = 0 then ''Sunday'' else if d = 1 then ''Monday'' else if d = 2 then ''Tuesday''
      else if d = 3 then ''Wednesday'' else if d = 4 then ''Thursday'' else if d = 5 then ''Friday''
      else ''Saturday'')"

definition in_weekend :: "string \<Rightarrow> int \<Rightarrow> bool" where
  "in_weekend weekend d \<longleftrightarrow> (\<exists>w \<in> set (Split CHR '','' weekend). EqualFold (day_name d) (TrimSpace w))"

lemma week_cases:
  assumes "0 \<le> (d :: int)" "d < 7"
  obtains "d = 0" | "d = 1" | "d = 2" | "d = 3" | "d = 4" | "d = 5" | "d = 6"
  using assms by linarith

lemma day_name_facts:
  assumes "0 \<le> d" "d < 7"
  shows "day_name d \<in> set allDays" "part_days (ToLower (day_name d)) = {d}"
    "TrimSpace (day_name d) = day_name d" "CHR '','' \<notin> set (day_name d)" "day_name d \<noteq> ''''"
proof -
  have all: "list_all (\<lambda>d. let n = day_name d; l = ToLower n in List.member allDays n \<and>
      \<not> List.member (TrimSpace l) CHR ''-'' \<and> parseDay (TrimSpace l) = d \<and> TrimSpace n = n \<and>
      \<not> List.member n CHR '','' \<and> n \<noteq> []) [0, 1, 2, 3, 4, 5, 6]"
    by code_simp
  have "d \<in> set [0, 1, 2, 3, 4, 5, 6]" using assms by (simp; arith)
  with all have *: "day_name d \<in> set allDays \<and> CHR ''-'' \<notin> set (TrimSpace (ToLower (day_name d))) \<and>
      parseDay (TrimSpace (ToLower (day_name d))) = d \<and> TrimSpace (day_name d) = day_name d \<and>
      CHR '','' \<notin> set (day_name d) \<and> day_name d \<noteq> []"
    unfolding list_all_iff Let_def List.member_iff by blast
  then show "day_name d \<in> set allDays" "TrimSpace (day_name d) = day_name d"
    "CHR '','' \<notin> set (day_name d)" "day_name d \<noteq> ''''" by simp_all
  show "part_days (ToLower (day_name d)) = {d}" using * assms by (simp add: part_days_def Let_def)
qed

lemma allDays_names: "set allDays = day_name ` {0 ..< 7}"
proof -
  have "{0 ..< 7 :: int} = {0, 1, 2, 3, 4, 5, 6}" by auto
  then show ?thesis by (auto simp: allDays_def day_name_def)
qed

lemma day_name_inj: "0 \<le> d \<Longrightarrow> d < 7 \<Longrightarrow> 0 \<le> e \<Longrightarrow> e < 7 \<Longrightarrow> day_name d = day_name e \<longleftrightarrow> d = e"
  by (metis day_name_facts(2) singleton_inject)

text \<open>
  C30: with the working days computed from a weekend, a day is worked exactly when the weekend does
  not name it (by its full English name, in any case, between commas), unless the weekend names all
  seven days: then no day is left, the string is empty, and every day is worked.
\<close>

theorem calculateWorkingDays_days:
  "isDayWorking t (calculateWorkingDays weekend) \<longleftrightarrow>
     \<not> in_weekend weekend (Weekday t) \<or> (\<forall>d. 0 \<le> d \<and> d < 7 \<longrightarrow> in_weekend weekend d)"
proof -
  let ?P = "\<lambda>day. \<not> list_ex (\<lambda>w. EqualFold (TrimSpace day) (TrimSpace w)) (Split CHR '','' weekend)"
  define L where "L = filter ?P allDays"
  have calc: "calculateWorkingDays weekend = Join L '',''"
    by (simp add: calculateWorkingDays_def L_def)
  have P: "?P (day_name d) \<longleftrightarrow> \<not> in_weekend weekend d" if "0 \<le> d" "d < 7" for d
    using day_name_facts(3) [OF that] by (simp add: in_weekend_def list_ex_iff)
  have set_L: "set L = {day_name d | d. 0 \<le> d \<and> d < 7 \<and> \<not> in_weekend weekend d}"
    unfolding L_def set_filter allDays_names using P by force
  show ?thesis
  proof (cases "L = []")
    case True
    then have "\<forall>d. 0 \<le> d \<and> d < 7 \<longrightarrow> in_weekend weekend d" using set_L by auto
    moreover have "isDayWorking t (calculateWorkingDays weekend)"
      by (simp add: calc True isDayWorking_def)
    ultimately show ?thesis by simp
  next
    case False
    have lower: "map ToLower L \<noteq> []" "\<forall>p \<in> set L. CHR '','' \<notin> set p"
      using False day_name_facts(4) set_L by auto
    then have split: "Split CHR '','' (ToLower (Join L '','')) = map ToLower L"
      using False Split_Join [of L "CHR '',''"] by (simp add: Split_ToLower)
    obtain d0 where "0 \<le> d0" "d0 < 7" "\<not> in_weekend weekend d0" using False set_L by (cases L) auto
    moreover have "Join L '','' \<noteq> []"
    proof
      assume "Join L '','' = []"
      with split have "map ToLower L = [[]]" by (simp add: ToLower_def)
      then have "[] \<in> set L" by (auto simp: ToLower_def)
      then obtain d where "[] = day_name d" "0 \<le> d" "d < 7" using set_L by auto
      then show False using day_name_facts(5) [of d] by simp
    qed
    moreover have "\<Union> (part_days ` set (map ToLower L)) = {d. 0 \<le> d \<and> d < 7 \<and> \<not> in_weekend weekend d}"
      unfolding set_map set_L using day_name_facts(2) by auto
    ultimately show ?thesis
      using weekday_range [of t] by (auto simp: isDayWorking_days calc split)
  qed
qed

theorem calculateWorkingDays_days_witness:
  "\<not> isDayWorking \<lparr>t_ns = 172800000000000, t_loc = utc\<rparr> (calculateWorkingDays ''saturday, Sunday'')"
proof -
  have w: "Weekday \<lparr>t_ns = 172800000000000, t_loc = utc\<rparr> = 6"
    by (simp add: Weekday_def local_day_def local_sec_def unix_def utc_def fixed_zone_def weekday_of_day_def)
  have "in_weekend ''saturday, Sunday'' 6" "\<not> in_weekend ''saturday, Sunday'' 1" by code_simp+
  then show ?thesis
    unfolding calculateWorkingDays_days w by (auto intro!: exI [of _ 1])
qed

section \<open>Validation\<close>

text \<open>Whether a workload of that name has an entry, its own or the default one.\<close>

definition covered :: "config_map option \<Rightarrow> string \<Rightarrow> bool" where
  "covered pm n \<longleftrightarrow> nil_lookup pm n \<noteq> None \<or> nil_lookup pm ''default'' \<noteq> None"

text \<open>
  From map \<open>pm\<close> the validation makes \<open>m\<close>: every workload name of the view is covered, entries stay,
  and at most the enabled default entry is new; \<open>changed\<close> tells whether it is, and then it was needed.
\<close>

definition validated :: "(string \<Rightarrow> bool) \<Rightarrow> config_map option \<Rightarrow> config_map option \<Rightarrow> bool \<Rightarrow> bool" where
  "validated names pm pm' changed \<longleftrightarrow>
     (\<exists>m. pm' = Some m \<and> m \<noteq> fmempty \<and>
       m = (if changed then fmupd ''default'' enabled_default (made_map pm) else made_map pm)) \<and>
     (changed \<longrightarrow> nil_lookup pm ''default'' = None \<and>
        (made_map pm = fmempty \<or> (\<exists>n. names n \<and> \<not> covered pm n))) \<and>
     (\<forall>n. names n \<longrightarrow> covered pm' n)"

lemma nil_lookup_made: "nil_lookup pm k = fmlookup (made_map pm) k"
  by (cases pm) (auto simp: nil_lookup_def made_map_def)

lemma validated_step:
  assumes "coverWorkloads obs (made_map pm) = (m1, ch1)" "ensureDefault m1 = (m2, ch2)"
    and "\<And>n. names n \<longleftrightarrow> (\<exists>ob \<in> set obs. obj_name ob = n)"
  shows "validated names pm (Some m2) (ch1 \<or> ch2)"
proof -
  have nonempty: "fmupd k v m \<noteq> fmempty" for k :: string and v :: policy_config and m
    by (metis fmupd_lookup fmempty_lookup option.distinct(1))
  show ?thesis
    using assms unfolding coverWorkloads_def ensureDefault_def validated_def covered_def
    by (auto simp: nil_lookup_made [of pm] nil_lookup_def [of "Some _"] nonempty list_ex_iff
        split: if_splits)
qed

text \<open>What has been validated needs no change.\<close>

lemma validated_fixed:
  assumes "validated names pm (Some m) ch" "validated names (Some m) (Some m') ch'"
  shows "m' = m \<and> \<not> ch'"
  using assms by (auto simp: validated_def made_map_def)

context kube_api
begin

text \<open>The names of the workloads of a kind in a namespace.\<close>

definition named :: "'w \<Rightarrow> kind \<Rightarrow> string \<Rightarrow> string \<Rightarrow> bool" where
  "named w K ns n \<longleftrightarrow> V w (K, ns, n) \<noteq> None"

lemma named_list:
  "list_result (V w) K ns (Inr obs) \<Longrightarrow> named w K ns n \<longleftrightarrow> (\<exists>ob \<in> set obs. obj_name ob = n)"
  using list_names_ex [of w K ns obs "\<lambda>m. m = n"] by (auto simp: named_def)

lemma wp_checkAndBuildValidResource:
  fixes pol
  defines "ns \<equiv> om_namespace (pol_meta pol)"
  assumes err: "\<And>e p' w'. V w' = V w \<Longrightarrow> Q (Inl e, p') w'"
    and ok: "\<And>ch1 ch2 dm sm w'. V w' = V w \<Longrightarrow>
      validated (named w KDeployment ns) (sp_Deployments (pol_spec pol)) (Some dm) ch1 \<Longrightarrow>
      validated (named w KStatefulSet ns) (sp_StatefulSets (pol_spec pol)) (Some sm) ch2 \<Longrightarrow>
      Q (Inr (ch1 \<or> ch2), set_maps dm sm pol) w'"
  shows "wp (checkAndBuildValidResource E pol) Q w"
  unfolding checkAndBuildValidResource_def Let_def wp_bind
proof (rule wp_List, fold ns_def, goal_cases)
  case (1 dl w1)
  show ?case
  proof (cases dl)
    case (Inr ds)
    obtain m1 c1 where m1: "coverWorkloads ds (made_map (sp_Deployments (pol_spec pol))) = (m1, c1)"
      by (cases "coverWorkloads ds (made_map (sp_Deployments (pol_spec pol)))")
    obtain m2 c3 where m2: "ensureDefault m1 = (m2, c3)" by (cases "ensureDefault m1")
    have D: "validated (named w KDeployment ns) (sp_Deployments (pol_spec pol)) (Some m2) (c1 \<or> c3)"
      by (rule validated_step [OF m1 m2]) (use 1 Inr named_list in simp)
    show ?thesis
      unfolding Inr sum.case m1 prod.case wp_bind
    proof (rule wp_List, goal_cases)
      case (1 sl w2)
      then have v: "V w2 = V w" and sl: "list_result (V w) KStatefulSet ns sl"
        using \<open>V w1 = V w\<close> by simp_all
      show ?case
      proof (cases sl)
        case (Inr ss)
        obtain n1 c2 where n1: "coverWorkloads ss (made_map (sp_StatefulSets (pol_spec pol))) = (n1, c2)"
          by (cases "coverWorkloads ss (made_map (sp_StatefulSets (pol_spec pol)))")
        obtain n2 c4 where n2: "ensureDefault n1 = (n2, c4)" by (cases "ensureDefault n1")
        have S: "validated (named w KStatefulSet ns) (sp_StatefulSets (pol_spec pol)) (Some n2) (c2 \<or> c4)"
          by (rule validated_step [OF n1 n2]) (use sl Inr named_list in simp)
        show ?thesis
          using ok [OF v D S] by (simp add: Inr n1 n2 m2 disj_ac)
      qed (use v in \<open>simp add: err\<close>)
    qed
  qed (use 1 in \<open>simp add: err\<close>)
qed

end

definition policy_validated :: "view \<Rightarrow> sleep_policy \<Rightarrow> sleep_policy \<Rightarrow> bool \<Rightarrow> bool" where
  "policy_validated v pol pol' changed \<longleftrightarrow>
     pol_meta pol' = pol_meta pol \<and> pol_status pol' = pol_status pol \<and>
     sp_Timezone (pol_spec pol') = sp_Timezone (pol_spec pol) \<and>
     (\<exists>ch1 ch2. changed = (ch1 \<or> ch2) \<and>
       validated (\<lambda>n. v (KDeployment, om_namespace (pol_meta pol), n) \<noteq> None)
         (sp_Deployments (pol_spec pol)) (sp_Deployments (pol_spec pol')) ch1 \<and>
       validated (\<lambda>n. v (KStatefulSet, om_namespace (pol_meta pol), n) \<noteq> None)
         (sp_StatefulSets (pol_spec pol)) (sp_StatefulSets (pol_spec pol')) ch2)"

lemma policy_validated_again:
  assumes "policy_validated v pol pol' ch" "policy_validated v pol' pol'' ch'"
  shows "\<not> ch' \<and> pol'' = pol'"
proof -
  obtain c1 c2 d1 d2 where
    v1: "validated (\<lambda>n. v (KDeployment, om_namespace (pol_meta pol), n) \<noteq> None)
         (sp_Deployments (pol_spec pol)) (sp_Deployments (pol_spec pol')) c1"
      "validated (\<lambda>n. v (KStatefulSet, om_namespace (pol_meta pol), n) \<noteq> None)
         (sp_StatefulSets (pol_spec pol)) (sp_StatefulSets (pol_spec pol')) c2"
    and v2: "validated (\<lambda>n. v (KDeployment, om_namespace (pol_meta pol), n) \<noteq> None)
         (sp_Deployments (pol_spec pol')) (sp_Deployments (pol_spec pol'')) d1"
      "validated (\<lambda>n. v (KStatefulSet, om_namespace (pol_meta pol), n) \<noteq> None)
         (sp_StatefulSets (pol_spec pol')) (sp_StatefulSets (pol_spec pol'')) d2"
    and ch': "ch' = (d1 \<or> d2)"
    using assms by (auto simp: policy_validated_def)
  obtain dm dm' sm sm' where maps: "sp_Deployments (pol_spec pol') = Some dm" "sp_Deployments (pol_spec pol'') = Some dm'"
    "sp_StatefulSets (pol_spec pol') = Some sm" "sp_StatefulSets (pol_spec pol'') = Some sm'"
    using v1 v2 by (auto simp: validated_def)
  have "dm' = dm \<and> \<not> d1" "sm' = sm \<and> \<not> d2"
    using validated_fixed v1 v2 maps by metis+
  then show ?thesis
    using assms maps ch' by (auto simp: policy_validated_def intro!: sleep_policy.equality sleep_policy_spec.equality)
qed

context kube_api
begin

lemma wp_check:
  assumes "\<And>e p' w'. V w' = V w \<Longrightarrow> Q (Inl e, p') w'"
    and "\<And>ch p' w'. V w' = V w \<Longrightarrow> policy_validated (V w) pol p' ch \<Longrightarrow> Q (Inr ch, p') w'"
  shows "wp (checkAndBuildValidResource E pol) Q w"
proof (rule wp_checkAndBuildValidResource, goal_cases)
  case (2 ch1 ch2 dm sm w')
  have "policy_validated (V w) pol (set_maps dm sm pol) (ch1 \<or> ch2)"
    unfolding policy_validated_def
    by (intro conjI exI [of _ ch1] exI [of _ ch2]) (use 2 in \<open>simp_all add: set_maps_def named_def [abs_def]\<close>)
  with 2 show ?case by (simp add: assms(2))
qed (rule assms(1))

end

text \<open>
  C28: the validation of a policy writes nothing, and when it does not fail, every Deployment and
  StatefulSet of the namespace has an entry in the policy, its own or the default one, no map is left
  empty, every entry of the user stays as it is, and the only entry that may be new is an enabled
  \<open>default\<close> with no settings, added only where it was needed; the answer tells whether it was added.
\<close>

theorem checkAndBuildValidResource_covers:
  assumes "kube_api E V"
    and "run_state (checkAndBuildValidResource E pol) w = ((Inr changed, pol'), w')"
  shows "V w' = V w \<and> policy_validated (V w) pol pol' changed"
proof -
  have "wp (checkAndBuildValidResource E pol)
      (\<lambda>r w'. V w' = V w \<and> (case fst r of Inl _ \<Rightarrow> True | Inr ch \<Rightarrow> policy_validated (V w) pol (snd r) ch)) w"
    by (rule kube_api.wp_check [OF assms(1)]) simp_all
  from wp_run [OF this assms(2)] show ?thesis by simp
qed

text \<open>The reference server with UTC as its local zone and no zone files.\<close>

abbreviation ex_utc :: "mem env" where
  "ex_utc \<equiv> mem_env \<lparr>tz_local = utc, tz_db = (\<lambda>_. None)\<rparr>"

definition ex_pol_meta :: object_meta where
  "ex_pol_meta = \<lparr>om_name = ''office'', om_namespace = ''shop'', om_annotations = None, om_finalizers = [],
     om_owner = None, om_creation = 0, om_deletion = None, om_rv = 1\<rparr>"

text \<open>A policy for one workload that is not in the cluster, and a cluster with another workload.\<close>

definition ex_policy :: sleep_policy where
  "ex_policy = \<lparr>pol_meta = ex_pol_meta,
     pol_spec = \<lparr>sp_Timezone = ''UTC'', sp_Deployments = Some (fmupd ''old'' enabled_default fmempty),
       sp_StatefulSets = None\<rparr>, pol_status = empty_policy_status\<rparr>"

definition ex_shop :: mem where
  "ex_shop = \<lparr>m_objs = [Deployment \<lparr>wl_meta = ex_pol_meta\<lparr>om_name := ''web''\<rparr>, wl_replicas = Some 3, wl_rest = ''''\<rparr>,
     SleepPolicyObj ex_policy], m_rv = 1, m_clock = 0, m_faults = []\<rparr>"

definition ex_checked :: "((go_error + bool) \<times> sleep_policy) \<times> mem" where
  "ex_checked = run_state (checkAndBuildValidResource ex_utc ex_policy) ex_shop"

theorem checkAndBuildValidResource_covers_witness:
  "policy_validated (mem_view ex_shop) ex_policy (snd (fst ex_checked)) True"
proof -
  have "fst (fst ex_checked) = Inr True" by code_simp
  then have "run_state (checkAndBuildValidResource ex_utc ex_policy) ex_shop =
      ((Inr True, snd (fst ex_checked)), snd ex_checked)"
    by (simp add: ex_checked_def prod_eq_iff)
  from checkAndBuildValidResource_covers [OF mem.kube_api_axioms this] show ?thesis by simp
qed

text \<open>
  C29: validation is idempotent: run on a policy that it has made itself, over the same workloads, it
  changes nothing and says so.
\<close>

theorem checkAndBuildValidResource_idem:
  assumes "kube_api E V"
    and "run_state (checkAndBuildValidResource E pol) w = ((Inr changed, pol'), w')"
    and "V u = V w"
    and "run_state (checkAndBuildValidResource E pol') u = ((Inr changed', pol''), u')"
  shows "\<not> changed' \<and> pol'' = pol'"
proof -
  have spec: "wp (checkAndBuildValidResource E p) (\<lambda>r w'. case fst r of Inl _ \<Rightarrow> True
      | Inr ch \<Rightarrow> policy_validated (V x) p (snd r) ch) x" for p x
    by (rule kube_api.wp_check [OF assms(1)]) simp_all
  have "policy_validated (V w) pol pol' changed" "policy_validated (V w) pol' pol'' changed'"
    using wp_run [OF spec assms(2)] wp_run [OF spec assms(4)] assms(3) by simp_all
  then show ?thesis by (rule policy_validated_again)
qed

definition ex_checked2 :: "((go_error + bool) \<times> sleep_policy) \<times> mem" where
  "ex_checked2 = run_state (checkAndBuildValidResource ex_utc
     (snd (fst ex_checked))) ex_shop"

theorem checkAndBuildValidResource_idem_witness:
  "fst ex_checked2 = (Inr False, snd (fst ex_checked))"
proof -
  have c: "fst (fst ex_checked) = Inr True" "fst (fst ex_checked2) = Inr False" by code_simp+
  then have "run_state (checkAndBuildValidResource ex_utc ex_policy) ex_shop = ((Inr True, snd (fst ex_checked)), snd ex_checked)"
    "run_state (checkAndBuildValidResource ex_utc (snd (fst ex_checked))) ex_shop =
      ((Inr False, snd (fst ex_checked2)), snd ex_checked2)"
    by (simp_all add: ex_checked_def ex_checked2_def prod_eq_iff)
  from checkAndBuildValidResource_idem [OF mem.kube_api_axioms this(1) refl this(2)] c
  show ?thesis by (simp add: prod_eq_iff)
qed

section \<open>The policy that rules\<close>

text \<open>
  A policy rules a namespace when it is the requested one and is being deleted, or else when it is the
  only one, or the one of two that is not the default.
\<close>

definition policies :: "view \<Rightarrow> string \<Rightarrow> sleep_policy set" where
  "policies v ns = {p. \<exists>n. v (KSleepPolicy, ns, n) = Some (SleepPolicyObj p)}"

definition leaving :: "string \<Rightarrow> sleep_policy \<Rightarrow> bool" where
  "leaving name p \<longleftrightarrow> om_name (pol_meta p) = name \<and> om_deletion (pol_meta p) \<noteq> None"

definition is_default :: "sleep_policy \<Rightarrow> bool" where
  "is_default p \<longleftrightarrow> om_name (pol_meta p) = DefaultSleepPolicyName"

definition ruling :: "sleep_policy set \<Rightarrow> string \<Rightarrow> sleep_policy \<Rightarrow> bool" where
  "ruling P name p \<longleftrightarrow> p \<in> P \<and>
     (leaving name p \<or>
      (\<forall>q \<in> P. \<not> leaving name q) \<and>
        (P = {p} \<or> (\<exists>q. P = {p, q} \<and> is_default q \<and> \<not> is_default p)))"

lemma find_unique:
  assumes "distinct (map f xs)" "\<And>x. x \<in> set xs \<Longrightarrow> P x \<Longrightarrow> f x = a"
  shows "find P xs = Some x \<longleftrightarrow> x \<in> set xs \<and> P x"
  using assms by (induction xs) (auto simp: image_iff)

lemma selectPolicy_ruling:
  assumes d: "distinct (map (\<lambda>p. om_name (pol_meta p)) items)"
  shows "selectPolicy name items = Inr (Some p) \<longleftrightarrow> ruling (set items) name p"
    and "selectPolicy name items = Inr None \<longleftrightarrow> items = []"
proof -
  let ?f = "find (\<lambda>sp. om_name (pol_meta sp) = name \<and> om_deletion (pol_meta sp) \<noteq> None) items"
  have found: "?f = Some q \<longleftrightarrow> q \<in> set items \<and> leaving name q" for q
    unfolding leaving_def by (rule find_unique [OF d]) simp
  have "selectPolicy name items = Inr (Some p) \<longleftrightarrow> ruling (set items) name p \<and> True"
  proof (cases ?f)
    case (Some q)
    then have q: "q \<in> set items" "leaving name q" using found by auto
    moreover have "p = q" if "leaving name p" "p \<in> set items"
      using found [of p] that Some by simp
    ultimately show ?thesis using Some by (auto simp: selectPolicy_def ruling_def)
  next
    case None
    then have none: "\<forall>q \<in> set items. \<not> leaving name q" using found by auto
    consider "items = []" | a where "items = [a]" | a b where "items = [a, b]" | a b c r where "items = a # b # c # r"
      by (metis list.exhaust)
    then show ?thesis
    proof cases
      case (3 a b)
      then show ?thesis using d None none
        by (auto simp: selectPolicy_def ruling_def is_default_def doubleton_eq_iff)
    next
      case (4 a b c r)
      have "card (set items) = length items" using d distinct_card distinct_map by blast
      then have big: "card (set items) \<ge> 3" using 4 by simp
      have "set items \<noteq> {p, q}" for q
      proof
        assume "set items = {p, q}"
        then have "card (set items) \<le> 2" by (simp add: card_insert_if)
        with big show False by simp
      qed
      from this this [of p] have "set items \<noteq> {p}" "\<And>q. set items \<noteq> {p, q}" by auto
      then show ?thesis using 4 None none by (auto simp: selectPolicy_def ruling_def)
    qed (use None none in \<open>auto simp: selectPolicy_def ruling_def\<close>)
  qed
  then show "selectPolicy name items = Inr (Some p) \<longleftrightarrow> ruling (set items) name p" by simp
  show "selectPolicy name items = Inr None \<longleftrightarrow> items = []"
    by (auto simp: selectPolicy_def split: option.splits list.splits)
qed


lemma map_filter_policies:
  assumes "\<And>ob. ob \<in> set obs \<Longrightarrow> \<exists>p. ob = SleepPolicyObj p"
  shows "map SleepPolicyObj (List.map_filter the_policy obs) = obs"
  using assms by (induction obs) (fastforce simp: List.map_filter_simps)+

context kube_api
begin

lemma policies_listed:
  assumes "list_result (V w) KSleepPolicy ns (Inr obs)"
  shows "set (List.map_filter the_policy obs) = policies (V w) ns"
    and "distinct (map (\<lambda>p. om_name (pol_meta p)) (List.map_filter the_policy obs))"
    and "map SleepPolicyObj (List.map_filter the_policy obs) = obs"
proof -
  have ex: "\<exists>p. ob = SleepPolicyObj p" if "ob \<in> set obs" for ob
  proof -
    from that assms obtain n where "V w (KSleepPolicy, ns, n) = Some ob" by (auto simp: list_result_def)
    from view_key [OF this] show ?thesis by (cases ob) (auto simp: obj_key_def)
  qed
  from map_filter_policies [OF this] show eq: "map SleepPolicyObj (List.map_filter the_policy obs) = obs" .
  have "map (\<lambda>p. om_name (pol_meta p)) ps = map obj_name (map SleepPolicyObj ps)" for ps
    by (simp add: obj_name_def comp_def)
  then show "distinct (map (\<lambda>p. om_name (pol_meta p)) (List.map_filter the_policy obs))"
    using list_names(2) [OF assms] by (simp only: eq)
  have "SleepPolicyObj p \<in> set obs \<longleftrightarrow> p \<in> policies (V w) ns" for p
    using assms by (auto simp: list_result_def policies_def)
  moreover have "p \<in> set (List.map_filter the_policy obs) \<longleftrightarrow> SleepPolicyObj p \<in> set obs" for p
    using arg_cong [OF eq, of set] by force
  ultimately show "set (List.map_filter the_policy obs) = policies (V w) ns" by auto
qed

lemma wp_Fetch:
  assumes "\<And>e w'. V w' = V w \<Longrightarrow> Q (Inl e) w'"
    and "\<And>w'. V w' = V w \<Longrightarrow> Q (Inr None) w'"
    and "\<And>p w'. V w' = V w \<Longrightarrow> ruling (policies (V w) ns) name p \<Longrightarrow> Q (Inr (Some p)) w'"
  shows "wp (FetchSleepPolicyOrContinue E ns name) Q w"
  unfolding FetchSleepPolicyOrContinue_def wp_bind
proof (rule wp_List, goal_cases)
  case (1 l w')
  show ?case
  proof (cases l)
    case (Inr obs)
    note L = policies_listed [OF 1(2) [unfolded Inr]]
    let ?s = "selectPolicy name (List.map_filter the_policy obs)"
    consider e where "?s = Inl e" | "?s = Inr None" | p where "?s = Inr (Some p)"
      by (metis sum.exhaust option.exhaust)
    then show ?thesis
    proof cases
      case (3 p)
      then have "ruling (policies (V w) ns) name p"
        using selectPolicy_ruling(1) [OF L(2), of name p] L(1) by simp
      then show ?thesis using 1 3 by (simp add: Inr assms(3))
    qed (use assms 1 in \<open>simp_all add: Inr\<close>)
  qed (use 1 assms in simp)
qed

end

context reliable_api
begin

lemma wp_Fetch_ok:
  assumes "H w"
    and "\<And>r w'. H w' \<Longrightarrow> C w \<le> C w' \<Longrightarrow> V w' = V w \<Longrightarrow>
      (r = Inr None \<longleftrightarrow> policies (V w) ns = {}) \<Longrightarrow>
      (\<And>p. r = Inr (Some p) \<longleftrightarrow> ruling (policies (V w) ns) name p) \<Longrightarrow>
      (\<And>e. r = Inl e \<Longrightarrow> e = ErrTooManyPolicies (card (policies (V w) ns))) \<Longrightarrow> Q r w'"
  shows "wp (FetchSleepPolicyOrContinue E ns name) Q w"
  unfolding FetchSleepPolicyOrContinue_def wp_bind
proof (rule wp_List_ok [OF assms(1)], goal_cases)
  case (1 obs w')
  note L = policies_listed [OF 1(4)]
  let ?it = "List.map_filter the_policy obs"
  have "card (policies (V w) ns) = length ?it" using L(1,2) distinct_card distinct_map by metis
  then have "selectPolicy name ?it = Inl e \<Longrightarrow> e = ErrTooManyPolicies (card (policies (V w) ns))" for e
    by (auto simp: selectPolicy_def split: option.splits list.splits if_splits)
  moreover have "?it = [] \<longleftrightarrow> policies (V w) ns = {}" by (metis L(1) set_empty)
  ultimately show ?case
    using 1 selectPolicy_ruling [OF L(2), of name] L(1) by (simp add: assms(2))
qed

end

text \<open>
  C27: when the API answers, the policy picked for a namespace does not depend on the order of the
  listing: it is the requested policy if that one is being deleted, otherwise the only policy, or the
  one of two that is not the default; with no policy nothing is picked, and in every other case the
  answer is the error that counts the policies.  Picking writes nothing.
\<close>

theorem FetchSleepPolicyOrContinue_ruling:
  assumes "reliable_api E V H C" and "H w"
    and "run_state (FetchSleepPolicyOrContinue E ns name) w = (r, w')"
  shows "V w' = V w \<and>
    (r = Inr None \<longleftrightarrow> policies (V w) ns = {}) \<and>
    (r = Inr (Some p) \<longleftrightarrow> ruling (policies (V w) ns) name p) \<and>
    (r = Inl e \<longrightarrow> e = ErrTooManyPolicies (card (policies (V w) ns)))"
proof -
  have "wp (FetchSleepPolicyOrContinue E ns name) (\<lambda>r w'. V w' = V w \<and>
      (r = Inr None \<longleftrightarrow> policies (V w) ns = {}) \<and>
      (r = Inr (Some p) \<longleftrightarrow> ruling (policies (V w) ns) name p) \<and>
      (r = Inl e \<longrightarrow> e = ErrTooManyPolicies (card (policies (V w) ns)))) w"
    by (rule reliable_api.wp_Fetch_ok [OF assms(1,2)]) blast
  from wp_run [OF this assms(3)] show ?thesis .
qed

text \<open>The default policy and one of the user.\<close>

definition ex_own :: sleep_policy where
  "ex_own = ex_policy\<lparr>pol_meta := ex_pol_meta\<lparr>om_name := ''mine''\<rparr>\<rparr>"

definition ex_default :: sleep_policy where
  "ex_default = ex_policy\<lparr>pol_meta := ex_pol_meta\<lparr>om_name := DefaultSleepPolicyName\<rparr>\<rparr>"

definition ex_two :: mem where
  "ex_two = ex_shop\<lparr>m_objs := [SleepPolicyObj ex_default, SleepPolicyObj ex_own]\<rparr>"

theorem FetchSleepPolicyOrContinue_ruling_witness:
  "ruling (policies (mem_view ex_two) ''shop'') ''default-sleeppolicy'' ex_own"
proof -
  let ?run = "run_state (FetchSleepPolicyOrContinue ex_utc ''shop'' ''default-sleeppolicy'') ex_two"
  have h: "mem_healthy ex_two" by (simp add: mem_healthy_def ex_two_def ex_shop_def)
  have "fst ?run = Inr (Some ex_own)" by code_simp
  moreover have "?run = (fst ?run, snd ?run)" by simp
  ultimately show ?thesis
    using FetchSleepPolicyOrContinue_ruling [OF mem.reliable_api_axioms h] by metis
qed

text \<open>
  C26: when it does not fail, the state the policy asks for has exactly one entry for each Deployment
  and StatefulSet of its namespace that has effective parameters, under a name of its own: from the
  entry of its own name if the policy has one, else from the \<open>default\<close> entry, and none when that entry
  is disabled.  Building it writes nothing.
\<close>

theorem buildTheDesiredState_desired:
  assumes "kube_api E V"
    and "run_state (buildTheDesiredState E c pol) w = (Inr ds, w')"
  shows "V w' = V w \<and> (fmlookup ds x = Some p \<longleftrightarrow> desired_entry c pol (V w) x p)"
proof -
  have "wp (buildTheDesiredState E c pol) (\<lambda>r w'. case r of Inl _ \<Rightarrow> True
      | Inr ds \<Rightarrow> V w' = V w \<and> (fmlookup ds x = Some p \<longleftrightarrow> desired_entry c pol (V w) x p)) w"
    by (rule kube_api.wp_buildTheDesiredState [OF assms(1)]) simp_all
  from wp_run [OF this assms(2)] show ?thesis by simp
qed

text \<open>The validated policy of the example asks for the default shift of its one workload.\<close>

theorem buildTheDesiredState_desired_witness:
  "desired_entry (Load (\<lambda>_. '''')) (snd (fst ex_checked)) (mem_view ex_shop) ''office-dep-web''
     \<lparr>rp_Name = ''web'', rp_Namespace = ''shop'', rp_Kind = ''Deployment'', rp_SleepAt = ''20:00'',
      rp_WakeAt = ''08:00'', rp_Timezone = ''UTC'',
      rp_WorkingDays = ''Monday,Tuesday,Wednesday,Thursday,Friday,Saturday,Sunday''\<rparr>"
  (is "desired_entry ?c ?pol _ ?x ?p")
proof -
  let ?run = "run_state (buildTheDesiredState ex_utc ?c ?pol) ex_shop"
  have "(case fst ?run of Inl _ \<Rightarrow> None | Inr ds \<Rightarrow> fmlookup ds ?x) = Some ?p" by code_simp
  then obtain ds where "fst ?run = Inr ds" "fmlookup ds ?x = Some ?p" by (auto split: sum.splits)
  moreover from this have "?run = (Inr ds, snd ?run)" by (simp add: prod_eq_iff)
  ultimately show ?thesis using buildTheDesiredState_desired [OF mem.kube_api_axioms] by blast
qed

end
