(* ===== verification/Sleep_Policy_Safe.thy ===== *)
theory Sleep_Policy_Safe
  imports Sleep_Policy_Logic
begin

text \<open>
  What a reconciliation of the SleepPolicy controller may do, whatever calls fail: which objects it
  may touch, and into what it may turn each of them.
\<close>

section \<open>What may become of an order\<close>

text \<open>An order that the controller has written for the parameters \<open>p\<close> of policy \<open>pol\<close>.\<close>

definition made_for :: "sleep_policy \<Rightarrow> resource_sleep_params \<Rightarrow> sleep_order \<Rightarrow> bool" where
  "made_for pol p so \<longleftrightarrow>
     ord_spec so = ord_spec (newSleepOrder pol p) \<and>
     om_annotations (ord_meta so) = Some (fmupd configHashAnnotationKey (ConfigHashCalc p) fmempty) \<and>
     om_finalizers (ord_meta so) = [] \<and> om_owner (ord_meta so) = Some (om_name (pol_meta pol)) \<and>
     om_deletion (ord_meta so) = None"

text \<open>Gone, or marked for deletion.\<close>

definition dropped :: "client_object option \<Rightarrow> client_object option \<Rightarrow> bool" where
  "dropped old new \<longleftrightarrow> new = None \<or> (\<exists>ob d rv. old = Some ob \<and> new = Some (with_rv rv (marked d ob)))"

text \<open>
  Written as the desired one; an order that was being deleted goes away instead, because the update
  takes its finalizers off.
\<close>

definition deployed ::
  "sleep_policy \<Rightarrow> (resource_sleep_params \<Rightarrow> bool) \<Rightarrow> client_object option \<Rightarrow> client_object option \<Rightarrow> bool" where
  "deployed pol D old new \<longleftrightarrow>
     (\<exists>p. D p \<and>
       ((\<exists>so. new = Some (SleepOrderObj so) \<and> made_for pol p so) \<or>
        (new = None \<and> (\<exists>ob. old = Some ob \<and> om_deletion (obj_meta ob) \<noteq> None))))"

definition evolves ::
  "sleep_policy \<Rightarrow> (resource_sleep_params \<Rightarrow> bool) \<Rightarrow> client_object option \<Rightarrow> client_object option \<Rightarrow> bool" where
  "evolves pol D old new \<longleftrightarrow>
     new = old \<or> ((\<forall>p. \<not> D p) \<and> dropped old new) \<or> deployed pol D old new"

text \<open>The orders of namespace \<open>ns\<close> evolve, and nothing else changes.\<close>

definition orders_evolve ::
  "string \<Rightarrow> sleep_policy \<Rightarrow> (string \<Rightarrow> resource_sleep_params \<Rightarrow> bool) \<Rightarrow> view \<Rightarrow> view \<Rightarrow> bool" where
  "orders_evolve ns pol D v v' \<longleftrightarrow>
     (\<forall>k. (\<forall>x. k \<noteq> (KSleepOrder, ns, x)) \<longrightarrow> v' k = v k) \<and>
     (\<forall>x. evolves pol (D x) (v (KSleepOrder, ns, x)) (v' (KSleepOrder, ns, x)))"

lemma marked_again [simp]:
  "with_rv a (marked d (with_rv b (marked e ob))) = with_rv a (marked e ob)"
  by (cases ob) (auto simp: with_rv_def marked_def split: option.splits)

lemma dropped_trans: "dropped u v \<Longrightarrow> dropped v w \<Longrightarrow> dropped u w"
  by (fastforce simp: dropped_def)

lemma evolves_refl [simp]: "evolves pol D v v"
  by (simp add: evolves_def)

lemma evolves_trans:
  assumes "evolves pol D u v" "evolves pol D v w"
  shows "evolves pol D u w"
  using assms dropped_trans [of u v w]
  by (auto simp: evolves_def deployed_def made_for_def)

lemma orders_evolve_refl [simp]: "orders_evolve ns pol D v v"
  by (simp add: orders_evolve_def)

lemma orders_evolve_trans:
  assumes "orders_evolve ns pol D u v" "orders_evolve ns pol D v w"
  shows "orders_evolve ns pol D u w"
  using assms by (auto simp: orders_evolve_def intro: evolves_trans)

lemma orders_evolve_one:
  assumes "evolves pol (D x) (v (KSleepOrder, ns, x)) new"
  shows "orders_evolve ns pol D v (v((KSleepOrder, ns, x) := new))"
  using assms by (auto simp: orders_evolve_def)

section \<open>The loops\<close>

context controllers
begin

lemma delete_dropped:
  assumes "applied_delete (V w) ob v'" "obj_key ob = (KSleepOrder, ns, x)"
  shows "\<exists>new. v' = (V w)((KSleepOrder, ns, x) := new) \<and> dropped (V w (KSleepOrder, ns, x)) new"
  using assms by (fastforce simp: applied_delete_def dropped_def)

lemma wp_deleteLoop:
  assumes "orders_evolve ns pol D v (V w)"
    and "\<And>ob. ob \<in> set items \<Longrightarrow> obj_key ob = (KSleepOrder, ns, obj_name ob)"
    and "\<And>x p. fmlookup ds x = Some p \<longleftrightarrow> D x p"
    and "\<And>r w'. orders_evolve ns pol D v (V w') \<Longrightarrow> Q r w'"
  shows "wp (deleteLoop E ds items) Q w"
  using assms(1,2)
proof (induction items arbitrary: w)
  case (Cons ob items)
  show ?case
  proof (cases "fmlookup ds (obj_name ob)")
    case None
    then have no: "\<not> D (obj_name ob) p" for p using assms(3) by (metis option.distinct(1))
    have "wp (x_Delete E ob) (\<lambda>d. wp (case d of None \<Rightarrow> deleteLoop E ds items
        | Some e \<Rightarrow> if \<not> IsNotFound e then ret (Some e) else deleteLoop E ds items) Q) w"
    proof (rule wp_Delete, goal_cases)
      case (1 d w')
      have "orders_evolve ns pol D (V w) (V w')"
      proof -
        from 1(1) have "V w' = V w \<or> (\<exists>new. V w' = (V w)((KSleepOrder, ns, obj_name ob) := new) \<and>
            dropped (V w (KSleepOrder, ns, obj_name ob)) new)"
          using delete_dropped Cons.prems(2) by auto
        then show ?thesis
          using no by (auto simp: evolves_def intro!: orders_evolve_one)
      qed
      with Cons.prems(1) have "orders_evolve ns pol D v (V w')" by (rule orders_evolve_trans)
      then show ?case using Cons.IH Cons.prems(2) assms(4) by (auto split: option.split)
    qed
    then show ?thesis using None by simp
  qed (use Cons in simp)
qed (simp add: assms(4))

lemma wp_deleteUndesired:
  assumes "orders_evolve ns pol D v (V w)"
    and "\<And>x p. fmlookup ds x = Some p \<longleftrightarrow> D x p"
    and "\<And>r w'. orders_evolve ns pol D v (V w') \<Longrightarrow> Q r w'"
  shows "wp (deleteUndesiredResources E ns ds) Q w"
  unfolding deleteUndesiredResources_def wp_bind
proof (rule wp_List, goal_cases)
  case (1 l w')
  show ?case
  proof (cases l)
    case (Inr items)
    have "obj_key ob = (KSleepOrder, ns, obj_name ob)" if "ob \<in> set items" for ob
    proof -
      from that have "V w (KSleepOrder, ns, obj_name ob) = Some ob"
        using list_names(1) [OF 1(2) [unfolded Inr]] by simp
      from view_key [OF this] show ?thesis .
    qed
    then show ?thesis using assms 1 by (simp add: Inr wp_deleteLoop)
  qed (use 1 assms in simp)
qed

text \<open>The order of the desired parameters, and its key.\<close>

lemma new_order_key:
  "om_name (ord_meta (newSleepOrder pol p)) = getSleepOrderName (om_name (pol_meta pol)) (rp_Kind p) (rp_Name p)"
  "om_namespace (ord_meta (newSleepOrder pol p)) = rp_Namespace p"
  by (simp_all add: newSleepOrder_def)

lemma with_hash_simps:
  "om_name (with_hash p m) = om_name m" "om_namespace (with_hash p m) = om_namespace m"
  "om_finalizers (with_hash p m) = om_finalizers m" "om_owner (with_hash p m) = om_owner m"
  "om_rv (with_hash p m) = om_rv m" "om_deletion (with_hash p m) = om_deletion m"
  "om_annotations (with_hash p m) = Some (fmupd configHashAnnotationKey (ConfigHashCalc p) fmempty)"
  by (simp_all add: with_hash_def)

lemma norm_hash [simp]: "norm_map (Some (fmupd k v fmempty)) = Some (fmupd k v fmempty)"
  by (metis norm_map_def fmempty_lookup fmupd_lookup option.distinct(1) option.inject)

lemma new_order_written:
  assumes m: "m = (with_hash p ((ord_meta (newSleepOrder pol p))\<lparr>om_rv := r\<rparr>))\<lparr>om_owner := Some (om_name (pol_meta pol))\<rparr>"
    and ob: "ob' = with_rv rv (write_over old (SleepOrderObj ((newSleepOrder pol p)\<lparr>ord_meta := m\<rparr>)))"
    and old: "obj_kind old = KSleepOrder"
  shows "released ob' \<longleftrightarrow> om_deletion (obj_meta old) \<noteq> None"
    and "om_deletion (obj_meta old) = None \<Longrightarrow> \<exists>so. ob' = SleepOrderObj so \<and> made_for pol p so"
proof -
  obtain so0 where so0: "old = SleepOrderObj so0" using old by (cases old) auto
  show "released ob' \<longleftrightarrow> om_deletion (obj_meta old) \<noteq> None"
    by (simp add: ob released_def m with_hash_simps newSleepOrder_def)
  show "\<exists>so. ob' = SleepOrderObj so \<and> made_for pol p so" if "om_deletion (obj_meta old) = None"
    using that by (auto simp: ob so0 write_over_def with_rv_def made_for_def m norm_meta_def
        with_hash_simps newSleepOrder_def)
qed

lemma new_order_created:
  assumes m: "m = (with_hash p (ord_meta (newSleepOrder pol p)))\<lparr>om_owner := Some (om_name (pol_meta pol))\<rparr>"
    and ob: "ob' = with_rv rv (created c (SleepOrderObj ((newSleepOrder pol p)\<lparr>ord_meta := m\<rparr>)))"
  shows "\<exists>so. ob' = SleepOrderObj so \<and> made_for pol p so"
  by (auto simp: ob created_def with_rv_def made_for_def m norm_meta_def with_hash_simps newSleepOrder_def)

lemma wp_needToDeploy:
  assumes "\<And>r w'. V w' = V w \<Longrightarrow> Q r w'"
  shows "wp (needToDeploySleepOrder E n p) Q w"
  unfolding needToDeploySleepOrder_def Let_def wp_bind
  by (rule wp_getSleepOrder) (auto intro: assms)

lemma wp_DeploySleepOrder:
  assumes x: "x = getSleepOrderName (om_name (pol_meta pol)) (rp_Kind p) (rp_Name p)" "rp_Namespace p = ns"
    and D: "D x p"
    and Q: "\<And>r w'. orders_evolve ns pol D (V w) (V w') \<Longrightarrow> Q r w'"
  shows "wp (DeploySleepOrderResource E pol p act) Q w"
proof -
  let ?new = "newSleepOrder pol p"
  have key: "obj_key (SleepOrderObj (?new\<lparr>ord_meta := m\<lparr>om_owner := Some ow\<rparr>\<rparr>)) = (KSleepOrder, ns, x)"
    if "om_name m = om_name (ord_meta ?new)" "om_namespace m = om_namespace (ord_meta ?new)" for m ow
    using that x by (simp add: obj_key_def new_order_key)
  show ?thesis
  proof (cases act)
    case ActionCreate
    show ?thesis
    proof (cases "x_SetControllerReference E pol (with_hash p (ord_meta ?new))")
      case (Inr m)
      note m = owner_law [OF Inr]
      have "wp (x_Create E (SleepOrderObj (?new\<lparr>ord_meta := m\<rparr>)))
          (\<lambda>r. wp (ret (case r of Inl e \<Rightarrow> Some e | Inr _ \<Rightarrow> None)) Q) w"
      proof (rule wp_Create, goal_cases)
        case (1 r w')
        have k: "obj_key (SleepOrderObj (?new\<lparr>ord_meta := m\<rparr>)) = (KSleepOrder, ns, x)"
          unfolding m by (rule key) (simp_all add: with_hash_simps)
        have "orders_evolve ns pol D (V w) (V w')"
          if "applied_create (V w) (SleepOrderObj (?new\<lparr>ord_meta := m\<rparr>)) ob' (V w')" for ob'
        proof -
          from that [unfolded applied_create_def k] obtain c rv where ob': "ob' = with_rv rv (created c (SleepOrderObj (?new\<lparr>ord_meta := m\<rparr>)))"
            "V w' = (V w)((KSleepOrder, ns, x) \<mapsto> ob')"
            by blast
          from new_order_created [OF m ob'(1)] obtain so where "ob' = SleepOrderObj so" "made_for pol p so" by blast
          then show ?thesis
            using D unfolding ob'(2) by (auto simp: evolves_def deployed_def intro!: orders_evolve_one)
        qed
        with 1 show ?case by (auto simp: write_result_def intro!: Q split: sum.splits)
      qed
      then show ?thesis using ActionCreate Inr by (simp add: DeploySleepOrderResource_def Let_def)
    qed (simp add: ActionCreate DeploySleepOrderResource_def Let_def Q)
  next
    case ActionUpdate
    have upd: "wp (x_Update E (SleepOrderObj (?new\<lparr>ord_meta := m\<rparr>)))
          (\<lambda>r. wp (ret (case r of Inl e \<Rightarrow> Some e | Inr _ \<Rightarrow> None)) Q) w1"
      if v1: "V w1 = V w" and m: "m = (with_hash p ((ord_meta ?new)\<lparr>om_rv := rv\<rparr>))\<lparr>om_owner := Some (om_name (pol_meta pol))\<rparr>"
      for w1 m rv
    proof (rule wp_Update, goal_cases)
      case (1 r w')
      have k: "obj_key (SleepOrderObj (?new\<lparr>ord_meta := m\<rparr>)) = (KSleepOrder, ns, x)"
        unfolding m by (rule key) (simp_all add: with_hash_simps)
      have "orders_evolve ns pol D (V w) (V w')"
        if "applied_update (V w1) (SleepOrderObj (?new\<lparr>ord_meta := m\<rparr>)) ob' (V w')" for ob'
      proof -
        from that [unfolded applied_update_def k v1] obtain old rv' where ob':
          "V w (KSleepOrder, ns, x) = Some old" "ob' = with_rv rv' (write_over old (SleepOrderObj (?new\<lparr>ord_meta := m\<rparr>)))"
          "V w' = (V w)((KSleepOrder, ns, x) := (if released ob' then None else Some ob'))"
          by blast
        have kind: "obj_kind old = KSleepOrder" using view_key [OF ob'(1)] by (simp add: obj_key_def)
        from new_order_written [OF m ob'(2) kind]
        show ?thesis
          using D ob'(1) unfolding ob'(3) by (auto simp: evolves_def deployed_def intro!: orders_evolve_one)
      qed
      with 1 v1 show ?case by (auto simp: write_result_def intro!: Q split: sum.splits)
    qed
    show ?thesis
      unfolding ActionUpdate DeploySleepOrderResource_def Let_def action.case wp_bind
    proof (rule wp_getSleepOrder, goal_cases)
      case (1 g w1)
      then show ?case
        by (auto simp: Q intro!: upd [OF _ owner_law] split: sum.split)
    qed
  qed (simp add: DeploySleepOrderResource_def Let_def Q)
qed

lemma wp_applyLoop:
  assumes "orders_evolve ns pol D v (V w)"
    and "\<And>x p. (x, p) \<in> set ps \<Longrightarrow> D x p \<and> rp_Namespace p = ns \<and>
      x = getSleepOrderName (om_name (pol_meta pol)) (rp_Kind p) (rp_Name p)"
    and Q: "\<And>r w'. orders_evolve ns pol D v (V w') \<Longrightarrow> Q r w'"
  shows "wp (applyLoop E pol ps) Q w"
  using assms(1,2)
proof (induction ps arbitrary: w)
  case (Cons xp ps)
  obtain x p where xp: "xp = (x, p)" by (cases xp)
  have D: "D x p" "rp_Namespace p = ns" "x = getSleepOrderName (om_name (pol_meta pol)) (rp_Kind p) (rp_Name p)"
    using Cons.prems(2) xp by auto
  have IH: "wp (applyLoop E pol ps) Q w1" if "orders_evolve ns pol D v (V w1)" for w1
    by (rule Cons.IH [OF that]) (use Cons.prems(2) in auto)
  have deploy: "wp (DeploySleepOrderResource E pol p act)
      (\<lambda>d. wp (case d of Some e \<Rightarrow> ret (Some e) | None \<Rightarrow> applyLoop E pol ps) Q) w1"
    if "orders_evolve ns pol D v (V w1)" for act w1
    using orders_evolve_trans [OF that]
    by (auto intro!: wp_DeploySleepOrder [where D = D, OF D(3,2,1)] IH Q split: option.split)
  show ?case
    unfolding xp applyLoop.simps wp_bind
  proof (rule wp_needToDeploy, goal_cases)
    case (1 r w1)
    then show ?case
      using Cons.prems(1) IH [of w1] deploy [of w1] by (auto simp: Q split: sum.split prod.split)
  qed
qed (simp add: Q)

end

section \<open>The policy itself\<close>

text \<open>
  The entries of a policy stay, whatever the controller adds.  A policy only goes away when it is
  being deleted.
\<close>

definition entries_kept :: "sleep_policy \<Rightarrow> sleep_policy \<Rightarrow> bool" where
  "entries_kept p p' \<longleftrightarrow>
     sp_Timezone (pol_spec p') = sp_Timezone (pol_spec p) \<and>
     (\<forall>n e. nil_lookup (sp_Deployments (pol_spec p)) n = Some e \<longrightarrow> nil_lookup (sp_Deployments (pol_spec p')) n = Some e) \<and>
     (\<forall>n e. nil_lookup (sp_StatefulSets (pol_spec p)) n = Some e \<longrightarrow> nil_lookup (sp_StatefulSets (pol_spec p')) n = Some e)"

definition policy_kept :: "sleep_policy \<Rightarrow> client_object option \<Rightarrow> bool" where
  "policy_kept p new \<longleftrightarrow>
     (case new of None \<Rightarrow> om_deletion (pol_meta p) \<noteq> None
      | Some ob \<Rightarrow> \<exists>p'. ob = SleepPolicyObj p' \<and> entries_kept p p' \<and>
          om_deletion (pol_meta p') = om_deletion (pol_meta p))"

definition policy_key :: "sleep_policy \<Rightarrow> okey" where
  "policy_key p = (KSleepPolicy, om_namespace (pol_meta p), om_name (pol_meta p))"

lemma norm_map_nil [simp]: "nil_lookup (norm_map m) k = nil_lookup m k"
  by (simp add: nil_lookup_def)

lemma validated_kept:
  assumes "validated names m m' ch" "nil_lookup m n = Some e"
  shows "nil_lookup m' n = Some e"
  using assms by (auto simp: validated_def nil_lookup_made [of m] nil_lookup_def [of "Some _"] split: if_splits)

lemma policy_validated_kept:
  assumes "policy_validated v p p' ch"
  shows "entries_kept p p'" "policy_key p' = policy_key p" "om_deletion (pol_meta p') = om_deletion (pol_meta p)"
  using assms by (auto simp: policy_validated_def entries_kept_def policy_key_def dest: validated_kept)

lemma policy_written:
  assumes "ob' = with_rv rv (write_over (SleepPolicyObj p) (SleepPolicyObj q))" "entries_kept p q"
  shows "policy_kept p (if released ob' then None else Some ob')"
  using assms by (auto simp: policy_kept_def entries_kept_def write_over_def with_rv_def released_def
      norm_policy_spec_def norm_meta_def)

lemma policy_reported:
  assumes "ob' = with_rv rv (status_over (SleepPolicyObj p) (SleepPolicyObj q))"
  shows "policy_kept p (Some ob')"
  using assms by (auto simp: policy_kept_def entries_kept_def with_rv_def)

lemma policy_kept_same: "policy_kept p (Some (SleepPolicyObj p))"
  by (auto simp: policy_kept_def entries_kept_def)

lemma desired_entry_facts:
  assumes "desired_entry c pol v x p"
  shows "x = getSleepOrderName (om_name (pol_meta pol)) (rp_Kind p) (rp_Name p)"
    "rp_Namespace p = om_namespace (pol_meta pol)" "rp_Kind p \<in> {kindDeployment, kindStatefulSet}"
  using assms by (auto simp: desired_entry_def entry_of_def getEffectiveParams_fields)

text \<open>
  The whole effect on the view: the orders of the namespace evolve towards what policy \<open>pol\<close> desires,
  the policy (stored as \<open>p0\<close>) is kept, and nothing else changes.
\<close>

definition policy_effect ::
  "sleep_policy \<Rightarrow> sleep_policy \<Rightarrow> (string \<Rightarrow> resource_sleep_params \<Rightarrow> bool) \<Rightarrow> view \<Rightarrow> view \<Rightarrow> bool" where
  "policy_effect p0 pol D v v' \<longleftrightarrow>
     orders_evolve (om_namespace (pol_meta p0)) pol D v (v'(policy_key p0 := v (policy_key p0))) \<and>
     policy_kept p0 (v' (policy_key p0))"

lemma orders_evolve_policy:
  assumes "orders_evolve ns pol D v v'"
  shows "v' (KSleepPolicy, a, b) = v (KSleepPolicy, a, b)"
  using assms by (auto simp: orders_evolve_def)

lemma policy_effect_orders:
  assumes "orders_evolve (om_namespace (pol_meta p0)) pol D v v'" "v (policy_key p0) = Some (SleepPolicyObj p0)"
  shows "policy_effect p0 pol D v v'"
  using assms orders_evolve_policy [OF assms(1)]
  by (simp add: policy_effect_def policy_key_def policy_kept_same fun_upd_idem)

lemma policy_effect_write:
  assumes "orders_evolve (om_namespace (pol_meta p0)) pol D v v1" "v (policy_key p0) = Some (SleepPolicyObj p0)"
    and "v' = v1(policy_key p0 := new)" "policy_kept p0 new"
  shows "policy_effect p0 pol D v v'"
  using assms orders_evolve_policy [OF assms(1)]
  by (simp add: policy_effect_def policy_key_def fun_upd_idem)

text \<open>
  What a whole reconciliation may do in a namespace: nothing, or it acts for the policy that rules;
  orders change only when that policy is valid as it is, not being deleted, and has its finalizer.
\<close>

definition policy_run :: "config \<Rightarrow> string \<Rightarrow> string \<Rightarrow> view \<Rightarrow> view \<Rightarrow> bool" where
  "policy_run c ns name v v' \<longleftrightarrow>
     v' = v \<or>
     (\<exists>p0 pol ch. ruling (policies v ns) name p0 \<and> policy_validated v p0 pol ch \<and>
        policy_effect p0 pol (desired_entry c pol v) v v' \<and>
        (unchanged_but (policy_key p0) v v' \<or>
         \<not> ch \<and> om_deletion (pol_meta p0) = None \<and> sleepPolicyFinalizer \<in> set (om_finalizers (pol_meta p0))))"

context controllers
begin

lemma wp_policy_update:
  assumes v: "V w = v" "v (policy_key p0) = Some (SleepPolicyObj p0)"
    and q: "entries_kept p0 q" "policy_key q = policy_key p0"
    and Q: "\<And>r w'. policy_effect p0 pol D v (V w') \<Longrightarrow> unchanged_but (policy_key p0) v (V w') \<Longrightarrow> Q r w'"
  shows "wp (updateSleepPolicy E q) Q w"
  unfolding updateSleepPolicy_def wp_bind
proof (rule wp_Update, goal_cases)
  case (1 r w')
  have k: "obj_key (SleepPolicyObj q) = policy_key p0" using q(2) by (simp add: policy_key_def obj_key_def)
  have "policy_effect p0 pol D v (V w') \<and> unchanged_but (policy_key p0) v (V w')"
    if "applied_update (V w) (SleepPolicyObj q) ob' (V w')" for ob'
  proof -
    from that [unfolded applied_update_def k v(1)] v(2) obtain rv where
      "ob' = with_rv rv (write_over (SleepPolicyObj p0) (SleepPolicyObj q))"
      "V w' = v(policy_key p0 := (if released ob' then None else Some ob'))" by auto
    with policy_effect_write [where ?p0.0 = p0 and v = v, OF orders_evolve_refl v(2)] policy_written q(1)
    show ?thesis by (metis unchanged_but_def fun_upd_other)
  qed
  moreover have "policy_effect p0 pol D v v" by (rule policy_effect_orders) (simp_all add: v)
  ultimately show ?case using 1 v(1) by (auto simp: write_result_def intro!: Q split: sum.splits)
qed

lemma wp_policy_report:
  assumes v: "orders_evolve (om_namespace (pol_meta p0)) pol D v (V w)" "v (policy_key p0) = Some (SleepPolicyObj p0)"
    and q: "policy_key q = policy_key p0"
    and Q: "\<And>r w'. policy_effect p0 pol D v (V w') \<Longrightarrow> Q r w'"
  shows "wp (x_StatusUpdate E (SleepPolicyObj q)) Q w"
proof (rule wp_StatusUpdate, goal_cases)
  case (1 r w')
  have k: "obj_key (SleepPolicyObj q) = policy_key p0" using q by (simp add: policy_key_def obj_key_def)
  have same: "V w (policy_key p0) = Some (SleepPolicyObj p0)"
    using v orders_evolve_policy [OF v(1)] by (simp add: policy_key_def)
  have "policy_effect p0 pol D v (V w')"
    if "applied_status (V w) (SleepPolicyObj q) ob' (V w')" for ob'
  proof -
    from that [unfolded applied_status_def k] same obtain rv where
      "ob' = with_rv rv (status_over (SleepPolicyObj p0) (SleepPolicyObj q))"
      "V w' = (V w)(policy_key p0 \<mapsto> ob')" by auto
    with policy_effect_write [OF v] policy_reported show ?thesis by metis
  qed
  moreover have "policy_effect p0 pol D v (V w)" by (rule policy_effect_orders [OF v])
  ultimately show ?case using 1 by (auto simp: write_result_def intro!: Q split: sum.splits)
qed

lemma wp_applyPolicy:
  assumes v: "V w (policy_key p0) = Some (SleepPolicyObj p0)" "policy_key pol = policy_key p0"
    and Q: "\<And>r w'. policy_effect p0 pol (desired_entry c pol (V w)) (V w) (V w') \<Longrightarrow> Q r w'"
  shows "wp (applyPolicy E c (om_namespace (pol_meta p0)) pol) Q w"
proof -
  let ?ns = "om_namespace (pol_meta p0)" and ?D = "desired_entry c pol (V w)"
  have ns: "om_namespace (pol_meta pol) = ?ns" using v(2) by (simp add: policy_key_def)
  have QO: "Q r w'" if "orders_evolve ?ns pol ?D (V w) (V w')" for r w'
    by (rule Q) (rule policy_effect_orders [OF that v(1)])
  have upd: "wp (x_StatusUpdate E (SleepPolicyObj (pol\<lparr>pol_status := s\<rparr>))) R w1"
    if "orders_evolve ?ns pol ?D (V w) (V w1)" "\<And>r w'. policy_effect p0 pol ?D (V w) (V w') \<Longrightarrow> R r w'" for w1 s R
    by (rule wp_policy_report [OF that(1) v(1)]) (use v(2) that(2) in \<open>auto simp: policy_key_def\<close>)
  have loop: "wp (applyLoop E pol (x_range E ds)) R w1"
    if "orders_evolve ?ns pol ?D (V w) (V w1)" "\<And>x p. fmlookup ds x = Some p \<longleftrightarrow> ?D x p"
      "\<And>r w'. orders_evolve ?ns pol ?D (V w) (V w') \<Longrightarrow> R r w'" for w1 ds R
  proof (rule wp_applyLoop [OF that(1) _ that(3)], goal_cases)
    case (1 x p)
    then have "fmlookup ds x = Some p" using range_law [of ds] by (metis map_of_is_SomeI)
    then have "?D x p" using that(2) by blast
    then show ?case using desired_entry_facts [of c pol "V w" x p] ns by simp
  qed
  show ?thesis
    unfolding applyPolicy_def wp_bind
  proof (rule wp_buildTheDesiredState, goal_cases)
    case (2 ds w1)
    show ?case
      unfolding sum.case wp_bind
    proof (rule wp_deleteUndesired [where D = ?D and pol = pol and v = "V w"], goal_cases)
      case (3 r w2)
      show ?case
      proof (cases r)
        case None
        show ?thesis
          unfolding None option.case wp_bind
          by (rule loop) (use 2 3 in \<open>auto simp: QO intro!: upd Q split: option.split sum.split\<close>)
      qed (use 3 in \<open>simp add: QO\<close>)
    qed (use 2 in simp_all)
  qed (simp add: QO)
qed

lemma ruling_stored:
  assumes "ruling (policies (V w) ns) name p"
  shows "om_namespace (pol_meta p) = ns" "V w (policy_key p) = Some (SleepPolicyObj p)"
proof -
  from assms obtain n where n: "V w (KSleepPolicy, ns, n) = Some (SleepPolicyObj p)"
    by (auto simp: ruling_def policies_def)
  from view_key [OF n] have "om_namespace (pol_meta p) = ns" "om_name (pol_meta p) = n"
    by (simp_all add: obj_key_def)
  with n show "om_namespace (pol_meta p) = ns" "V w (policy_key p) = Some (SleepPolicyObj p)"
    by (simp_all add: policy_key_def)
qed

lemma wp_Reconcile_SleepPolicy:
  "wp (Reconcile_SleepPolicy E c ns name) (\<lambda>r w'. policy_run c ns name (V w) (V w')) w"
  unfolding Reconcile_SleepPolicy_def wp_bind
proof (rule wp_Fetch, goal_cases)
  case (3 p0 w1)
  note p0 = ruling_stored [OF 3(2)]
  have act: "policy_run c ns name (V w) (V w')"
    if "policy_validated (V w) p0 pol ch" "policy_effect p0 pol (desired_entry c pol (V w)) (V w) (V w')"
      "unchanged_but (policy_key p0) (V w) (V w') \<or>
       \<not> ch \<and> om_deletion (pol_meta p0) = None \<and> sleepPolicyFinalizer \<in> set (om_finalizers (pol_meta p0))" for pol ch w'
    using that 3 by (auto simp: policy_run_def)
  show ?case
    unfolding sum.case option.case wp_bind
  proof (rule wp_check, goal_cases)
    case (1 e p' w2)
    then show ?case using 3 by (simp add: policy_run_def)
  next
    case (2 ch pol w2)
    then have v: "V w2 = V w" and pv: "policy_validated (V w) p0 pol ch" using 3 by simp_all
    note kept = policy_validated_kept [OF pv]
    have upd: "wp (updateSleepPolicy E q) (\<lambda>u. wp (ret (f u)) (\<lambda>r w'. policy_run c ns name (V w) (V w'))) w2"
      if "entries_kept p0 q" "policy_key q = policy_key p0" for q and f :: "go_error + sleep_policy \<Rightarrow> reconcile_result"
      by (rule wp_policy_update [OF v p0(2) that]) (auto intro: act pv)
    have meta: "entries_kept p0 (pol\<lparr>pol_meta := m\<rparr>)" for m
      using kept(1) by (simp add: entries_kept_def)
    have key: "policy_key (pol\<lparr>pol_meta := x_RemoveFinalizer E (pol_meta pol) f\<rparr>) = policy_key p0"
      "policy_key (pol\<lparr>pol_meta := x_AddFinalizer E (pol_meta pol) f\<rparr>) = policy_key p0" for f
      using kept(2) by (simp_all add: policy_key_def add_law remove_law)
    have run: "wp (applyPolicy E c ns pol) (\<lambda>r w'. policy_run c ns name (V w) (V w')) w2"
      if "\<not> ch" "om_deletion (pol_meta pol) = None" "sleepPolicyFinalizer \<in> set (om_finalizers (pol_meta pol))"
      unfolding p0(1) [symmetric]
    proof (rule wp_applyPolicy [where ?p0.0 = p0], goal_cases)
      case (3 r w')
      have "pol_meta pol = pol_meta p0" using pv by (simp add: policy_validated_def)
      then show ?case using act [OF pv] 3 v that p0(1) by simp
    qed (use v p0(2) kept(2) in simp_all)
    show ?case
      unfolding prod.case sum.case using kept
      by (auto simp: upd meta key contains_law intro!: run)
  qed
qed (simp_all add: policy_run_def)

end

end
