(* ===== verification/Sleep_Policy_Live.thy ===== *)
theory Sleep_Policy_Live
  imports Sleep_Policy_Safe
begin

text \<open>
  What the SleepPolicy controller achieves in a healthy world: after the orders are applied every
  desired order is there with the right hash, and the others are gone or marked for deletion.
\<close>

section \<open>What is achieved\<close>

text \<open>The order carries the hash of the parameters: nothing needs to be deployed.\<close>

definition hashed :: "resource_sleep_params \<Rightarrow> client_object option \<Rightarrow> bool" where
  "hashed p old \<longleftrightarrow> (\<exists>so. old = Some (SleepOrderObj so) \<and>
     annotation_value (ord_meta so) configHashAnnotationKey = ConfigHashCalc p)"

definition deleting :: "client_object option \<Rightarrow> bool" where
  "deleting old \<longleftrightarrow> (\<exists>ob. old = Some ob \<and> om_deletion (obj_meta ob) \<noteq> None)"

text \<open>A desired order after the run.\<close>

definition served ::
  "sleep_policy \<Rightarrow> resource_sleep_params \<Rightarrow> client_object option \<Rightarrow> client_object option \<Rightarrow> bool" where
  "served pol p old new \<longleftrightarrow>
     (if hashed p old then new = old
      else if deleting old then new = None
      else \<exists>so. new = Some (SleepOrderObj so) \<and> made_for pol p so)"

text \<open>An undesired one: gone, or marked for deletion when a finalizer holds it.\<close>

definition discarded :: "client_object option \<Rightarrow> client_object option \<Rightarrow> bool" where
  "discarded old new \<longleftrightarrow>
     (case old of None \<Rightarrow> new = None
      | Some ob \<Rightarrow>
          if om_finalizers (obj_meta ob) = [] then new = None
          else \<exists>d rv. new = Some (with_rv rv (marked d ob)))"

lemma made_hashed: "made_for pol p so \<Longrightarrow> hashed p (Some (SleepOrderObj so))"
  by (simp add: made_for_def hashed_def annotation_value_def nil_lookup_def)

lemma served_hashed: "served pol p old new \<Longrightarrow> \<not> deleting old \<Longrightarrow> hashed p new"
  by (auto simp: served_def made_hashed split: if_splits)

section \<open>The loops\<close>

lemma delete_discarded:
  assumes "applied_delete v ob v'" "obj_key ob = (K, ns, x)" "v (K, ns, x) = Some old" "K \<noteq> KNamespace"
  shows "discarded (Some old) (v' (K, ns, x))"
proof -
  have "obj_kind ob \<noteq> KNamespace" using assms(2,4) by (simp add: obj_key_def)
  with assms(1) [unfolded applied_delete_def assms(2)] assms(3) show ?thesis
    by (auto simp: discarded_def) metis
qed

context healthy_controllers
begin

lemma wp_deleteLoop_ok:
  assumes "H w"
    and "distinct (map obj_name items)"
    and "\<And>ob. ob \<in> set items \<Longrightarrow> V w (KSleepOrder, ns, obj_name ob) = Some ob"
    and "\<And>w'. later w w' \<Longrightarrow>
      (\<And>k. (\<forall>ob \<in> set items. k \<noteq> (KSleepOrder, ns, obj_name ob)) \<Longrightarrow> V w' k = V w k) \<Longrightarrow>
      (\<And>ob. ob \<in> set items \<Longrightarrow>
         (if fmlookup ds (obj_name ob) = None
          then discarded (Some ob) (V w' (KSleepOrder, ns, obj_name ob))
          else V w' (KSleepOrder, ns, obj_name ob) = Some ob)) \<Longrightarrow> Q None w'"
  shows "wp (deleteLoop E ds items) Q w"
  using assms
proof (induction items arbitrary: w Q)
  case Nil
  then show ?case by (simp add: later_refl)
next
  case (Cons ob items)
  let ?k = "(KSleepOrder, ns, obj_name ob)"
  have key: "obj_key ob = ?k" using view_key [OF Cons.prems(3)] by simp
  have other: "?k \<noteq> (KSleepOrder, ns, obj_name a)" if "a \<in> set items" for a
    using that Cons.prems(2) by force
  show ?case
  proof (cases "fmlookup ds (obj_name ob)")
    case None
    have "wp (x_Delete E ob) (\<lambda>d. wp (case d of None \<Rightarrow> deleteLoop E ds items
        | Some e \<Rightarrow> if \<not> IsNotFound e then ret (Some e) else deleteLoop E ds items) Q) w"
    proof (rule wp_Delete_ok [OF Cons.prems(1)], goal_cases)
      case (2 w1)
      then have frame: "V w1 k = V w k" if "k \<noteq> ?k" for k
        using that key applied_frame(4) by metis
      have gone: "discarded (Some ob) (V w1 ?k)"
        using delete_discarded [OF 2(3) key] Cons.prems(3) [of ob] by simp
      have rest: "V w1 (KSleepOrder, ns, obj_name a) = Some a" if "a \<in> set items" for a
        using frame [OF other [OF that, symmetric]] Cons.prems(3) that by simp
      have "wp (deleteLoop E ds items) Q w1"
      proof (rule Cons.IH [where w = w1 and Q = Q], goal_cases)
        case (4 w')
        show ?case
        proof (rule Cons.prems(4), goal_cases)
          case (3 a)
          then show ?case using 4 gone None other by (cases "a = ob") (auto simp: other)
        next
          case (2 k)
          then have "V w' k = V w1 k" "k \<noteq> ?k" using 4 by auto
          then show ?case using frame by simp
        qed (use 2 4 in \<open>simp add: later_def\<close>)
      qed (use 2 Cons.prems rest in auto)
      then show ?case by simp
    qed (use Cons.prems(3) key in simp)
    then show ?thesis using None by simp
  next
    case (Some p)
    have "wp (deleteLoop E ds items) Q w"
    proof (rule Cons.IH [OF Cons.prems(1)], goal_cases)
      case (3 w')
      show ?case
        by (rule Cons.prems(4)) (use 3 Some other Cons.prems(3) in auto)
    qed (use Cons.prems in auto)
    then show ?thesis using Some by simp
  qed
qed

lemma wp_deleteUndesired_ok:
  assumes "H w"
    and "\<And>w'. later w w' \<Longrightarrow> (\<And>k. (\<forall>x. k \<noteq> (KSleepOrder, ns, x)) \<Longrightarrow> V w' k = V w k) \<Longrightarrow>
      (\<And>x. if fmlookup ds x = None then discarded (V w (KSleepOrder, ns, x)) (V w' (KSleepOrder, ns, x))
          else V w' (KSleepOrder, ns, x) = V w (KSleepOrder, ns, x)) \<Longrightarrow> Q None w'"
  shows "wp (deleteUndesiredResources E ns ds) Q w"
  unfolding deleteUndesiredResources_def wp_bind
proof (rule wp_List_ok [OF assms(1)], goal_cases)
  case (1 items w1)
  note names = list_names [OF 1(4)]
  have "wp (deleteLoop E ds items) Q w1"
  proof (rule wp_deleteLoop_ok [where ns = ns, OF 1(1) names(2)], goal_cases)
    case (2 w')
    show ?case
    proof (rule assms(2), goal_cases)
      case (3 x)
      show ?case
      proof (cases "V w (KSleepOrder, ns, x)")
        case None
        then have "\<forall>ob \<in> set items. (KSleepOrder, ns, x) \<noteq> (KSleepOrder, ns, obj_name ob)"
          using names(1) by auto
        from 2(2) [OF this] show ?thesis using None 1(3) by (simp add: discarded_def)
      next
        case (Some ob)
        with view_key [OF Some] have "ob \<in> set items" "obj_name ob = x"
          using names(1) [of ob] by (auto simp: obj_key_def obj_name_def)
        then show ?thesis using 2(3) [of ob] Some by (auto split: if_splits)
      qed
    qed (use 1 2 in \<open>auto simp: later_def\<close>)
  qed (use 1 names in auto)
  then show ?case by simp
qed

lemma wp_getSleepOrder_missing:
  assumes "H w" "V w (KSleepOrder, ns, n) = None"
    and "\<And>w'. later w w' \<Longrightarrow> V w' = V w \<Longrightarrow> Q (Inl (ApiErr NotFound)) w'"
  shows "wp (getSleepOrder E ns n) Q w"
  unfolding getSleepOrder_def wp_bind
  by (rule wp_Get_missing [OF assms(1,2)]) (simp add: as_SleepOrder_def assms(3) later_def)

lemma order_cases:
  assumes "V w (KSleepOrder, ns, x) = Some ob"
  obtains so where "ob = SleepOrderObj so" "om_namespace (ord_meta so) = ns" "om_name (ord_meta so) = x"
  using view_key [OF assms] that by (cases ob) (auto simp: obj_key_def)

lemma wp_needToDeploy_ok:
  assumes "H w" and x: "x = getSleepOrderName n (rp_Kind p) (rp_Name p)" "rp_Namespace p = ns"
    and Q: "\<And>w'. later w w' \<Longrightarrow> V w' = V w \<Longrightarrow>
      Q (Inr (if hashed p (V w (KSleepOrder, ns, x)) then (False, NoAction)
         else (True, if V w (KSleepOrder, ns, x) = None then ActionCreate else ActionUpdate))) w'"
  shows "wp (needToDeploySleepOrder E n p) Q w"
proof (cases "V w (KSleepOrder, ns, x)")
  case None
  then show ?thesis
    unfolding needToDeploySleepOrder_def Let_def wp_bind x(2) x(1) [symmetric]
    by (rule wp_getSleepOrder_missing [OF assms(1)]) (use None Q in \<open>simp add: hashed_def\<close>)
next
  case (Some ob)
  then obtain so where so: "ob = SleepOrderObj so" by (rule order_cases)
  show ?thesis
    unfolding needToDeploySleepOrder_def Let_def wp_bind x(2) x(1) [symmetric]
    by (rule wp_getSleepOrder_ok [OF assms(1)])
      (use Some so Q in \<open>auto simp: hashed_def later_def\<close>)
qed

lemma wp_Deploy_create_ok:
  assumes "H w" and x: "x = getSleepOrderName (om_name (pol_meta pol)) (rp_Kind p) (rp_Name p)" "rp_Namespace p = ns"
      "om_namespace (pol_meta pol) = ns"
    and none: "V w (KSleepOrder, ns, x) = None"
    and Q: "\<And>so w'. later w w' \<Longrightarrow> V w' = (V w)((KSleepOrder, ns, x) \<mapsto> SleepOrderObj so) \<Longrightarrow>
      made_for pol p so \<Longrightarrow> Q None w'"
  shows "wp (DeploySleepOrderResource E pol p ActionCreate) Q w"
proof -
  have "om_owner (with_hash p (ord_meta (newSleepOrder pol p))) = None"
    "om_namespace (with_hash p (ord_meta (newSleepOrder pol p))) = om_namespace (pol_meta pol)"
    using x(2,3) by (simp_all add: with_hash_simps newSleepOrder_def)
  then obtain m where m: "x_SetControllerReference E pol (with_hash p (ord_meta (newSleepOrder pol p))) = Inr m"
    using owner_ok by blast
  note own = owner_law [OF m]
  have key: "obj_key (SleepOrderObj ((newSleepOrder pol p)\<lparr>ord_meta := m\<rparr>)) = (KSleepOrder, ns, x)"
    by (simp add: obj_key_def own with_hash_simps new_order_key x)
  have "wp (x_Create E (SleepOrderObj ((newSleepOrder pol p)\<lparr>ord_meta := m\<rparr>)))
      (\<lambda>r. wp (ret (case r of Inl e \<Rightarrow> Some e | Inr _ \<Rightarrow> None)) Q) w"
  proof (rule wp_Create_ok [OF assms(1)], goal_cases)
    case (2 c rv ob' w')
    from new_order_created [OF own 2(3)] obtain so where so: "ob' = SleepOrderObj so" "made_for pol p so" by blast
    have "V w' = (V w)((KSleepOrder, ns, x) \<mapsto> SleepOrderObj so)" using 2(4) unfolding key so(1) .
    with 2(1,2) so(2) have "Q None w'" by (intro Q) (simp_all add: later_def)
    then show ?case by simp
  qed (simp only: key none)
  then show ?thesis by (simp add: DeploySleepOrderResource_def Let_def m)
qed

lemma wp_Deploy_update_ok:
  assumes "H w" and x: "x = getSleepOrderName (om_name (pol_meta pol)) (rp_Kind p) (rp_Name p)" "rp_Namespace p = ns"
      "om_namespace (pol_meta pol) = ns"
    and old: "V w (KSleepOrder, ns, x) = Some old" "\<not> hashed p (Some old)"
    and Q: "\<And>w' new. later w w' \<Longrightarrow> V w' = (V w)((KSleepOrder, ns, x) := new) \<Longrightarrow>
      served pol p (Some old) new \<Longrightarrow> Q None w'"
  shows "wp (DeploySleepOrderResource E pol p ActionUpdate) Q w"
proof -
  obtain so where so: "old = SleepOrderObj so" using old(1) by (rule order_cases)
  have "om_owner (with_hash p ((ord_meta (newSleepOrder pol p))\<lparr>om_rv := om_rv (ord_meta so)\<rparr>)) = None"
    "om_namespace (with_hash p ((ord_meta (newSleepOrder pol p))\<lparr>om_rv := om_rv (ord_meta so)\<rparr>)) = om_namespace (pol_meta pol)"
    using x(2,3) by (simp_all add: with_hash_simps newSleepOrder_def)
  then obtain m where m: "x_SetControllerReference E pol
      (with_hash p ((ord_meta (newSleepOrder pol p))\<lparr>om_rv := om_rv (ord_meta so)\<rparr>)) = Inr m"
    using owner_ok by blast
  note own = owner_law [OF m]
  have key: "obj_key (SleepOrderObj ((newSleepOrder pol p)\<lparr>ord_meta := m\<rparr>)) = (KSleepOrder, ns, x)"
    by (simp add: obj_key_def own with_hash_simps new_order_key x)
  have upd: "wp (x_Update E (SleepOrderObj ((newSleepOrder pol p)\<lparr>ord_meta := m\<rparr>)))
      (\<lambda>r. wp (ret (case r of Inl e \<Rightarrow> Some e | Inr _ \<Rightarrow> None)) Q) w1"
    if w1: "later w w1" "V w1 = V w" for w1
  proof (rule wp_Update_ok [where old = old], goal_cases)
    case (4 rv ob' w')
    have "obj_kind old = KSleepOrder" by (simp add: so)
    from new_order_written [OF own 4(3) this]
    have "served pol p (Some old) (if released ob' then None else Some ob')"
      using old(2) by (auto simp: served_def deleting_def)
    then show ?case using 4 w1 key by (simp add: later_def Q)
  qed (use w1 old key own in \<open>simp_all add: later_def so with_hash_simps\<close>)
  have "annotation_value (ord_meta so) configHashAnnotationKey \<noteq> ConfigHashCalc p"
    using old(2) so by (simp add: hashed_def)
  then show ?thesis
    unfolding DeploySleepOrderResource_def Let_def action.case wp_bind new_order_key x(2) x(1) [symmetric]
    by (intro wp_getSleepOrder_ok [OF assms(1) old(1) [unfolded so]])
      (simp add: m upd [unfolded wp_return, simplified] later_def upd)
qed

lemma wp_Deploy_served:
  assumes "H w" and x: "x = getSleepOrderName (om_name (pol_meta pol)) (rp_Kind p) (rp_Name p)" "rp_Namespace p = ns"
      "om_namespace (pol_meta pol) = ns"
    and need: "\<not> hashed p (V w (KSleepOrder, ns, x))"
    and Q: "\<And>new w'. later w w' \<Longrightarrow> V w' = (V w)((KSleepOrder, ns, x) := new) \<Longrightarrow>
      served pol p (V w (KSleepOrder, ns, x)) new \<Longrightarrow> Q None w'"
  shows "wp (DeploySleepOrderResource E pol p
    (if V w (KSleepOrder, ns, x) = None then ActionCreate else ActionUpdate)) Q w"
proof (cases "V w (KSleepOrder, ns, x)")
  case None
  have "wp (DeploySleepOrderResource E pol p ActionCreate) Q w"
    by (rule wp_Deploy_create_ok [OF assms(1) x None])
      (use need in \<open>auto intro!: Q simp: None served_def deleting_def\<close>)
  then show ?thesis using None by simp
next
  case (Some old)
  have "wp (DeploySleepOrderResource E pol p ActionUpdate) Q w"
    by (rule wp_Deploy_update_ok [OF assms(1) x, where old = old]) (use Some need in \<open>auto intro!: Q\<close>)
  then show ?thesis using Some by simp
qed

lemma wp_applyLoop_ok:
  assumes "H w" and "distinct (map fst ps)"
    and "\<And>x p. (x, p) \<in> set ps \<Longrightarrow> rp_Namespace p = ns \<and> om_namespace (pol_meta pol) = ns \<and>
      x = getSleepOrderName (om_name (pol_meta pol)) (rp_Kind p) (rp_Name p)"
    and "\<And>w'. later w w' \<Longrightarrow> (\<And>k. (\<forall>x \<in> set (map fst ps). k \<noteq> (KSleepOrder, ns, x)) \<Longrightarrow> V w' k = V w k) \<Longrightarrow>
      (\<And>x p. (x, p) \<in> set ps \<Longrightarrow> served pol p (V w (KSleepOrder, ns, x)) (V w' (KSleepOrder, ns, x))) \<Longrightarrow>
      Q None w'"
  shows "wp (applyLoop E pol ps) Q w"
  using assms
proof (induction ps arbitrary: w Q)
  case (Cons xp ps)
  obtain x p where xp: "xp = (x, p)" by (cases xp)
  let ?k = "(KSleepOrder, ns, x)"
  have xn: "x = getSleepOrderName (om_name (pol_meta pol)) (rp_Kind p) (rp_Name p)" "rp_Namespace p = ns"
    "om_namespace (pol_meta pol) = ns"
    using Cons.prems(3) xp by auto
  have other: "x \<notin> set (map fst ps)" and dist: "distinct (map fst ps)" using Cons.prems(2) xp by simp_all
  have rest: "wp (applyLoop E pol ps) Q w1"
    if w1: "later w w1" "V w1 = (V w)(?k := new)" "served pol p (V w ?k) new" for w1 new
  proof (rule Cons.IH [where w = w1 and Q = Q], goal_cases)
    case (4 w')
    have same: "V w1 (KSleepOrder, ns, y) = V w (KSleepOrder, ns, y)" if "y \<in> set (map fst ps)" for y
      using that other w1(2) by (cases "y = x") auto
    have mine: "V w' ?k = new" using 4(2) [of ?k] other w1(2) by auto
    show ?case
    proof (rule Cons.prems(4), goal_cases)
      case (2 k)
      then have "V w' k = V w1 k" "k \<noteq> ?k" using 4(2) xp by auto
      then show ?case using w1(2) by simp
    next
      case (3 y q)
      then consider "(y, q) = (x, p)" | "(y, q) \<in> set ps" using xp by auto
      then show ?case
      proof cases
        case 2
        then have "y \<in> set (map fst ps)" by force
        from 4(3) [OF 2] same [OF this] show ?thesis by simp
      qed (use mine w1(3) in simp)
    qed (use 4 w1 later_trans in blast)
  qed (use w1 Cons.prems dist in \<open>auto simp: later_def\<close>)
  have deploy: "wp (DeploySleepOrderResource E pol p (if V w ?k = None then ActionCreate else ActionUpdate))
      (\<lambda>d. wp (case d of Some e \<Rightarrow> ret (Some e) | None \<Rightarrow> applyLoop E pol ps) Q) w1"
    if w1: "later w w1" "V w1 = V w" "\<not> hashed p (V w ?k)" for w1
    unfolding w1(2) [symmetric]
    by (rule wp_Deploy_served [OF _ xn])
      (use w1 later_trans in \<open>auto simp: later_def intro!: rest\<close>)
  show ?case
    unfolding xp applyLoop.simps wp_bind
  proof (rule wp_needToDeploy_ok [OF Cons.prems(1) xn(1,2)], goal_cases)
    case (1 w1)
    show ?case
    proof (cases "hashed p (V w ?k)")
      case True
      then have "wp (applyLoop E pol ps) Q w1"
        using 1 by (intro rest [where new = "V w ?k"]) (auto simp: served_def)
      then show ?thesis using True by simp
    qed (use 1 deploy [of w1] in simp)
  qed
qed (simp add: later_refl)

end

section \<open>The whole run\<close>

text \<open>The policy \<open>p'\<close> reports the desired state \<open>D\<close>; nothing else of \<open>p\<close> changed, and nothing when it did already.\<close>

definition state_reported ::
  "sleep_policy \<Rightarrow> (string \<Rightarrow> resource_sleep_params \<Rightarrow> bool) \<Rightarrow> sleep_policy \<Rightarrow> bool" where
  "state_reported p D p' \<longleftrightarrow>
     pol_spec p' = pol_spec p \<and> (\<exists>v. pol_meta p' = (pol_meta p)\<lparr>om_rv := v\<rparr>) \<and>
     (\<exists>ds. (\<forall>x q. fmlookup ds x = Some q \<longleftrightarrow> D x q) \<and>
        norm_map (st_State (pol_status p')) = norm_map (Some ds) \<and>
        (st_State (pol_status p) = Some ds \<longrightarrow> p' = p))"

definition policy_applied ::
  "sleep_policy \<Rightarrow> sleep_policy \<Rightarrow> (string \<Rightarrow> resource_sleep_params \<Rightarrow> bool) \<Rightarrow> view \<Rightarrow> view \<Rightarrow> bool" where
  "policy_applied p0 pol D v v' \<longleftrightarrow>
     (\<forall>k. k \<noteq> policy_key p0 \<longrightarrow> (\<forall>x. k \<noteq> (KSleepOrder, om_namespace (pol_meta p0), x)) \<longrightarrow> v' k = v k) \<and>
     (\<forall>x p. D x p \<longrightarrow> served pol p (v (KSleepOrder, om_namespace (pol_meta p0), x))
         (v' (KSleepOrder, om_namespace (pol_meta p0), x))) \<and>
     (\<forall>x. (\<forall>p. \<not> D x p) \<longrightarrow> discarded (v (KSleepOrder, om_namespace (pol_meta p0), x))
         (v' (KSleepOrder, om_namespace (pol_meta p0), x))) \<and>
     (\<exists>p'. v' (policy_key p0) = Some (SleepPolicyObj p') \<and> state_reported p0 D p')"

text \<open>The orders of a namespace after the two loops.\<close>

definition orders_settled ::
  "string \<Rightarrow> sleep_policy \<Rightarrow> (string \<Rightarrow> resource_sleep_params \<Rightarrow> bool) \<Rightarrow> view \<Rightarrow> view \<Rightarrow> bool" where
  "orders_settled ns pol D v v' \<longleftrightarrow>
     (\<forall>k. (\<forall>x. k \<noteq> (KSleepOrder, ns, x)) \<longrightarrow> v' k = v k) \<and>
     (\<forall>x p. D x p \<longrightarrow> served pol p (v (KSleepOrder, ns, x)) (v' (KSleepOrder, ns, x))) \<and>
     (\<forall>x. (\<forall>p. \<not> D x p) \<longrightarrow> discarded (v (KSleepOrder, ns, x)) (v' (KSleepOrder, ns, x)))"

lemma policy_applied_settled:
  assumes "orders_settled (om_namespace (pol_meta p0)) pol D v u"
    and "v' = u(policy_key p0 \<mapsto> SleepPolicyObj p')" "state_reported p0 D p'"
  shows "policy_applied p0 pol D v v'"
proof -
  have "(KSleepOrder, om_namespace (pol_meta p0), x) \<noteq> policy_key p0" for x by (simp add: policy_key_def)
  then have O: "v' (KSleepOrder, om_namespace (pol_meta p0), x) = u (KSleepOrder, om_namespace (pol_meta p0), x)" for x
    using assms(2) by simp
  have F: "v' k = v k" if "k \<noteq> policy_key p0" "\<forall>x. k \<noteq> (KSleepOrder, om_namespace (pol_meta p0), x)" for k
  proof -
    have "u k = v k" using assms(1) that(2) unfolding orders_settled_def by blast
    then show ?thesis using assms(2) that(1) by simp
  qed
  show ?thesis
    unfolding policy_applied_def O
  proof (intro conjI allI impI)
    show "\<exists>p'. v' (policy_key p0) = Some (SleepPolicyObj p') \<and> state_reported p0 D p'"
      using assms(2,3) by simp
  qed (use F assms(1) in \<open>unfold orders_settled_def, blast+\<close>)
qed

context healthy_controllers
begin

lemma wp_buildTheDesiredState_ok:
  assumes "H w"
    and "\<And>ds w'. later w w' \<Longrightarrow> V w' = V w \<Longrightarrow>
      (\<And>x p. fmlookup ds x = Some p \<longleftrightarrow> desired_entry c pol (V w) x p) \<Longrightarrow> Q (Inr ds) w'"
  shows "wp (buildTheDesiredState E c pol) Q w"
  unfolding buildTheDesiredState_def Let_def wp_bind
proof (rule wp_List_ok [OF assms(1)], goal_cases)
  case (1 dl w1)
  show ?case
    unfolding sum.case wp_bind
  proof (rule wp_List_ok [OF 1(1)], goal_cases)
    case (1 sl w2)
    have "wp (ret (Inr (fold (addDesired c pol kindStatefulSet (sp_StatefulSets (pol_spec pol))) sl
        (fold (addDesired c pol kindDeployment (sp_Deployments (pol_spec pol))) dl fmempty)))) Q w2"
      unfolding wp_return
      by (rule assms(2)) (use \<open>V w1 = V w\<close> 1 \<open>C w \<le> C w1\<close> \<open>list_result (V w) _ _ (Inr dl)\<close> in
          \<open>simp_all add: later_def desired_state_entries\<close>)
    then show ?case by simp
  qed
qed

lemma wp_orders_ok:
  assumes "H w" and ds: "\<And>x p. fmlookup ds x = Some p \<longleftrightarrow> D x p"
    and D: "\<And>x p. D x p \<Longrightarrow> rp_Namespace p = ns \<and> om_namespace (pol_meta pol) = ns \<and> x = getSleepOrderName (om_name (pol_meta pol)) (rp_Kind p) (rp_Name p)"
    and Q: "\<And>w'. later w w' \<Longrightarrow> orders_settled ns pol D (V w) (V w') \<Longrightarrow> Q None w'"
  shows "wp (deleteUndesiredResources E ns ds) (\<lambda>d. wp (case d of Some e \<Rightarrow> ret (Some e)
    | None \<Rightarrow> applyLoop E pol (x_range E ds)) Q) w"
proof (rule wp_deleteUndesired_ok [OF assms(1)], goal_cases)
  case (1 w2)
  let ?O = "\<lambda>x. (KSleepOrder, ns, x)"
  have listed: "(x, p) \<in> set (x_range E ds) \<longleftrightarrow> D x p" for x p
    using ds range_law [of ds] by (metis map_of_eq_Some_iff)
  have kept: "V w2 (?O x) = V w (?O x)" if "D x p" for x p
    using 1(3) [of x] ds [of x p, THEN iffD2, OF that] by simp
  have "wp (applyLoop E pol (x_range E ds)) Q w2"
  proof (rule wp_applyLoop_ok [where ns = ns], goal_cases)
    case (4 w3)
    show ?case
    proof (rule Q)
      show "later w w3" using 1(1) 4(1) by (rule later_trans)
      have "V w3 k = V w k" if "\<forall>x. k \<noteq> ?O x" for k
        using that 4(2) [of k] 1(2) [of k] by auto
      moreover have "served pol p (V w (?O x)) (V w3 (?O x))" if "D x p" for x p
        using 4(3) [of x p] kept [OF that] listed that by simp
      moreover have "discarded (V w (?O x)) (V w3 (?O x))" if no: "\<forall>p. \<not> D x p" for x
      proof -
        have "fmlookup ds x = None" using no ds by (metis option.exhaust)
        moreover have "\<forall>y \<in> set (map fst (x_range E ds)). ?O x \<noteq> ?O y" using no listed by force
        ultimately show ?thesis using 4(2) 1(3) [of x] by simp
      qed
      ultimately show "orders_settled ns pol D (V w) (V w3)" unfolding orders_settled_def by blast
    qed
  qed (use 1 range_law [of ds] D listed in \<open>auto simp: later_def\<close>)
  then show ?case by simp
qed

text \<open>The report at the end, on the policy as it was read.\<close>

lemma wp_report_ok:
  assumes "H w" and pk: "V w (policy_key p0) = Some (SleepPolicyObj p0)"
    and p0: "pol_meta pol = pol_meta p0" "pol_status pol = pol_status p0"
    and ds: "\<And>x p. fmlookup ds x = Some p \<longleftrightarrow> D x p"
    and Q: "\<And>p' w'. later w w' \<Longrightarrow> V w' = (V w)(policy_key p0 \<mapsto> SleepPolicyObj p') \<Longrightarrow> state_reported p0 D p' \<Longrightarrow>
      Q (empty_result, None) w'"
  shows "wp (if st_State (pol_status pol) \<noteq> Some ds then do {
      u \<leftarrow> x_StatusUpdate E (SleepPolicyObj (pol\<lparr>pol_status := \<lparr>st_State = Some ds\<rparr>\<rparr>));
      (case u of Inl e \<Rightarrow> ret (empty_result, Some e) | Inr _ \<Rightarrow> ret (empty_result, None)) }
    else ret (empty_result, None)) Q w"
proof (cases "st_State (pol_status pol) = Some ds")
  case True
  then have "state_reported p0 D p0"
    using ds p0(2) by (auto simp: state_reported_def intro!: exI [of _ ds] exI [of _ "om_rv (pol_meta p0)"])
  then have "Q (empty_result, None) w"
    by (intro Q [of _ p0]) (simp_all add: pk fun_upd_idem later_refl assms(1))
  then show ?thesis using True by simp
next
  case False
  have key: "obj_key (SleepPolicyObj (pol\<lparr>pol_status := s\<rparr>)) = policy_key p0" for s
    by (simp add: obj_key_def policy_key_def p0(1))
  have "wp (x_StatusUpdate E (SleepPolicyObj (pol\<lparr>pol_status := \<lparr>st_State = Some ds\<rparr>\<rparr>)))
      (\<lambda>u. wp (case u of Inl e \<Rightarrow> ret (empty_result, Some e) | Inr _ \<Rightarrow> ret (empty_result, None)) Q) w"
  proof (rule wp_StatusUpdate_ok [where old = "SleepPolicyObj p0"], goal_cases)
    case (4 rv ob' w')
    define p' where "p' = p0\<lparr>pol_status := \<lparr>st_State = norm_map (Some ds)\<rparr>, pol_meta := (pol_meta p0)\<lparr>om_rv := rv\<rparr>\<rparr>"
    have "ob' = SleepPolicyObj p'" using 4(3) by (simp add: with_rv_def p'_def)
    then have "V w' = (V w)(policy_key p0 \<mapsto> SleepPolicyObj p')" using 4(4) unfolding key by simp
    moreover have "state_reported p0 D p'"
      using ds False p0(2) by (auto simp: state_reported_def p'_def norm_map_def intro!: exI [of _ ds])
    ultimately have "Q (empty_result, None) w'"
      using 4 by (intro Q) (simp_all add: later_def)
    then show ?case by simp
  next
    case 2
    show ?case unfolding key by (rule pk)
  qed (use assms(1) in \<open>simp_all add: p0\<close>)
  then show ?thesis using False by simp
qed

lemma wp_applyPolicy_ok:
  assumes "H w" and p0: "V w (policy_key p0) = Some (SleepPolicyObj p0)" "pol_meta pol = pol_meta p0"
      "pol_status pol = pol_status p0"
    and Q: "\<And>w'. later w w' \<Longrightarrow> policy_applied p0 pol (desired_entry c pol (V w)) (V w) (V w') \<Longrightarrow>
      Q (empty_result, None) w'"
  shows "wp (applyPolicy E c (om_namespace (pol_meta p0)) pol) Q w"
  unfolding applyPolicy_def wp_bind
proof (rule wp_buildTheDesiredState_ok [OF assms(1)], goal_cases)
  case (1 ds w1)
  let ?ns = "om_namespace (pol_meta p0)" and ?D = "desired_entry c pol (V w)"
  let ?report = "if st_State (pol_status pol) \<noteq> Some ds then do {
        u \<leftarrow> x_StatusUpdate E (SleepPolicyObj (pol\<lparr>pol_status := \<lparr>st_State = Some ds\<rparr>\<rparr>));
        (case u of Inl e \<Rightarrow> ret (empty_result, Some e) | Inr _ \<Rightarrow> ret (empty_result, None)) }
      else ret (empty_result, None)"
  have "wp (deleteUndesiredResources E ?ns ds) (\<lambda>d. wp (case d of Some e \<Rightarrow> ret (Some e)
    | None \<Rightarrow> applyLoop E pol (x_range E ds)) (\<lambda>a. wp (case a of Some e \<Rightarrow> ret (empty_result, Some e) | None \<Rightarrow> ?report) Q)) w1"
  proof (rule wp_orders_ok [where D = ?D], goal_cases)
    case (4 w2)
    have pk: "V w2 (policy_key p0) = Some (SleepPolicyObj p0)"
      using 4(2) p0(1) 1(2) by (simp add: orders_settled_def policy_key_def)
    have "wp ?report Q w2"
    proof (rule wp_report_ok [OF _ pk p0(2,3) 1(3)], goal_cases)
      case (2 p' w')
      show ?case
        by (rule Q, use 1(1) 4(1) 2(1) later_trans in blast,
          rule policy_applied_settled [OF _ 2(2,3)]) (use 4(2) 1(2) in simp)
    qed (use 4 in \<open>simp add: later_def\<close>)
    then show ?case by simp
  next
    case (3 x p)
    then show ?case using desired_entry_facts [of c pol "V w" x p] p0(2) by simp
  qed (use 1 in \<open>simp_all add: later_def\<close>)
  then show ?case by (auto elim!: wp_mono split: option.splits)
qed

text \<open>The validation in a healthy world.\<close>

lemma wp_check_ok:
  assumes "H w"
    and "\<And>ch p' w'. later w w' \<Longrightarrow> V w' = V w \<Longrightarrow> policy_validated (V w) pol p' ch \<Longrightarrow> Q (Inr ch, p') w'"
  shows "wp (checkAndBuildValidResource E pol) Q w"
proof -
  have "wp (checkAndBuildValidResource E pol) (\<lambda>r w'. later w w' \<and> (\<exists>ch. fst r = Inr ch)) w"
    unfolding checkAndBuildValidResource_def Let_def wp_bind
  proof (rule wp_List_ok [OF assms(1)], goal_cases)
    case (1 dl w1)
    obtain m1 c1 where m1: "coverWorkloads dl (made_map (sp_Deployments (pol_spec pol))) = (m1, c1)"
      by fastforce
    show ?case
      unfolding sum.case m1 prod.case wp_bind
      by (rule wp_List_ok [OF 1(1)]) (use 1 in \<open>simp add: later_def split: prod.split\<close>)
  qed
  moreover have "wp (checkAndBuildValidResource E pol)
      (\<lambda>r w'. V w' = V w \<and> (\<forall>ch. fst r = Inr ch \<longrightarrow> policy_validated (V w) pol (snd r) ch)) w"
    by (rule wp_check) simp_all
  ultimately show ?thesis
    by (rule wp_mono [OF wp_conj]) (auto intro: assms(2))
qed

end

section \<open>Phases of a policy\<close>

text \<open>A policy that the validation leaves as it is.\<close>

definition valid_policy :: "view \<Rightarrow> sleep_policy \<Rightarrow> bool" where
  "valid_policy v p \<longleftrightarrow> policy_validated v p p False"

lemma validated_valid: "validated names m m' ch \<Longrightarrow> validated names m' m' False"
  by (auto simp: validated_def made_map_def)

lemma made_valid:
  assumes "policy_validated v p p' ch"
  shows "valid_policy v p'"
proof -
  obtain c d where
    "validated (\<lambda>n. v (KDeployment, om_namespace (pol_meta p), n) \<noteq> None)
       (sp_Deployments (pol_spec p)) (sp_Deployments (pol_spec p')) c"
    "validated (\<lambda>n. v (KStatefulSet, om_namespace (pol_meta p), n) \<noteq> None)
       (sp_StatefulSets (pol_spec p)) (sp_StatefulSets (pol_spec p')) d"
    and m: "pol_meta p' = pol_meta p"
    using assms unfolding policy_validated_def by blast
  from this(1,2) [THEN validated_valid] show ?thesis
    by (auto simp: valid_policy_def policy_validated_def m)
qed

lemma validated_unchanged: "validated names m m' False \<Longrightarrow> m' = m"
  by (cases m) (auto simp: validated_def made_map_def)

lemma unchanged_same:
  assumes "policy_validated v p p' False"
  shows "p' = p"
proof -
  have "sp_Deployments (pol_spec p') = sp_Deployments (pol_spec p)"
    "sp_StatefulSets (pol_spec p') = sp_StatefulSets (pol_spec p)"
    using assms by (auto simp: policy_validated_def dest: validated_unchanged)
  then show ?thesis
    using assms by (auto simp: policy_validated_def intro!: sleep_policy.equality sleep_policy_spec.equality)
qed

lemma valid_fixed: "valid_policy v p \<Longrightarrow> policy_validated v p p' ch \<Longrightarrow> \<not> ch \<and> p' = p"
  unfolding valid_policy_def by (rule policy_validated_again)

lemma valid_norm:
  assumes "valid_policy v p"
  shows "norm_policy_spec (pol_spec p) = pol_spec p"
proof -
  have "norm_map (sp_Deployments (pol_spec p)) = sp_Deployments (pol_spec p)"
    "norm_map (sp_StatefulSets (pol_spec p)) = sp_StatefulSets (pol_spec p)"
    using assms unfolding valid_policy_def policy_validated_def validated_def norm_map_def by auto
  then show ?thesis by (simp add: norm_policy_spec_def)
qed

text \<open>Validity looks at the maps of the policy and the workloads of its namespace only.\<close>

lemma valid_policy_cong:
  assumes "valid_policy v p" "pol_spec q = pol_spec p" "om_namespace (pol_meta q) = om_namespace (pol_meta p)"
    and "\<And>K n. K \<in> {KDeployment, KStatefulSet} \<Longrightarrow> v' (K, om_namespace (pol_meta p), n) = v (K, om_namespace (pol_meta p), n)"
  shows "valid_policy v' q"
  using assms by (auto simp: valid_policy_def policy_validated_def)

lemma desired_entry_cong:
  assumes "pol_spec q = pol_spec p" "om_namespace (pol_meta q) = om_namespace (pol_meta p)"
    "om_name (pol_meta q) = om_name (pol_meta p)"
    and "\<And>K n. K \<in> {KDeployment, KStatefulSet} \<Longrightarrow> v' (K, om_namespace (pol_meta p), n) = v (K, om_namespace (pol_meta p), n)"
  shows "desired_entry c q v' = desired_entry c p v"
  using assms by (simp add: fun_eq_iff desired_entry_def entry_of_def)

text \<open>The stored policy \<open>q\<close> takes the place of \<open>p\<close>: same name, same deletion mark.\<close>

definition replaces :: "sleep_policy \<Rightarrow> sleep_policy \<Rightarrow> bool" where
  "replaces p q \<longleftrightarrow> policy_key q = policy_key p \<and> om_deletion (pol_meta q) = om_deletion (pol_meta p)"

lemma ruling_replace:
  assumes "ruling P name p" "replaces p q"
  shows "ruling (insert q (P - {p})) name q"
proof -
  have same: "leaving name q = leaving name p" "is_default q = is_default p"
    using assms(2) by (auto simp: replaces_def policy_key_def leaving_def is_default_def)
  from assms(1) consider "leaving name p" | "P = {p}" "\<not> leaving name p"
    | r where "P = {p, r}" "r \<noteq> p" "is_default r" "\<not> is_default p" "\<forall>x \<in> P. \<not> leaving name x"
    by (auto simp: ruling_def)
  then show ?thesis
  proof cases
    case (3 r)
    then have "insert q (P - {p}) = {q, r}" by auto
    then show ?thesis using 3 same by (auto simp: ruling_def)
  qed (use same in \<open>auto simp: ruling_def\<close>)
qed

lemma policies_replace:
  assumes "v (policy_key p) = Some (SleepPolicyObj p)" "policy_key q = policy_key p"
    and "\<And>k ob. v k = Some ob \<Longrightarrow> obj_key ob = k"
    and "om_namespace (pol_meta p) = ns"
  shows "policies (v(policy_key p \<mapsto> SleepPolicyObj q)) ns = insert q (policies v ns - {p})"
proof -
  have key: "v (KSleepPolicy, ns, n) = Some (SleepPolicyObj p) \<Longrightarrow> n = om_name (pol_meta p)" for n
    using assms(3) [of "(KSleepPolicy, ns, n)" "SleepPolicyObj p"] by (simp add: obj_key_def)
  let ?nm = "om_name (pol_meta p)"
  have new: "(v(policy_key p \<mapsto> SleepPolicyObj q)) (KSleepPolicy, ns, n) =
      (if n = ?nm then Some (SleepPolicyObj q) else v (KSleepPolicy, ns, n))" for n
    using assms(4) by (simp add: policy_key_def)
  have old: "v (KSleepPolicy, ns, ?nm) = Some (SleepPolicyObj p)"
    using assms(1,4) by (simp add: policy_key_def)
  have other: "n \<noteq> ?nm \<longleftrightarrow> x \<noteq> p" if "v (KSleepPolicy, ns, n) = Some (SleepPolicyObj x)" for n x
  proof
    assume "n \<noteq> ?nm"
    then show "x \<noteq> p" using key [of n] that by blast
  next
    assume "x \<noteq> p"
    then show "n \<noteq> ?nm" using old that by (metis client_object.inject(4) option.inject)
  qed
  have "(\<exists>n. (if n = ?nm then Some (SleepPolicyObj q) else v (KSleepPolicy, ns, n)) = Some (SleepPolicyObj x)) \<longleftrightarrow>
      x = q \<or> (\<exists>n. n \<noteq> ?nm \<and> v (KSleepPolicy, ns, n) = Some (SleepPolicyObj x))" for x
    by (metis client_object.inject(4) option.inject)
  moreover have "(\<exists>n. n \<noteq> ?nm \<and> v (KSleepPolicy, ns, n) = Some (SleepPolicyObj x)) \<longleftrightarrow>
      (\<exists>n. v (KSleepPolicy, ns, n) = Some (SleepPolicyObj x)) \<and> x \<noteq> p" for x
    using other by blast
  ultimately show ?thesis
    unfolding policies_def new by blast
qed

end
