(* ===== verification/Sleep_Policy_Props.thy ===== *)
theory Sleep_Policy_Props
  imports Sleep_Policy_Live
begin

text \<open>
  The properties of a reconciliation of the SleepPolicy controller: what it never touches whatever
  calls fail, what it achieves in a healthy world, and that a second run has nothing to write.
\<close>

section \<open>One run in a healthy world\<close>

context healthy_controllers
begin

lemma wp_updateSleepPolicy_ok:
  assumes "H w" and p: "V w (policy_key p) = Some (SleepPolicyObj p)"
    and q: "policy_key q = policy_key p" "om_rv (pol_meta q) = om_rv (pol_meta p)"
      "om_deletion (pol_meta p) = None" "norm_policy_spec (pol_spec q) = pol_spec q"
    and Q: "\<And>p1 w'. later w w' \<Longrightarrow> V w' = (V w)(policy_key p \<mapsto> SleepPolicyObj p1) \<Longrightarrow> replaces p p1 \<Longrightarrow>
      pol_spec p1 = pol_spec q \<Longrightarrow> om_finalizers (pol_meta p1) = om_finalizers (pol_meta q) \<Longrightarrow>
      Q (Inr p1) w'"
  shows "wp (updateSleepPolicy E q) Q w"
proof -
  have key: "obj_key (SleepPolicyObj q) = policy_key p" using q(1) by (simp add: obj_key_def policy_key_def)
  show ?thesis
    unfolding updateSleepPolicy_def wp_bind
  proof (rule wp_Update_ok [where old = "SleepPolicyObj p"], goal_cases)
    case 2
    show ?case unfolding key by (rule p)
  next
    case (4 rv ob' w')
    define p1 where "p1 = q\<lparr>pol_status := pol_status p, pol_meta := norm_meta ((pol_meta q)
      \<lparr>om_creation := om_creation (pol_meta p), om_deletion := None\<rparr>)\<lparr>om_rv := rv\<rparr>\<rparr>"
    have ob': "ob' = SleepPolicyObj p1"
      using 4(3) q(3,4) by (simp add: with_rv_def write_over_def p1_def)
    have "\<not> released ob'" by (simp add: ob' released_def p1_def norm_meta_def)
    then have "V w' = (V w)(policy_key p \<mapsto> SleepPolicyObj p1)" using 4(4) unfolding key ob' by simp
    moreover have "replaces p p1" using q(1,3) by (simp add: replaces_def policy_key_def p1_def norm_meta_def)
    ultimately have "Q (Inr p1) w'"
      using 4 by (intro Q) (simp_all add: later_def p1_def norm_meta_def)
    then show ?case by (simp add: ob' as_SleepPolicy_def)
  qed (use assms in simp_all)
qed

text \<open>
  The three phases of a policy that rules: an invalid one is completed, a valid one without finalizer
  gets it, and one that has both is applied.
\<close>

lemma wp_Reconcile_SleepPolicy_ok:
  assumes "H w" and p: "ruling (policies (V w) ns) name p" "om_deletion (pol_meta p) = None"
    and complete: "\<And>p1 w'. \<not> valid_policy (V w) p \<Longrightarrow> later w w' \<Longrightarrow>
      V w' = (V w)(policy_key p \<mapsto> SleepPolicyObj p1) \<Longrightarrow> replaces p p1 \<Longrightarrow> valid_policy (V w) p1 \<Longrightarrow>
      entries_kept p p1 \<Longrightarrow> om_finalizers (pol_meta p1) = om_finalizers (pol_meta p) \<Longrightarrow> Q (requeue_now, None) w'"
    and enroll: "\<And>p1 w'. valid_policy (V w) p \<Longrightarrow> sleepPolicyFinalizer \<notin> set (om_finalizers (pol_meta p)) \<Longrightarrow>
      later w w' \<Longrightarrow> V w' = (V w)(policy_key p \<mapsto> SleepPolicyObj p1) \<Longrightarrow> replaces p p1 \<Longrightarrow>
      pol_spec p1 = pol_spec p \<Longrightarrow> sleepPolicyFinalizer \<in> set (om_finalizers (pol_meta p1)) \<Longrightarrow> Q (requeue_now, None) w'"
    and apply_: "\<And>w'. valid_policy (V w) p \<Longrightarrow> sleepPolicyFinalizer \<in> set (om_finalizers (pol_meta p)) \<Longrightarrow>
      later w w' \<Longrightarrow> policy_applied p p (desired_entry c p (V w)) (V w) (V w') \<Longrightarrow> Q (empty_result, None) w'"
  shows "wp (Reconcile_SleepPolicy E c ns name) Q w"
  unfolding Reconcile_SleepPolicy_def wp_bind
proof (rule wp_Fetch_ok [where name = name, OF assms(1)], goal_cases)
  case (1 f w1)
  note stored = ruling_stored [OF p(1)]
  have f: "f = Inr (Some p)" using 1(5) p(1) by simp
  show ?case
    unfolding f sum.case option.case wp_bind
  proof (rule wp_check_ok [OF 1(1)], goal_cases)
    case (1 ch pol w2)
    then have w2: "later w w2" "V w2 = V w" and pv: "policy_validated (V w) p pol ch"
      using \<open>H w1\<close> \<open>C w \<le> C w1\<close> \<open>V w1 = V w\<close> by (auto simp: later_def)
    have meta: "pol_meta pol = pol_meta p" "pol_status pol = pol_status p"
      using pv by (simp_all add: policy_validated_def)
    have pkey: "V w2 (policy_key p) = Some (SleepPolicyObj p)" using stored w2 by simp
    have h2: "H w2" using w2 by (simp add: later_def)
    show ?case
    proof (cases ch)
      case True
      have "\<not> valid_policy (V w) p" using valid_fixed [OF _ pv] True by blast
      moreover have "valid_policy (V w) pol" by (rule made_valid [OF pv])
      ultimately have "wp (updateSleepPolicy E pol)
          (\<lambda>u. wp (ret (case u of Inl e \<Rightarrow> (empty_result, Some e) | Inr _ \<Rightarrow> (requeue_now, None))) Q) w2"
        using policy_validated_kept [OF pv] w2 meta p(2) valid_norm
        by (intro wp_updateSleepPolicy_ok [OF h2 pkey])
          (auto simp: replaces_def policy_key_def intro!: complete intro: later_trans valid_policy_cong
             simp: entries_kept_def)
      then show ?thesis using True by simp
    next
      case False
      then have pol: "pol = p" and valid: "valid_policy (V w) p"
        using unchanged_same made_valid [OF pv] pv by auto
      show ?thesis
      proof (cases "sleepPolicyFinalizer \<in> set (om_finalizers (pol_meta p))")
        case fin: True
        have "wp (applyPolicy E c ns p) Q w2"
          unfolding stored(1) [symmetric]
          by (rule wp_applyPolicy_ok [OF h2 pkey refl refl])
            (use w2 valid fin in \<open>auto intro!: apply_ intro: later_trans\<close>)
        then show ?thesis using False pol fin p(2) by (simp add: contains_law)
      next
        case no: False
        have "wp (updateSleepPolicy E (p\<lparr>pol_meta := x_AddFinalizer E (pol_meta p) sleepPolicyFinalizer\<rparr>))
            (\<lambda>u. wp (ret (case u of Inl e \<Rightarrow> (empty_result, Some e) | Inr _ \<Rightarrow> (requeue_now, None))) Q) w2"
          by (rule wp_updateSleepPolicy_ok [OF h2 pkey])
            (use w2 valid no p(2) valid_norm [OF valid] in
              \<open>auto simp: policy_key_def add_law intro!: enroll intro: later_trans\<close>)
        then show ?thesis using False pol no p(2) by (simp add: contains_law)
      qed
    qed
  qed
qed

end

section \<open>Until nothing is left to do\<close>

text \<open>A run that asks for it is followed by another one, at most \<open>n\<close> in all.\<close>

fun requeue_loop ::
  "nat \<Rightarrow> 'w env \<Rightarrow> config \<Rightarrow> string \<Rightarrow> string \<Rightarrow> ('w, reconcile_result option) state" where
  "requeue_loop 0 E c ns name = ret None"
| "requeue_loop (Suc n) E c ns name = do {
     r \<leftarrow> Reconcile_SleepPolicy E c ns name;
     (if res_Requeue (fst r) then requeue_loop n E c ns name else ret (Some r)) }"

text \<open>
  From view \<open>v\<close> with policy \<open>p\<close> to view \<open>v'\<close>: a completed policy \<open>p1\<close> that keeps every entry of \<open>p\<close>
  has been stored in its place and applied.
\<close>

definition converged :: "config \<Rightarrow> sleep_policy \<Rightarrow> view \<Rightarrow> view \<Rightarrow> bool" where
  "converged c p v v' \<longleftrightarrow>
     (\<exists>p1. replaces p p1 \<and> entries_kept p p1 \<and> valid_policy v p1 \<and>
        policy_applied p1 p1 (desired_entry c p1 v) (v(policy_key p \<mapsto> SleepPolicyObj p1)) v')"

lemma replaces_refl: "replaces p p" by (simp add: replaces_def)
lemma replaces_trans: "replaces p q \<Longrightarrow> replaces q r \<Longrightarrow> replaces p r" by (simp add: replaces_def)
lemma entries_kept_refl: "entries_kept p p" by (simp add: entries_kept_def)
lemma entries_kept_trans: "entries_kept p q \<Longrightarrow> entries_kept q r \<Longrightarrow> entries_kept p r"
  by (simp add: entries_kept_def)

lemma workload_not_policy: "K \<in> {KDeployment, KStatefulSet} \<Longrightarrow> (K, a, b) \<noteq> policy_key p"
  by (auto simp: policy_key_def)

lemma valid_policy_put: "valid_policy (v(policy_key p := x)) q \<longleftrightarrow> valid_policy v q"
  by (rule iffI; erule valid_policy_cong) (simp_all add: policy_key_def, auto)

lemma desired_entry_put: "desired_entry c q (v(policy_key p := x)) = desired_entry c q v"
  by (rule desired_entry_cong) (auto simp: policy_key_def)

lemma converged_step:
  assumes "converged c q (v(policy_key p \<mapsto> SleepPolicyObj q)) v'" "replaces p q" "entries_kept p q"
  shows "converged c p v v'"
proof -
  have "policy_key q = policy_key p" using assms(2) by (simp add: replaces_def)
  with assms show ?thesis
    unfolding converged_def valid_policy_put desired_entry_put
    by (auto intro: replaces_trans entries_kept_trans)
qed

context healthy_controllers
begin

lemma ruling_put:
  assumes "ruling (policies (V w) ns) name p" "V w' = (V w)(policy_key p \<mapsto> SleepPolicyObj q)" "replaces p q"
  shows "ruling (policies (V w') ns) name q"
proof -
  have "policies (V w') ns = insert q (policies (V w) ns - {p})"
    unfolding assms(2)
    by (rule policies_replace)
      (use ruling_stored [OF assms(1)] assms(3) view_key in \<open>auto simp: replaces_def\<close>)
  then show ?thesis using ruling_replace [OF assms(1,3)] by simp
qed

lemma wp_loop_apply:
  assumes "H w" "ruling (policies (V w) ns) name p" "om_deletion (pol_meta p) = None"
    and "valid_policy (V w) p" "sleepPolicyFinalizer \<in> set (om_finalizers (pol_meta p))"
    and "\<And>w'. later w w' \<Longrightarrow> converged c p (V w) (V w') \<Longrightarrow> Q (Some (empty_result, None)) w'"
  shows "wp (requeue_loop (Suc n) E c ns name) Q w"
  unfolding requeue_loop.simps wp_bind
proof (rule wp_Reconcile_SleepPolicy_ok [OF assms(1-3)], goal_cases)
  case (3 w')
  have "(V w)(policy_key p \<mapsto> SleepPolicyObj p) = V w"
    using ruling_stored(2) [OF assms(2)] by (simp add: fun_upd_idem)
  then have "converged c p (V w) (V w')"
    using 3 by (auto simp: converged_def intro!: exI [of _ p] replaces_refl entries_kept_refl)
  with 3 show ?case by (simp add: empty_result_def assms(6) [unfolded empty_result_def])
qed (use assms in simp_all)

lemma wp_loop_enroll:
  assumes "H w" "ruling (policies (V w) ns) name p" "om_deletion (pol_meta p) = None" "valid_policy (V w) p"
    and Q: "\<And>w'. later w w' \<Longrightarrow> converged c p (V w) (V w') \<Longrightarrow> Q (Some (empty_result, None)) w'"
  shows "wp (requeue_loop (Suc (Suc n)) E c ns name) Q w"
proof (cases "sleepPolicyFinalizer \<in> set (om_finalizers (pol_meta p))")
  case False
  show ?thesis
    unfolding requeue_loop.simps(2) [of "Suc n"] wp_bind
  proof (rule wp_Reconcile_SleepPolicy_ok [OF assms(1-3)], goal_cases)
    case (2 p1 w1)
    have "wp (requeue_loop (Suc n) E c ns name) Q w1"
    proof (rule wp_loop_apply)
      show "H w1" using 2 by (simp add: later_def)
      show "ruling (policies (V w1) ns) name p1" by (rule ruling_put [OF assms(2)]) (use 2 in auto)
      show "valid_policy (V w1) p1"
        unfolding 2(4) valid_policy_put
        by (rule valid_policy_cong [OF assms(4)]) (use 2 in \<open>auto simp: replaces_def policy_key_def\<close>)
      show "Q (Some (empty_result, None)) w'" if "later w1 w'" "converged c p1 (V w1) (V w')" for w'
      proof (rule Q)
        show "later w w'" using 2(3) that(1) by (rule later_trans)
        show "converged c p (V w) (V w')"
          by (rule converged_step [where q = p1]) (use that 2 in \<open>auto simp: entries_kept_def\<close>)
      qed
    qed (use 2 assms(3) in \<open>auto simp: replaces_def\<close>)
    then show ?case by (simp add: requeue_now_def)
  qed (use False assms in simp_all)
qed (rule wp_loop_apply [OF assms(1-4)], simp_all add: Q)

lemma wp_loop:
  assumes "H w" "ruling (policies (V w) ns) name p" "om_deletion (pol_meta p) = None"
    and Q: "\<And>w'. later w w' \<Longrightarrow> converged c p (V w) (V w') \<Longrightarrow> Q (Some (empty_result, None)) w'"
  shows "wp (requeue_loop (Suc (Suc (Suc n))) E c ns name) Q w"
proof (cases "valid_policy (V w) p")
  case False
  show ?thesis
    unfolding requeue_loop.simps(2) [of "Suc (Suc n)"] wp_bind
  proof (rule wp_Reconcile_SleepPolicy_ok [OF assms(1-3)], goal_cases)
    case (1 p1 w1)
    have "wp (requeue_loop (Suc (Suc n)) E c ns name) Q w1"
    proof (rule wp_loop_enroll)
      show "H w1" using 1 by (simp add: later_def)
      show "ruling (policies (V w1) ns) name p1" by (rule ruling_put [OF assms(2)]) (use 1 in auto)
      show "valid_policy (V w1) p1" using 1(5) unfolding 1(3) valid_policy_put .
      show "Q (Some (empty_result, None)) w'" if "later w1 w'" "converged c p1 (V w1) (V w')" for w'
      proof (rule Q)
        show "later w w'" using 1(2) that(1) by (rule later_trans)
        show "converged c p (V w) (V w')"
          by (rule converged_step [where q = p1]) (use that 1 in auto)
      qed
    qed (use 1 assms(3) in \<open>auto simp: replaces_def\<close>)
    then show ?case by (simp add: requeue_now_def)
  qed (use False in simp_all)
qed (rule wp_loop_enroll [OF assms(1-3)], simp_all add: Q)

end

section \<open>Properties\<close>

lemma policy_run_frame:
  assumes "policy_run c ns name v v'" "K \<notin> {KSleepOrder, KSleepPolicy} \<or> a \<noteq> ns"
    and "\<And>p. ruling (policies v ns) name p \<Longrightarrow> om_namespace (pol_meta p) = ns"
  shows "v' (K, a, n) = v (K, a, n)"
proof (cases "v' = v")
  case False
  with assms(1) obtain p0 pol where "ruling (policies v ns) name p0"
    "policy_effect p0 pol (desired_entry c pol v) v v'"
    by (auto simp: policy_run_def)
  moreover from this assms(3) have ns: "om_namespace (pol_meta p0) = ns" by blast
  moreover have "\<forall>x. (K, a, n) \<noteq> (KSleepOrder, ns, x)" "(K, a, n) \<noteq> policy_key p0"
    using assms(2) ns by (auto simp: policy_key_def)
  ultimately have "(v'(policy_key p0 := v (policy_key p0))) (K, a, n) = v (K, a, n)" "(K, a, n) \<noteq> policy_key p0"
    unfolding policy_effect_def orders_evolve_def by blast+
  then show ?thesis by (metis fun_upd_other)
qed simp

text \<open>
  C21: whatever calls fail, a reconciliation of a policy never touches a workload or a namespace, nor
  anything outside its namespace.  It acts for the policy that rules, whose entries all stay; a SleepOrder
  of the namespace is left alone, or it is not desired and is deleted, or it is desired and is written
  with exactly the desired schedule; and orders change only under a policy that was valid, not being
  deleted and had its finalizer.
\<close>

theorem Reconcile_SleepPolicy_frame:
  assumes "controllers E V"
    and "run_state (Reconcile_SleepPolicy E c ns name) w = (r, w')"
  shows "policy_run c ns name (V w) (V w') \<and>
    (\<forall>K a n. K \<notin> {KSleepOrder, KSleepPolicy} \<or> a \<noteq> ns \<longrightarrow> V w' (K, a, n) = V w (K, a, n))"
proof -
  have run: "policy_run c ns name (V w) (V w')"
    using wp_run [OF controllers.wp_Reconcile_SleepPolicy [OF assms(1)] assms(2)] .
  have "om_namespace (pol_meta p) = ns" if "ruling (policies (V w) ns) name p" for p
    using controllers.ruling_stored(1) [OF assms(1) that] .
  with run policy_run_frame show ?thesis by blast
qed

text \<open>
  The example cluster with the policy completed and enrolled, and a run of it in which the connection
  breaks in the middle.
\<close>

definition ex_ready :: sleep_policy where
  "ex_ready = ex_policy\<lparr>pol_meta := ex_pol_meta\<lparr>om_finalizers := [sleepPolicyFinalizer]\<rparr>,
     pol_spec := \<lparr>sp_Timezone = ''UTC'',
       sp_Deployments = Some (fmupd ''default'' enabled_default (fmupd ''old'' enabled_default fmempty)),
       sp_StatefulSets = Some (fmupd ''default'' enabled_default fmempty)\<rparr>\<rparr>"

definition ex_web_dep :: client_object where
  "ex_web_dep = Deployment \<lparr>wl_meta = ex_pol_meta\<lparr>om_name := ''web''\<rparr>, wl_replicas = Some 3, wl_rest = ''''\<rparr>"

definition ex_office :: "fault list \<Rightarrow> client_object list \<Rightarrow> mem" where
  "ex_office fs obs = ex_shop\<lparr>m_objs := obs @ [ex_web_dep, SleepPolicyObj ex_ready], m_faults := fs\<rparr>"

abbreviation ex_config :: config where "ex_config \<equiv> Load (\<lambda>_. '''')"

lemma ex_meta_simps [simp]:
  "om_name ex_pol_meta = ''office''" "om_namespace ex_pol_meta = ''shop''"
  "om_deletion ex_pol_meta = None" "om_finalizers ex_pol_meta = []"
  by (simp_all add: ex_pol_meta_def)

theorem Reconcile_SleepPolicy_frame_witness:
  "mem_view (snd (run_state (Reconcile_SleepPolicy ex_utc ex_config ''shop'' ''office'')
      (ex_office [Fine, Fine, Fine, ConnRefused] []))) (KDeployment, ''shop'', ''web'') = Some ex_web_dep"
proof -
  have "mem_view (ex_office fs []) (KDeployment, ''shop'', ''web'') = Some ex_web_dep" for fs
    by (simp add: mem_view_def ex_office_def ex_web_dep_def)
  then show ?thesis
    using Reconcile_SleepPolicy_frame [OF mem.controllers_axioms surjective_pairing] by simp
qed

text \<open>
  C23: in a healthy world, one run over a valid, enrolled policy that rules and is not being deleted
  ends without error and applies it.  A desired order that carries the hash of its parameters is left as
  it is; every other desired order is written anew with that hash, except that one which was being deleted
  goes away, since the write takes its finalizers off (\<open>changed_order_loses_finalizers\<close>).  Every other
  order of the namespace is gone or marked for deletion, the policy reports the desired state, and nothing
  else changes.
\<close>

theorem Reconcile_SleepPolicy_applies:
  assumes "healthy_controllers E V H C" and "H w"
    and "ruling (policies (V w) ns) name p" and "om_deletion (pol_meta p) = None"
    and "valid_policy (V w) p" and "sleepPolicyFinalizer \<in> set (om_finalizers (pol_meta p))"
    and "run_state (Reconcile_SleepPolicy E c ns name) w = (r, w')"
  shows "r = (empty_result, None) \<and> policy_applied p p (desired_entry c p (V w)) (V w) (V w')"
proof -
  have "wp (Reconcile_SleepPolicy E c ns name) (\<lambda>r w'. r = (empty_result, None) \<and>
      policy_applied p p (desired_entry c p (V w)) (V w) (V w')) w"
    by (rule healthy_controllers.wp_Reconcile_SleepPolicy_ok [OF assms(1-4)])
      (use assms(5,6) in simp_all)
  from wp_run [OF this assms(7)] show ?thesis .
qed

text \<open>In the example the Deployment gets an order for the default shift.\<close>

lemma ex_office_policies:
  assumes "\<And>ob. ob \<in> set obs \<Longrightarrow> obj_kind ob = KSleepOrder"
  shows "mem_view (ex_office fs obs) (KSleepPolicy, ''shop'', n) =
      (if n = ''office'' then Some (SleepPolicyObj ex_ready) else None)"
    "policies (mem_view (ex_office fs obs)) ''shop'' = {ex_ready}"
    "ruling (policies (mem_view (ex_office fs obs)) ''shop'') name ex_ready"
    "mem_view (ex_office fs obs) (KStatefulSet, ns, n) = None"
    "mem_view (ex_office fs obs) (KDeployment, ''shop'', n) = (if n = ''web'' then Some ex_web_dep else None)"
proof -
  have skip: "find (\<lambda>ob. obj_key ob = (K, a, b)) (obs @ xs) = find (\<lambda>ob. obj_key ob = (K, a, b)) xs"
    if "K \<noteq> KSleepOrder" for K a b xs
    using assms that by (induction obs) (auto simp: obj_key_def)
  show v: "mem_view (ex_office fs obs) (KSleepPolicy, ''shop'', n) =
      (if n = ''office'' then Some (SleepPolicyObj ex_ready) else None)" for n
    by (simp add: mem_view_def ex_office_def skip ex_web_dep_def ex_ready_def)
  then show p: "policies (mem_view (ex_office fs obs)) ''shop'' = {ex_ready}"
    by (auto simp: policies_def split: if_splits)
  show "ruling (policies (mem_view (ex_office fs obs)) ''shop'') name ex_ready"
    by (simp add: p ruling_def leaving_def ex_ready_def)
  show "mem_view (ex_office fs obs) (KStatefulSet, ns, n) = None"
    "mem_view (ex_office fs obs) (KDeployment, ''shop'', n) = (if n = ''web'' then Some ex_web_dep else None)"
    by (simp_all add: mem_view_def ex_office_def skip ex_web_dep_def)
qed

lemma ex_ready_valid: "valid_policy v ex_ready"
proof -
  have ne: "fmupd k x m \<noteq> fmempty" for k :: string and x :: policy_config and m
    by (metis fmupd_lookup fmempty_lookup option.distinct(1))
  show ?thesis
    by (auto simp: valid_policy_def policy_validated_def validated_def covered_def nil_lookup_def made_map_def
        ex_ready_def ne)
qed

definition ex_shift_params :: resource_sleep_params where
  "ex_shift_params = \<lparr>rp_Name = ''web'', rp_Namespace = ''shop'', rp_Kind = ''Deployment'', rp_SleepAt = ''20:00'',
     rp_WakeAt = ''08:00'', rp_Timezone = ''UTC'',
     rp_WorkingDays = ''Monday,Tuesday,Wednesday,Thursday,Friday,Saturday,Sunday''\<rparr>"

lemma ex_desired:
  assumes "\<And>ob. ob \<in> set obs \<Longrightarrow> obj_kind ob = KSleepOrder"
  shows "desired_entry ex_config ex_ready (mem_view (ex_office fs obs)) x p \<longleftrightarrow>
    x = ''office-dep-web'' \<and> p = ex_shift_params"
proof -
  have eff: "getEffectiveParams ex_config ''shop'' ''web'' kindDeployment (sp_Deployments (pol_spec ex_ready)) = Some ex_shift_params"
    "getSleepOrderName ''office'' kindDeployment ''web'' = ''office-dep-web''"
    by code_simp+
  have m: "om_namespace (pol_meta ex_ready) = ''shop''" "om_name (pol_meta ex_ready) = ''office''"
    by (simp_all add: ex_ready_def)
  have v: "mem_view (ex_office fs obs) (KStatefulSet, ''shop'', n) = None"
    "mem_view (ex_office fs obs) (KDeployment, ''shop'', n) \<noteq> None \<longleftrightarrow> n = ''web''" for n
    using ex_office_policies(4,5) [OF assms] by simp_all
  show ?thesis
    unfolding desired_entry_def entry_of_def m v using eff by auto
qed

theorem Reconcile_SleepPolicy_applies_witness:
  "\<exists>so. mem_view (snd (run_state (Reconcile_SleepPolicy ex_utc ex_config ''shop'' ''office'') (ex_office [] [])))
      (KSleepOrder, ''shop'', ''office-dep-web'') = Some (SleepOrderObj so) \<and>
     so_TargetRef (ord_spec so) = \<lparr>tr_APIVersion = '''', tr_Kind = ''Deployment'', tr_Name = ''web''\<rparr> \<and>
     so_WakeAt (ord_spec so) = ''08:00'' \<and> so_SleepAt (ord_spec so) = ''20:00''"
proof -
  let ?w = "ex_office [] []"
  let ?run = "run_state (Reconcile_SleepPolicy ex_utc ex_config ''shop'' ''office'') ?w"
  have h: "mem_healthy ?w" by (simp add: mem_healthy_def ex_office_def)
  have ruling: "ruling (policies (mem_view ?w) ''shop'') ''office'' ex_ready"
    by (rule ex_office_policies(3)) simp
  have "policy_applied ex_ready ex_ready (desired_entry ex_config ex_ready (mem_view ?w)) (mem_view ?w) (mem_view (snd ?run))"
    using Reconcile_SleepPolicy_applies [OF mem.healthy_controllers_axioms h ruling _ ex_ready_valid
        _ surjective_pairing]
    by (simp add: ex_ready_def)
  moreover have "mem_view ?w (KSleepOrder, ''shop'', x) = None" for x
    by (simp add: mem_view_def ex_office_def ex_web_dep_def)
  ultimately have "served ex_ready ex_shift_params None (mem_view (snd ?run) (KSleepOrder, ''shop'', ''office-dep-web''))"
    using ex_desired [of "[]" "[]"] unfolding policy_applied_def by (auto simp: ex_ready_def)
  then show ?thesis
    by (auto simp: served_def hashed_def deleting_def made_for_def newSleepOrder_def ex_shift_params_def)
qed

text \<open>
  C22: in a healthy world, a policy that rules and is not being deleted is applied after at most three
  runs: each run that asks to be called again makes progress (the policy is completed, then it gets its
  finalizer), and the last one applies the completed policy and asks for nothing.
\<close>

theorem Reconcile_SleepPolicy_converges:
  assumes "healthy_controllers E V H C" and "H w"
    and "ruling (policies (V w) ns) name p" and "om_deletion (pol_meta p) = None"
    and "3 \<le> n" and "run_state (requeue_loop n E c ns name) w = (r, w')"
  shows "r = Some (empty_result, None) \<and> converged c p (V w) (V w')"
proof -
  obtain m where n: "n = Suc (Suc (Suc m))"
    by (rule that [of "n - 3"]) (use assms(5) in arith)
  have "wp (requeue_loop n E c ns name) (\<lambda>r w'. r = Some (empty_result, None) \<and> converged c p (V w) (V w')) w"
    unfolding n by (rule healthy_controllers.wp_loop [OF assms(1-4)]) simp
  from wp_run [OF this assms(6)] show ?thesis .
qed

lemma ex_shop_ruling: "ruling (policies (mem_view ex_shop) ''shop'') name ex_policy"
proof -
  have "mem_view ex_shop (KSleepPolicy, ''shop'', n) = (if n = ''office'' then Some (SleepPolicyObj ex_policy) else None)" for n
    by (simp add: mem_view_def ex_shop_def ex_policy_def)
  then have "policies (mem_view ex_shop) ''shop'' = {ex_policy}"
    by (auto simp: policies_def split: if_splits)
  then show ?thesis by (simp add: ruling_def leaving_def ex_policy_def)
qed

theorem Reconcile_SleepPolicy_converges_witness:
  "\<exists>w'. run_state (requeue_loop 3 ex_utc ex_config ''shop'' ''office'') ex_shop = (Some (empty_result, None), w') \<and>
     converged ex_config ex_policy (mem_view ex_shop) (mem_view w')"
proof -
  obtain r w' where run: "run_state (requeue_loop 3 ex_utc ex_config ''shop'' ''office'') ex_shop = (r, w')"
    by (cases "run_state (requeue_loop 3 ex_utc ex_config ''shop'' ''office'') ex_shop")
  have h: "mem_healthy ex_shop" by (simp add: mem_healthy_def ex_shop_def)
  from Reconcile_SleepPolicy_converges [OF mem.healthy_controllers_axioms h ex_shop_ruling _ _ run] run
  show ?thesis by (simp add: ex_policy_def)
qed

text \<open>A policy that has been applied: a second run finds nothing to write.\<close>

lemma fmap_same_graph:
  assumes "\<And>x y. fmlookup f x = Some y \<longleftrightarrow> fmlookup g x = Some y"
  shows "f = g"
proof (rule fmap_ext)
  show "fmlookup f x = fmlookup g x" for x
    using assms by (metis not_None_eq)
qed

lemma policy_applied_fixed:
  assumes "policy_applied p p D v v'" and p: "v (policy_key p) = Some (SleepPolicyObj p)"
    and hashed: "\<And>x q. D x q \<Longrightarrow> hashed q (v (KSleepOrder, om_namespace (pol_meta p), x))"
    and none: "\<And>x. (\<forall>q. \<not> D x q) \<Longrightarrow> v (KSleepOrder, om_namespace (pol_meta p), x) = None"
    and st: "st_State (pol_status p) = Some ds" "\<And>x q. fmlookup ds x = Some q \<longleftrightarrow> D x q"
  shows "v' = v"
proof
  fix k
  note A = assms(1) [unfolded policy_applied_def]
  from A obtain p' where p': "v' (policy_key p) = Some (SleepPolicyObj p')" "state_reported p D p'" by blast
  then obtain ds' where ds': "\<forall>x q. fmlookup ds' x = Some q \<longleftrightarrow> D x q" "st_State (pol_status p) = Some ds' \<longrightarrow> p' = p"
    by (auto simp: state_reported_def)
  have "ds' = ds" by (rule fmap_same_graph) (simp add: ds'(1) st(2))
  then have pol: "v' (policy_key p) = v (policy_key p)" using ds'(2) st(1) p p'(1) by simp
  have ord: "v' (KSleepOrder, om_namespace (pol_meta p), x) = v (KSleepOrder, om_namespace (pol_meta p), x)" for x
  proof (cases "\<exists>q. D x q")
    case True
    then obtain q where "D x q" by blast
    with A hashed [OF this] show ?thesis unfolding served_def by metis
  next
    case False
    with A have "discarded (v (KSleepOrder, om_namespace (pol_meta p), x))
        (v' (KSleepOrder, om_namespace (pol_meta p), x))" by blast
    with none [of x] False show ?thesis by (simp add: discarded_def)
  qed
  show "v' k = v k"
    using conjunct1 [OF A] pol ord by metis
qed

context controllers
begin

text \<open>After a run the policy rules as before, is valid as before, and desires the same orders.\<close>

lemma policy_applied_again:
  assumes "ruling (policies (V w) ns) name p" "valid_policy (V w) p"
    and A: "policy_applied p p (desired_entry c p (V w)) (V w) (V u)"
  obtains p' ds where "V u (policy_key p) = Some (SleepPolicyObj p')" "policy_key p' = policy_key p"
    "pol_spec p' = pol_spec p" "om_deletion (pol_meta p') = om_deletion (pol_meta p)"
    "om_finalizers (pol_meta p') = om_finalizers (pol_meta p)"
    "ruling (policies (V u) ns) name p'" "valid_policy (V u) p'"
    "desired_entry c p' (V u) = desired_entry c p (V w)"
    "\<And>x q. fmlookup ds x = Some q \<longleftrightarrow> desired_entry c p (V w) x q"
    "norm_map (st_State (pol_status p')) = norm_map (Some ds)"
proof -
  let ?D = "desired_entry c p (V w)"
  note stored = ruling_stored [OF assms(1)]
  obtain p' where p': "V u (policy_key p) = Some (SleepPolicyObj p')" "state_reported p ?D p'"
    using A by (auto simp: policy_applied_def)
  obtain rv ds where m: "pol_spec p' = pol_spec p" "pol_meta p' = (pol_meta p)\<lparr>om_rv := rv\<rparr>"
    and ds: "\<And>x q. fmlookup ds x = Some q \<longleftrightarrow> ?D x q" "norm_map (st_State (pol_status p')) = norm_map (Some ds)"
    using p'(2) by (auto simp: state_reported_def)
  have key: "policy_key p' = policy_key p" by (simp add: policy_key_def m(2))
  have others: "V u k = V w k" if "k \<noteq> policy_key p" "\<And>x. k \<noteq> (KSleepOrder, ns, x)" for k
    using A that stored(1) unfolding policy_applied_def by blast
  have "V u (KSleepPolicy, ns, n) = ((V w)(policy_key p \<mapsto> SleepPolicyObj p')) (KSleepPolicy, ns, n)" for n
    by (cases "(KSleepPolicy, ns, n) = policy_key p") (use others p'(1) in simp_all)
  then have "policies (V u) ns = policies ((V w)(policy_key p \<mapsto> SleepPolicyObj p')) ns"
    by (simp only: policies_def)
  also have "\<dots> = insert p' (policies (V w) ns - {p})"
    by (rule policies_replace) (use stored key view_key in auto)
  finally have ruling: "ruling (policies (V u) ns) name p'"
    using ruling_replace [OF assms(1), of p'] m(2) by (simp add: replaces_def policy_key_def)
  have wl: "V u (K, a, n) = V w (K, a, n)" if "K \<in> {KDeployment, KStatefulSet}" for K a n
    by (rule others) (use that in \<open>auto simp: policy_key_def\<close>)
  have "valid_policy (V u) p'"
    by (rule valid_policy_cong [OF assms(2)]) (use m wl in simp_all)
  moreover have "desired_entry c p' (V u) = ?D"
    by (rule desired_entry_cong) (use m wl in simp_all)
  ultimately show thesis using that [of p' ds] p'(1) key m ruling ds by simp
qed

end

text \<open>
  C24: applying is stable.  In a healthy world, a valid, enrolled policy that rules and is not being
  deleted has been applied by a run; it asks for at least one order, and before that run no order of the
  namespace was being deleted and no undesired one was held by a finalizer.  Then a second run from the
  state the first one has left ends without error and writes nothing.  (A policy that asks for no order
  writes its status at every run.)
\<close>

theorem Reconcile_SleepPolicy_quiescent:
  assumes env: "healthy_controllers E V H C" "H w" "H u"
    and p: "ruling (policies (V w) ns) name p" "om_deletion (pol_meta p) = None"
      "valid_policy (V w) p" "sleepPolicyFinalizer \<in> set (om_finalizers (pol_meta p))"
    and some: "desired_entry c p (V w) x0 q0"
    and alive: "\<And>x ob. V w (KSleepOrder, ns, x) = Some ob \<Longrightarrow> om_deletion (obj_meta ob) = None"
    and free: "\<And>x ob. V w (KSleepOrder, ns, x) = Some ob \<Longrightarrow> \<forall>q. \<not> desired_entry c p (V w) x q \<Longrightarrow>
      om_finalizers (obj_meta ob) = []"
    and run1: "run_state (Reconcile_SleepPolicy E c ns name) w = (r1, w1)"
    and u: "V u = V w1"
    and run2: "run_state (Reconcile_SleepPolicy E c ns name) u = (r2, u2)"
  shows "r2 = (empty_result, None) \<and> V u2 = V u"
proof -
  let ?D = "desired_entry c p (V w)"
  note one = wp_run [OF healthy_controllers.wp_Reconcile_SleepPolicy_ok [OF env(1)]]
  have cc: "controllers E V" using env(1) by (rule healthy_controllers.axioms)
  have ns: "om_namespace (pol_meta p) = ns" by (rule controllers.ruling_stored(1) [OF cc p(1)])
  have A: "policy_applied p p ?D (V w) (V u)"
    unfolding u by (rule one [OF env(2) p(1,2) _ _ _ run1]) (use p(3,4) in simp_all)
  obtain p' ds where p': "V u (policy_key p) = Some (SleepPolicyObj p')" "policy_key p' = policy_key p"
    "pol_spec p' = pol_spec p" "om_deletion (pol_meta p') = om_deletion (pol_meta p)"
    "om_finalizers (pol_meta p') = om_finalizers (pol_meta p)"
    and again: "ruling (policies (V u) ns) name p'" "valid_policy (V u) p'" "desired_entry c p' (V u) = ?D"
    and ds: "\<And>x q. fmlookup ds x = Some q \<longleftrightarrow> ?D x q" "norm_map (st_State (pol_status p')) = norm_map (Some ds)"
    by (rule controllers.policy_applied_again [OF cc p(1,3) A]) (rule that; simp)
  have "ds \<noteq> fmempty" using some ds(1) [of x0 q0] by auto
  then have st: "st_State (pol_status p') = Some ds"
    using ds(2) by (auto simp: norm_map_def split: if_splits)
  have r2: "r2 = (empty_result, None) \<and> policy_applied p' p' ?D (V u) (V u2)"
    by (rule one [OF env(3) again(1) _ _ _ _ run2]) (use p(2,4) p' again in simp_all)
  have ns': "om_namespace (pol_meta p') = ns" using p'(2) ns by (simp add: policy_key_def)
  have "V u2 = V u"
  proof (rule policy_applied_fixed [OF conjunct2 [OF r2] _ _ _ st ds(1)])
    show "V u (policy_key p') = Some (SleepPolicyObj p')" using p'(1,2) by simp
    show "hashed q (V u (KSleepOrder, om_namespace (pol_meta p'), x))" if "?D x q" for x q
    proof -
      have "served p q (V w (KSleepOrder, ns, x)) (V u (KSleepOrder, ns, x))"
        using A ns that unfolding policy_applied_def by blast
      then show ?thesis unfolding ns' by (rule served_hashed) (auto simp: deleting_def dest: alive)
    qed
    show "V u (KSleepOrder, om_namespace (pol_meta p'), x) = None" if "\<forall>q. \<not> ?D x q" for x
    proof -
      have "discarded (V w (KSleepOrder, ns, x)) (V u (KSleepOrder, ns, x))"
        using A ns that unfolding policy_applied_def by blast
      then show ?thesis unfolding ns' using free that by (auto simp: discarded_def split: option.splits)
    qed
  qed
  with r2 show ?thesis by simp
qed

theorem Reconcile_SleepPolicy_quiescent_witness:
  "\<exists>w1. w1 = snd (run_state (Reconcile_SleepPolicy ex_utc ex_config ''shop'' ''office'') (ex_office [] [])) \<and>
     mem_view (snd (run_state (Reconcile_SleepPolicy ex_utc ex_config ''shop'' ''office'') w1)) = mem_view w1"
proof -
  let ?R = "Reconcile_SleepPolicy ex_utc ex_config ''shop'' ''office''" and ?w = "ex_office [] []"
  obtain r1 w1 where run1: "run_state ?R ?w = (r1, w1)" by (cases "run_state ?R ?w")
  obtain r2 w2 where run2: "run_state ?R w1 = (r2, w2)" by (cases "run_state ?R w1")
  have h: "mem_healthy ?w" by (simp add: mem_healthy_def ex_office_def)
  have ruling: "ruling (policies (mem_view ?w) ''shop'') ''office'' ex_ready"
    by (rule ex_office_policies(3)) simp
  have meta: "om_deletion (pol_meta ex_ready) = None" "sleepPolicyFinalizer \<in> set (om_finalizers (pol_meta ex_ready))"
    by (simp_all add: ex_ready_def)
  have "wp ?R (\<lambda>_ w'. mem.later ?w w') ?w"
    by (rule mem.wp_Reconcile_SleepPolicy_ok [OF h ruling meta(1)])
  from wp_run [OF this run1] have h1: "mem_healthy w1" by (simp add: mem.later_def)
  have none: "mem_view ?w (KSleepOrder, a, x) = None" for a x
    by (simp add: mem_view_def ex_office_def ex_web_dep_def)
  have des: "desired_entry ex_config ex_ready (mem_view ?w) ''office-dep-web'' ex_shift_params"
    using ex_desired [of "[]"] by simp
  have "mem_view w2 = mem_view w1"
    using Reconcile_SleepPolicy_quiescent [OF mem.healthy_controllers_axioms h h1 ruling meta(1) ex_ready_valid
        meta(2) des _ _ run1 refl run2] none by simp
  then show ?thesis using run1 run2 by auto
qed

text \<open>
  C25: what a changed policy does to the orders of its workloads.  An order whose hash differs from the
  desired one is replaced, and its metadata with it: it comes out without any finalizer, so a deletion
  that follows at once does not wake the target; and when it was being deleted already, it vanishes in
  this very run, while no workload is touched, so a sleeping target stays asleep.
\<close>

theorem changed_order_loses_finalizers:
  assumes "healthy_controllers E V H C" and "H w"
    and "ruling (policies (V w) ns) name p" and "om_deletion (pol_meta p) = None"
    and "valid_policy (V w) p" and "sleepPolicyFinalizer \<in> set (om_finalizers (pol_meta p))"
    and "desired_entry c p (V w) x q" and "V w (KSleepOrder, ns, x) = Some (SleepOrderObj so)"
    and "annotation_value (ord_meta so) configHashAnnotationKey \<noteq> ConfigHashCalc q"
    and "run_state (Reconcile_SleepPolicy E c ns name) w = (r, w')"
  shows "(if om_deletion (ord_meta so) \<noteq> None then V w' (KSleepOrder, ns, x) = None
      else \<exists>so'. V w' (KSleepOrder, ns, x) = Some (SleepOrderObj so') \<and> om_finalizers (ord_meta so') = []) \<and>
    V w' (KDeployment, ns, n) = V w (KDeployment, ns, n) \<and> V w' (KStatefulSet, ns, n) = V w (KStatefulSet, ns, n)"
proof -
  have "wp (Reconcile_SleepPolicy E c ns name) (\<lambda>r w'. policy_applied p p (desired_entry c p (V w)) (V w) (V w')) w"
    by (rule healthy_controllers.wp_Reconcile_SleepPolicy_ok [OF assms(1-4)]) (use assms(5,6) in simp_all)
  from wp_run [OF this assms(10)] have A: "policy_applied p p (desired_entry c p (V w)) (V w) (V w')" .
  have ns: "om_namespace (pol_meta p) = ns"
    using controllers.ruling_stored(1) [OF healthy_controllers.axioms(1) [OF assms(1)] assms(3)] .
  have "served p q (Some (SleepOrderObj so)) (V w' (KSleepOrder, ns, x))"
    using A assms(7,8) ns unfolding policy_applied_def by metis
  moreover have "V w' (K, ns, n) = V w (K, ns, n)" if "K = KDeployment \<or> K = KStatefulSet" for K
    using conjunct1 [OF A [unfolded policy_applied_def]] that by (auto simp: policy_key_def)
  ultimately show ?thesis
    using assms(9) by (auto simp: served_def hashed_def deleting_def made_for_def)
qed

text \<open>The order of the example after an edit of the policy, while it is being deleted.\<close>

definition ex_edited :: sleep_order where
  "ex_edited = \<lparr>ord_meta = ex_pol_meta\<lparr>om_name := ''office-dep-web'', om_deletion := Some 1,
       om_finalizers := [sleepOrderFinalizer]\<rparr>,
     ord_spec = ord_spec (newSleepOrder ex_ready ex_shift_params), ord_status = empty_order_status\<rparr>"

theorem changed_order_loses_finalizers_witness:
  "mem_view (snd (run_state (Reconcile_SleepPolicy ex_utc ex_config ''shop'' ''office'')
      (ex_office [] [SleepOrderObj ex_edited]))) (KSleepOrder, ''shop'', ''office-dep-web'') = None"
proof -
  let ?w = "ex_office [] [SleepOrderObj ex_edited]"
  have h: "mem_healthy ?w" by (simp add: mem_healthy_def ex_office_def)
  have ruling: "ruling (policies (mem_view ?w) ''shop'') ''office'' ex_ready"
    by (rule ex_office_policies(3)) simp
  have des: "desired_entry ex_config ex_ready (mem_view ?w) ''office-dep-web'' ex_shift_params"
    using ex_desired [of "[SleepOrderObj ex_edited]"] by simp
  have stored: "mem_view ?w (KSleepOrder, ''shop'', ''office-dep-web'') = Some (SleepOrderObj ex_edited)"
    by (simp add: mem_view_def ex_office_def ex_edited_def)
  have hash: "annotation_value (ord_meta ex_edited) configHashAnnotationKey \<noteq> ConfigHashCalc ex_shift_params"
    by code_simp
  have meta: "om_deletion (pol_meta ex_ready) = None" "sleepPolicyFinalizer \<in> set (om_finalizers (pol_meta ex_ready))"
    by (simp_all add: ex_ready_def)
  obtain r w' where run: "run_state (Reconcile_SleepPolicy ex_utc ex_config ''shop'' ''office'') ?w = (r, w')"
    by (cases "run_state (Reconcile_SleepPolicy ex_utc ex_config ''shop'' ''office'') ?w")
  note lost = changed_order_loses_finalizers [where p = ex_ready and x = "''office-dep-web''" and q = ex_shift_params
      and so = ex_edited, OF mem.healthy_controllers_axioms h ruling meta(1) ex_ready_valid meta(2) des stored hash run]
  have "om_deletion (ord_meta ex_edited) \<noteq> None" by (simp add: ex_edited_def)
  with conjunct1 [OF lost] show ?thesis by (simp add: run)
qed

end
