(* ===== verification/Namespace_Ctl.thy ===== *)
theory Namespace_Ctl
  imports Client Config Mem_Api Schedule
begin

text \<open>
  The Namespace controller, \<open>internal/controller/namespace_controller.go\<close>: it waits until a namespace
  is old enough, keeps excluded namespaces free of policies, lets namespaces expire, and gives the
  others a default policy.  Log calls are left out.
\<close>

section \<open>The handlers\<close>

definition isNamespaceExcludedFromAnnotations :: "namespace_obj \<Rightarrow> bool" where
  "isNamespaceExcludedFromAnnotations ns =
     (case om_annotations (ns_meta ns) of
        None \<Rightarrow> False
      | Some a \<Rightarrow> fmlookup a namespaceExcludeAnnotation \<noteq> None)"

definition calculateRequeueDuration ::
  "'w env \<Rightarrow> string \<Rightarrow> string \<Rightarrow> ('w, go_error + int) state" where
  "calculateRequeueDuration E expirationDate timezone =
     (case LoadLocation (x_tz E) timezone of
        None \<Rightarrow> ret (Inl ErrTimezone)
      | Some tz \<Rightarrow>
        (case ParseDateFromStr expirationDate of
           Inl e \<Rightarrow> ret (Inl e)
         | Inr date \<Rightarrow> do {
             now \<leftarrow> Now E;
             let today = In now tz;
             ret (Inr (if Before today date then Sub date today else 0)) }))"

definition default_entry :: "config \<Rightarrow> config_map" where
  "default_entry c = fmupd ''default''
     \<lparr>pc_Enable = cf_DefaultPolicyEnabled c, pc_WakeAt = '''', pc_SleepAt = '''', pc_Timezone = '''',
      pc_WorkingDays = ''''\<rparr> fmempty"

definition defaultSleepPolicy :: "config \<Rightarrow> string \<Rightarrow> sleep_policy" where
  "defaultSleepPolicy c ns =
     \<lparr>pol_meta = \<lparr>om_name = DefaultSleepPolicyName, om_namespace = ns, om_annotations = None,
        om_finalizers = [], om_owner = None, om_creation = 0, om_deletion = None, om_rv = 0\<rparr>,
      pol_spec = \<lparr>sp_Timezone = cf_DefaultTimezone c, sp_Deployments = Some (default_entry c),
        sp_StatefulSets = Some (default_entry c)\<rparr>,
      pol_status = empty_policy_status\<rparr>"

definition createDefaultSleepPolicy :: "'w env \<Rightarrow> config \<Rightarrow> namespace_obj \<Rightarrow> ('w, go_error option) state" where
  "createDefaultSleepPolicy E c ns = do {
     r \<leftarrow> x_Create E (SleepPolicyObj (defaultSleepPolicy c (om_name (ns_meta ns))));
     ret (case r of Inl e \<Rightarrow> Some e | Inr _ \<Rightarrow> None) }"

text \<open>The loop over the policies of an excluded namespace; True when a deletion failed.\<close>

fun deletePolicies :: "'w env \<Rightarrow> client_object list \<Rightarrow> ('w, bool) state" where
  "deletePolicies E [] = ret False"
| "deletePolicies E (p # ps) = do {
     d \<leftarrow> x_Delete E p;
     (case d of Some _ \<Rightarrow> ret True | None \<Rightarrow> deletePolicies E ps) }"

definition excludeNamespace :: "'w env \<Rightarrow> config \<Rightarrow> namespace_obj \<Rightarrow> ('w, reconcile_result) state" where
  "excludeNamespace E c ns = do {
     l \<leftarrow> x_List E KSleepPolicy (om_name (ns_meta ns));
     (case l of
        Inl _ \<Rightarrow> ret (empty_result, None)
      | Inr items \<Rightarrow> do {
          failed \<leftarrow> deletePolicies E items;
          ret (if failed then (requeue_after (GetNamespaceDelay c), None) else (empty_result, None)) }) }"

text \<open>The end of Reconcile: a default policy when the namespace has none.\<close>

definition ensurePolicy :: "'w env \<Rightarrow> config \<Rightarrow> namespace_obj \<Rightarrow> ('w, reconcile_result) state" where
  "ensurePolicy E c ns = do {
     l \<leftarrow> x_List E KSleepPolicy (om_name (ns_meta ns));
     (case l of
        Inl _ \<Rightarrow> ret (requeue_after (GetNamespaceDelay c), None)
      | Inr items \<Rightarrow>
          if items \<noteq> [] then ret (empty_result, None)
          else do {
            e \<leftarrow> createDefaultSleepPolicy E c ns;
            ret (case e of Some err \<Rightarrow> (empty_result, Some err) | None \<Rightarrow> (empty_result, None)) }) }"

definition expiration_str :: "time \<Rightarrow> location \<Rightarrow> int \<Rightarrow> string" where
  "expiration_str now tz days = Format_ddmmyyyy (AddDate (In now tz) 0 0 days)"

definition set_expiration :: "string \<Rightarrow> namespace_obj \<Rightarrow> namespace_obj" where
  "set_expiration s ns =
     ns\<lparr>ns_meta := (ns_meta ns)\<lparr>om_annotations :=
       Some (fmupd namespaceExpirationDate s
         (case om_annotations (ns_meta ns) of None \<Rightarrow> fmempty | Some a \<Rightarrow> a))\<rparr>\<rparr>"

text \<open>
  The TTL branch.  Its answer is the result to return, or nothing when Reconcile goes on to the
  policy: a failing update of the annotation does not stop it.
\<close>

definition checkExpiration ::
  "'w env \<Rightarrow> config \<Rightarrow> namespace_obj \<Rightarrow> ('w, reconcile_result option) state" where
  "checkExpiration E c ns =
     (case Option.bind (om_annotations (ns_meta ns)) (\<lambda>a. fmlookup a namespaceExpirationDate) of
        Some expirationDateStr \<Rightarrow> do {
          q \<leftarrow> calculateRequeueDuration E expirationDateStr (cf_DefaultTimezone c);
          (case q of
             Inl _ \<Rightarrow> ret (Some (empty_result, None))
           | Inr requeueDuration \<Rightarrow>
               if requeueDuration > 0 then ret (Some (requeue_after requeueDuration, None))
               else do {
                 _ \<leftarrow> x_Delete E (NamespaceObj ns);
                 ret (Some (empty_result, None)) }) }
      | None \<Rightarrow>
          if om_name (ns_meta ns) \<noteq> DefaultNamespace then
            (case LoadLocation (x_tz E) (cf_DefaultTimezone c) of
               None \<Rightarrow> ret (Some (empty_result, None))
             | Some tz \<Rightarrow> do {
                 now \<leftarrow> Now E;
                 _ \<leftarrow> x_Update E (NamespaceObj (set_expiration
                   (expiration_str now tz (nc_ExpirationTTLInDays (cf_NamespaceConfig c))) ns));
                 ret None })
          else ret None)"

definition reconcileNamespace :: "'w env \<Rightarrow> config \<Rightarrow> namespace_obj \<Rightarrow> ('w, reconcile_result) state" where
  "reconcileNamespace E c ns = do {
     now \<leftarrow> Now E;
     let namespaceDelay = GetNamespaceDelay c;
     let age = Sub now (now\<lparr>t_ns := om_creation (ns_meta ns)\<rparr>);
     (if age < namespaceDelay then ret (requeue_after (wrap64 (namespaceDelay - age)), None)
      else if IsNamespaceExcludedFromConfig c (om_name (ns_meta ns)) \<or> isNamespaceExcludedFromAnnotations ns
      then excludeNamespace E c ns
      else if nc_TTLEnabled (cf_NamespaceConfig c) then do {
        x \<leftarrow> checkExpiration E c ns;
        (case x of Some r \<Rightarrow> ret r | None \<Rightarrow> ensurePolicy E c ns) }
      else ensurePolicy E c ns) }"

definition Reconcile_Namespace :: "'w env \<Rightarrow> config \<Rightarrow> string \<Rightarrow> ('w, reconcile_result) state" where
  "Reconcile_Namespace E c name = do {
     g \<leftarrow> x_Get E KNamespace '''' name;
     (case as_Namespace g of
        Inl e \<Rightarrow> ret (if IsNotFound e then (empty_result, None) else (empty_result, Some e))
      | Inr ns \<Rightarrow> reconcileNamespace E c ns) }"

end
