(* ===== verification/Namespace_Props.thy ===== *)
theory Namespace_Props
  imports Namespace_Ctl Sleep_Policy_Props
begin

text \<open>
  The properties of the Namespace controller: what a run may touch whatever calls fail, what each
  branch achieves in a healthy world, the date arithmetic of the expiration, and the policy that the
  controller creates, seen by the SleepPolicy controller.
\<close>

section \<open>What a run may do\<close>

definition ns_key :: "namespace_obj \<Rightarrow> okey" where
  "ns_key ns = (KNamespace, om_namespace (ns_meta ns), om_name (ns_meta ns))"

definition excluded :: "config \<Rightarrow> namespace_obj \<Rightarrow> bool" where
  "excluded c ns \<longleftrightarrow>
     IsNamespaceExcludedFromConfig c (om_name (ns_meta ns)) \<or> annotation (NamespaceObj ns) namespaceExcludeAnnotation \<noteq> None"

lemma excluded_annotation:
  "isNamespaceExcludedFromAnnotations ns \<longleftrightarrow> annotation (NamespaceObj ns) namespaceExcludeAnnotation \<noteq> None"
  by (simp add: isNamespaceExcludedFromAnnotations_def annotation_def split: option.split)

text \<open>The namespace got an expiration date and nothing else, or it went away with this very write.\<close>

definition dated :: "namespace_obj \<Rightarrow> client_object option \<Rightarrow> bool" where
  "dated ns new \<longleftrightarrow>
     (case new of None \<Rightarrow> om_deletion (ns_meta ns) \<noteq> None
      | Some ob \<Rightarrow> obj_key ob = ns_key ns \<and> om_finalizers (obj_meta ob) = om_finalizers (ns_meta ns) \<and>
          annotation (NamespaceObj ns) namespaceExpirationDate = None \<and>
          (\<exists>s. \<forall>k. annotation ob k = (if k = namespaceExpirationDate then Some s else annotation (NamespaceObj ns) k)))"

text \<open>The default policy as the controller creates it.\<close>

definition is_default_policy :: "config \<Rightarrow> string \<Rightarrow> sleep_policy \<Rightarrow> bool" where
  "is_default_policy c n p \<longleftrightarrow>
     pol_spec p = pol_spec (defaultSleepPolicy c n) \<and> policy_key p = (KSleepPolicy, n, DefaultSleepPolicyName) \<and>
     om_deletion (pol_meta p) = None \<and> om_finalizers (pol_meta p) = []"

definition default_key :: "namespace_obj \<Rightarrow> okey" where
  "default_key ns = (KSleepPolicy, om_name (ns_meta ns), DefaultSleepPolicyName)"

text \<open>Policies of an excluded namespace may be deleted.\<close>

definition cleared :: "string \<Rightarrow> view \<Rightarrow> view \<Rightarrow> bool" where
  "cleared n v v' \<longleftrightarrow>
     (\<forall>k. (\<forall>x. k \<noteq> (KSleepPolicy, n, x)) \<longrightarrow> v' k = v k) \<and>
     (\<forall>x. v' (KSleepPolicy, n, x) = v (KSleepPolicy, n, x) \<or> dropped (v (KSleepPolicy, n, x)) (v' (KSleepPolicy, n, x)))"

text \<open>A default policy may be created where there is none.\<close>

definition provided :: "config \<Rightarrow> namespace_obj \<Rightarrow> view \<Rightarrow> view \<Rightarrow> bool" where
  "provided c ns v v' \<longleftrightarrow>
     v' = v \<or>
     (\<forall>x. v (KSleepPolicy, om_name (ns_meta ns), x) = None) \<and>
       (\<exists>p. is_default_policy c (om_name (ns_meta ns)) p \<and> v' = v(default_key ns \<mapsto> SleepPolicyObj p))"

definition ns_effect :: "config \<Rightarrow> namespace_obj \<Rightarrow> view \<Rightarrow> view \<Rightarrow> bool" where
  "ns_effect c ns v v' \<longleftrightarrow>
     (if excluded c ns then cleared (om_name (ns_meta ns)) v v'
      else
        provided c ns v v' \<or>
        nc_TTLEnabled (cf_NamespaceConfig c) \<and>
          ((\<exists>s d new. annotation (NamespaceObj ns) namespaceExpirationDate = Some s \<and> ParseDateFromStr s = Inr d \<and>
              v' = v(ns_key ns := new) \<and> dropped (v (ns_key ns)) new) \<or>
           om_name (ns_meta ns) \<noteq> DefaultNamespace \<and>
             (\<exists>new. dated ns new \<and> provided c ns (v(ns_key ns := new)) v')))"

lemma cleared_refl [simp]: "cleared n v v" by (simp add: cleared_def)

lemma cleared_step:
  assumes "cleared n v v1" "v2 = v1((KSleepPolicy, n, x) := new)" "dropped (v1 (KSleepPolicy, n, x)) new"
  shows "cleared n v v2"
proof -
  have "dropped (v (KSleepPolicy, n, x)) new"
    using assms(1,3) dropped_trans unfolding cleared_def by metis
  then show ?thesis using assms(1,2) by (auto simp: cleared_def)
qed

lemma provided_refl [simp]: "provided c ns v v" by (simp add: provided_def)

lemma ns_effect_refl [simp]: "ns_effect c ns v v" by (simp add: ns_effect_def)

lemma default_created:
  assumes "ob' = with_rv rv (created cr (SleepPolicyObj (defaultSleepPolicy c n)))"
  shows "\<exists>p. ob' = SleepPolicyObj p \<and> is_default_policy c n p"
proof -
  have ne: "fmupd k x m \<noteq> fmempty" for k :: string and x :: policy_config and m
    by (metis fmupd_lookup fmempty_lookup option.distinct(1))
  show ?thesis
    by (auto simp: assms with_rv_def created_def is_default_policy_def defaultSleepPolicy_def policy_key_def
        norm_meta_def norm_policy_spec_def norm_map_def default_entry_def ne)
qed

context kube_api
begin

lemma wp_deletePolicies:
  assumes "cleared n v (V w)"
    and "\<And>ob. ob \<in> set obs \<Longrightarrow> obj_key ob = (KSleepPolicy, n, obj_name ob)"
    and Q: "\<And>r w'. cleared n v (V w') \<Longrightarrow> Q r w'"
  shows "wp (deletePolicies E obs) Q w"
  using assms(1,2)
proof (induction obs arbitrary: w)
  case (Cons ob obs)
  have "cleared n v (V w')" if "V w' = V w \<and> d \<noteq> None \<or> applied_delete (V w) ob (V w')" for d :: "go_error option" and w'
  proof -
    have k: "obj_key ob = (KSleepPolicy, n, obj_name ob)" using Cons.prems(2) by simp
    have "\<exists>new. V w' = (V w)((KSleepPolicy, n, obj_name ob) := new) \<and> dropped (V w (KSleepPolicy, n, obj_name ob)) new"
      if "applied_delete (V w) ob (V w')"
      using that unfolding applied_delete_def k by (fastforce simp: dropped_def)
    then show ?thesis using that Cons.prems(1) cleared_step by metis
  qed
  note kept = this
  have IH: "wp (deletePolicies E obs) Q w1" if "cleared n v (V w1)" for w1
    by (rule Cons.IH [OF that]) (use Cons.prems(2) in auto)
  show ?case
    unfolding deletePolicies.simps wp_bind
  proof (rule wp_Delete, goal_cases)
    case (1 d w')
    from kept [OF 1(1)] show ?case by (simp add: IH Q split: option.split)
  qed
qed (simp add: Q)

lemma wp_excludeNamespace:
  assumes "\<And>r w'. cleared (om_name (ns_meta ns)) (V w) (V w') \<Longrightarrow> Q r w'"
  shows "wp (excludeNamespace E c ns) Q w"
  unfolding excludeNamespace_def wp_bind
proof (rule wp_List, goal_cases)
  case (1 l w')
  show ?case
  proof (cases l)
    case (Inr items)
    have "obj_key ob = (KSleepPolicy, om_name (ns_meta ns), obj_name ob)" if "ob \<in> set items" for ob
      using list_names(1) [OF 1(2) [unfolded Inr]] view_key that by metis
    then show ?thesis
      using 1 assms by (auto simp: Inr intro!: wp_deletePolicies [where v = "V w"])
  qed (use 1 assms in simp)
qed

lemma wp_ensurePolicy:
  assumes "\<And>r w'. provided c ns (V w) (V w') \<Longrightarrow> Q r w'"
  shows "wp (ensurePolicy E c ns) Q w"
  unfolding ensurePolicy_def wp_bind
proof (rule wp_List, goal_cases)
  case (1 l w1)
  show ?case
  proof (cases l)
    case (Inr items)
    show ?thesis
    proof (cases "items = []")
      case True
      have none: "V w (KSleepPolicy, om_name (ns_meta ns), x) = None" for x
        using list_names_ex [OF 1(2) [unfolded Inr True], of "\<lambda>y. y = x"] by simp
      have k: "obj_key (SleepPolicyObj (defaultSleepPolicy c (om_name (ns_meta ns)))) = default_key ns"
        by (simp add: defaultSleepPolicy_def default_key_def)
      have made: "provided c ns (V w) (V w2)"
        if "applied_create (V w) (SleepPolicyObj (defaultSleepPolicy c (om_name (ns_meta ns)))) ob' (V w2)" for ob' w2
      proof -
        from that [unfolded applied_create_def k] obtain rv cr where
          "ob' = with_rv rv (created cr (SleepPolicyObj (defaultSleepPolicy c (om_name (ns_meta ns)))))"
          and new: "V w2 = (V w)(default_key ns \<mapsto> ob')" by blast
        from default_created [OF this(1)] obtain p where "ob' = SleepPolicyObj p"
          "is_default_policy c (om_name (ns_meta ns)) p" by blast
        then show ?thesis unfolding provided_def new using none by (intro disjI2 conjI allI exI [of _ p]) simp_all
      qed
      have "wp (createDefaultSleepPolicy E c ns) (\<lambda>r w'. provided c ns (V w) (V w')) w1"
        unfolding createDefaultSleepPolicy_def wp_bind wp_return
      proof (rule wp_Create, goal_cases)
        case (1 r w2)
        then show ?case using made \<open>V w1 = V w\<close> by (auto simp: write_result_def split: sum.splits)
      qed
      then have "wp (createDefaultSleepPolicy E c ns)
          (\<lambda>e. wp (ret (case e of Some err \<Rightarrow> (empty_result, Some err) | None \<Rightarrow> (empty_result, None))) Q) w1"
        by (rule wp_mono) (simp add: assms)
      then show ?thesis using True by (simp add: Inr)
    qed (use 1 assms in \<open>simp add: Inr\<close>)
  qed (use 1 assms in simp)
qed

end

lemma dated_update:
  assumes "applied_update v (NamespaceObj (set_expiration s ns)) ob' v'" "v (ns_key ns) = Some (NamespaceObj ns)"
    and "annotation (NamespaceObj ns) namespaceExpirationDate = None"
  shows "\<exists>new. v' = v(ns_key ns := new) \<and> dated ns new"
proof -
  let ?n = "set_expiration s ns"
  have k: "obj_key (NamespaceObj ?n) = ns_key ns" by (simp add: ns_key_def set_expiration_def)
  from assms(1) [unfolded applied_update_def k] assms(2) obtain rv where
    ob': "ob' = with_rv rv (write_over (NamespaceObj ns) (NamespaceObj ?n))"
    and v': "v' = v(ns_key ns := (if released ob' then None else Some ob'))" by auto
  have ann: "annotation ob' k = (if k = namespaceExpirationDate then Some s else annotation (NamespaceObj ns) k)" for k
    by (auto simp: ob' annotation_def set_expiration_def split: option.split)
  have "obj_key ob' = ns_key ns" "om_finalizers (obj_meta ob') = om_finalizers (ns_meta ns)"
    "released ob' \<Longrightarrow> om_deletion (ns_meta ns) \<noteq> None"
    by (simp_all add: ob' ns_key_def released_def set_expiration_def)
  then have "dated ns (if released ob' then None else Some ob')"
    using ann assms(3) by (auto simp: dated_def)
  with v' show ?thesis by blast
qed

context kube_api
begin

lemma wp_calculateRequeueDuration:
  assumes "\<And>e w'. V w' = V w \<Longrightarrow> Q (Inl e) w'"
    and "\<And>d q w'. V w' = V w \<Longrightarrow> ParseDateFromStr s = Inr d \<Longrightarrow> Q (Inr q) w'"
  shows "wp (calculateRequeueDuration E s z) Q w"
  unfolding calculateRequeueDuration_def
  by (auto simp: Let_def intro!: wp_Now' assms split: option.split sum.split)

text \<open>The answer of the TTL branch: a result with its effect, or nothing and perhaps a date.\<close>

lemma wp_checkExpiration:
  assumes stored: "V w (ns_key ns) = Some (NamespaceObj ns)"
    and quit: "\<And>r w'. V w' = V w \<Longrightarrow> Q (Some r) w'"
    and gone: "\<And>s d r new w'. annotation (NamespaceObj ns) namespaceExpirationDate = Some s \<Longrightarrow>
      ParseDateFromStr s = Inr d \<Longrightarrow> V w' = (V w)(ns_key ns := new) \<Longrightarrow> dropped (V w (ns_key ns)) new \<Longrightarrow> Q (Some r) w'"
    and go: "\<And>w'. V w' = V w \<Longrightarrow> Q None w'"
    and date: "\<And>new w'. om_name (ns_meta ns) \<noteq> DefaultNamespace \<Longrightarrow> dated ns new \<Longrightarrow>
      V w' = (V w)(ns_key ns := new) \<Longrightarrow> Q None w'"
  shows "wp (checkExpiration E c ns) Q w"
proof (cases "annotation (NamespaceObj ns) namespaceExpirationDate")
  case (Some s)
  have del: "wp (x_Delete E (NamespaceObj ns)) (\<lambda>_. wp (ret (Some (empty_result, None))) Q) w1"
    if "V w1 = V w" "ParseDateFromStr s = Inr d" for w1 d
  proof (rule wp_Delete, goal_cases)
    case (1 x w')
    have k: "obj_key (NamespaceObj ns) = ns_key ns" by (simp add: ns_key_def)
    from 1(1) have "V w' = V w \<or> (\<exists>new. V w' = (V w)(ns_key ns := new) \<and> dropped (V w (ns_key ns)) new)"
      unfolding applied_delete_def k that(1) by (fastforce simp: dropped_def)
    then show ?case using quit gone [OF Some that(2)] by auto
  qed
  have "wp (calculateRequeueDuration E s (cf_DefaultTimezone c)) (\<lambda>q. wp (case q of
        Inl _ \<Rightarrow> ret (Some (empty_result, None))
      | Inr d \<Rightarrow> if d > 0 then ret (Some (requeue_after d, None))
          else do { _ \<leftarrow> x_Delete E (NamespaceObj ns); ret (Some (empty_result, None)) }) Q) w"
    by (rule wp_calculateRequeueDuration) (use del in \<open>simp_all add: quit\<close>)
  moreover have "Option.bind (om_annotations (ns_meta ns)) (\<lambda>a. fmlookup a namespaceExpirationDate) = Some s"
    using Some by (simp add: annotation_def)
  ultimately show ?thesis by (simp add: checkExpiration_def)
next
  case None
  have upd: "wp (x_Update E (NamespaceObj (set_expiration s ns))) (\<lambda>_. wp (ret None) Q) w1"
    if "V w1 = V w" "om_name (ns_meta ns) \<noteq> DefaultNamespace" for s w1
  proof (rule wp_Update, goal_cases)
    case (1 r w')
    then have "V w' = V w \<or> (\<exists>ob'. applied_update (V w) (NamespaceObj (set_expiration s ns)) ob' (V w'))"
      using that(1) by (auto simp: write_result_def split: sum.splits)
    then have "Q None w'"
      using go date [OF that(2)] dated_update [where v = "V w" and ns = ns, OF _ stored None] by blast
    then show ?case by simp
  qed
  have "Option.bind (om_annotations (ns_meta ns)) (\<lambda>a. fmlookup a namespaceExpirationDate) = None"
    using None by (simp add: annotation_def)
  then show ?thesis
    by (auto simp: checkExpiration_def quit go intro!: wp_Now' upd split: option.split)
qed

lemma wp_reconcileNamespace:
  assumes stored: "V w (ns_key ns) = Some (NamespaceObj ns)"
  shows "wp (reconcileNamespace E c ns) (\<lambda>r w'. ns_effect c ns (V w) (V w')) w"
proof -
  have ex: "wp (excludeNamespace E c ns) (\<lambda>r w'. ns_effect c ns (V w) (V w')) w1"
    if "V w1 = V w" "excluded c ns" for w1
    by (rule wp_excludeNamespace) (use that in \<open>simp add: ns_effect_def\<close>)
  have en: "wp (ensurePolicy E c ns) (\<lambda>r w'. ns_effect c ns (V w) (V w')) w1"
    if "V w1 = V w" "\<not> excluded c ns" for w1
    by (rule wp_ensurePolicy) (use that in \<open>simp add: ns_effect_def\<close>)
  have ttl: "wp (checkExpiration E c ns) (\<lambda>x. wp (case x of Some r \<Rightarrow> ret r | None \<Rightarrow> ensurePolicy E c ns)
        (\<lambda>r w'. ns_effect c ns (V w) (V w'))) w1"
    if w1: "V w1 = V w" "\<not> excluded c ns" "nc_TTLEnabled (cf_NamespaceConfig c)" for w1
  proof (rule wp_checkExpiration, goal_cases)
    case (5 new w')
    have "wp (ensurePolicy E c ns) (\<lambda>r w'. ns_effect c ns (V w) (V w')) w'"
      by (rule wp_ensurePolicy) (use 5 w1 in \<open>auto simp: ns_effect_def\<close>)
    then show ?case by simp
  qed (use w1 stored en in \<open>auto simp: ns_effect_def\<close>)
  show ?thesis
    unfolding reconcileNamespace_def wp_bind excluded_annotation Let_def excluded_def [symmetric]
    by (rule wp_Now') (auto simp: ex en ttl)
qed

end

context kube_api
begin

lemma wp_Reconcile_Namespace:
  "wp (Reconcile_Namespace E c name) (\<lambda>r w'. V w' = V w \<or>
    (\<exists>ns. V w (KNamespace, '''', name) = Some (NamespaceObj ns) \<and> ns_effect c ns (V w) (V w'))) w"
  unfolding Reconcile_Namespace_def wp_bind
proof (rule wp_Get, goal_cases)
  case (1 g w1)
  show ?case
  proof (cases "as_Namespace g")
    case (Inr ns)
    then have g: "g = Inr (NamespaceObj ns)" by (auto simp: as_Namespace_def split: sum.splits client_object.splits)
    then have st: "V w (KNamespace, '''', name) = Some (NamespaceObj ns)" using 1(2) by (simp add: get_result_def)
    have "V w1 (ns_key ns) = Some (NamespaceObj ns)"
      using view_key [OF st] st 1(1) by (simp add: ns_key_def)
    from wp_reconcileNamespace [OF this, of c]
    show ?thesis unfolding Inr sum.case by (rule wp_mono) (use 1(1) st in auto)
  qed (use 1 in simp)
qed

end

section \<open>A healthy world\<close>

text \<open>The handler after the age has been checked.\<close>

abbreviation after_delay :: "'w env \<Rightarrow> config \<Rightarrow> namespace_obj \<Rightarrow> ('w, reconcile_result) state" where
  "after_delay E c ns \<equiv>
     (if excluded c ns then excludeNamespace E c ns
      else if nc_TTLEnabled (cf_NamespaceConfig c) then do {
        x \<leftarrow> checkExpiration E c ns;
        (case x of Some r \<Rightarrow> ret r | None \<Rightarrow> ensurePolicy E c ns) }
      else ensurePolicy E c ns)"

context healthy_controllers
begin

lemma wp_deletePolicies_ok:
  assumes "H w" "distinct (map obj_name obs)"
    and "\<And>ob. ob \<in> set obs \<Longrightarrow> V w (KSleepPolicy, n, obj_name ob) = Some ob"
    and "\<And>w'. later w w' \<Longrightarrow> (\<And>k. (\<forall>ob \<in> set obs. k \<noteq> (KSleepPolicy, n, obj_name ob)) \<Longrightarrow> V w' k = V w k) \<Longrightarrow>
      (\<And>ob. ob \<in> set obs \<Longrightarrow> discarded (Some ob) (V w' (KSleepPolicy, n, obj_name ob))) \<Longrightarrow> Q False w'"
  shows "wp (deletePolicies E obs) Q w"
  using assms
proof (induction obs arbitrary: w Q)
  case (Cons ob obs)
  let ?k = "(KSleepPolicy, n, obj_name ob)"
  have key: "obj_key ob = ?k" using view_key [OF Cons.prems(3)] by simp
  have other: "obj_name a \<noteq> obj_name ob" if "a \<in> set obs" for a
    using imageI [OF that, of obj_name] Cons.prems(2) by auto
  show ?case
    unfolding deletePolicies.simps wp_bind
  proof (rule wp_Delete_ok [OF Cons.prems(1)], goal_cases)
    case (2 w1)
    have gone: "discarded (Some ob) (V w1 ?k)"
      by (rule delete_discarded [OF 2(3) key]) (use Cons.prems(3) in simp_all)
    have frame: "V w1 k = V w k" if "k \<noteq> ?k" for k
      using applied_frame(4) [OF 2(3)] that key by simp
    have "wp (deletePolicies E obs) Q w1"
    proof (rule Cons.IH)
      show "V w1 (KSleepPolicy, n, obj_name a) = Some a" if "a \<in> set obs" for a
        using frame other [OF that] Cons.prems(3) that by simp
      show "Q False w'"
        if w': "later w1 w'" "\<And>k. (\<forall>ob \<in> set obs. k \<noteq> (KSleepPolicy, n, obj_name ob)) \<Longrightarrow> V w' k = V w1 k"
          "\<And>ob. ob \<in> set obs \<Longrightarrow> discarded (Some ob) (V w' (KSleepPolicy, n, obj_name ob))" for w'
      proof (rule Cons.prems(4))
        show "later w w'" using w'(1) 2(1,2) by (auto simp: later_def)
        show "V w' k = V w k" if "\<forall>a \<in> set (ob # obs). k \<noteq> (KSleepPolicy, n, obj_name a)" for k
          using w'(2) [of k] that frame by simp
        show "discarded (Some a) (V w' (KSleepPolicy, n, obj_name a))" if "a \<in> set (ob # obs)" for a
        proof (cases "a = ob")
          case True
          have "V w' ?k = V w1 ?k" by (rule w'(2)) (use other in \<open>metis prod.inject\<close>)
          then show ?thesis using True gone by simp
        qed (use that w'(3) in auto)
      qed
    qed (use 2 Cons.prems in \<open>auto simp: later_def\<close>)
    then show ?case by simp
  qed (use Cons.prems(3) key in simp)
qed (simp add: later_refl)

lemma wp_excludeNamespace_ok:
  assumes "H w"
    and "\<And>w'. later w w' \<Longrightarrow> (\<And>k. (\<forall>x. k \<noteq> (KSleepPolicy, om_name (ns_meta ns), x)) \<Longrightarrow> V w' k = V w k) \<Longrightarrow>
      (\<And>x. discarded (V w (KSleepPolicy, om_name (ns_meta ns), x)) (V w' (KSleepPolicy, om_name (ns_meta ns), x))) \<Longrightarrow>
      Q (empty_result, None) w'"
  shows "wp (excludeNamespace E c ns) Q w"
  unfolding excludeNamespace_def wp_bind
proof (rule wp_List_ok [OF assms(1)], goal_cases)
  case (1 items w1)
  let ?n = "om_name (ns_meta ns)"
  note names = list_names [OF 1(4)]
  have "wp (deletePolicies E items) (\<lambda>failed. wp (ret (if failed then (requeue_after (GetNamespaceDelay c), None)
      else (empty_result, None))) Q) w1"
  proof (rule wp_deletePolicies_ok [where n = ?n, OF 1(1) names(2)], goal_cases)
    case (2 w')
    have "Q (empty_result, None) w'"
    proof (rule assms(2))
      show "discarded (V w (KSleepPolicy, ?n, x)) (V w' (KSleepPolicy, ?n, x))" for x
      proof (cases "V w (KSleepPolicy, ?n, x)")
        case None
        then have "\<forall>ob \<in> set items. (KSleepPolicy, ?n, x) \<noteq> (KSleepPolicy, ?n, obj_name ob)"
          using names(1) by auto
        from 2(2) [OF this] show ?thesis using None 1(3) by (simp add: discarded_def)
      next
        case (Some ob)
        with view_key [OF Some] have "ob \<in> set items" "obj_name ob = x"
          using names(1) [of ob] by (auto simp: obj_key_def obj_name_def)
        then show ?thesis using 2(3) [of ob] Some by simp
      qed
    qed (use 1 2 in \<open>auto simp: later_def\<close>)
    then show ?case by simp
  qed (use 1 names in auto)
  then show ?case by simp
qed

text \<open>Providing the default policy.\<close>

lemma wp_ensurePolicy_ok:
  assumes "H w"
    and some: "\<And>w'. later w w' \<Longrightarrow> V w' = V w \<Longrightarrow> policies (V w) (om_name (ns_meta ns)) \<noteq> {} \<Longrightarrow> Q (empty_result, None) w'"
    and none: "\<And>p w'. later w w' \<Longrightarrow> V w' = (V w)(default_key ns \<mapsto> SleepPolicyObj p) \<Longrightarrow>
      is_default_policy c (om_name (ns_meta ns)) p \<Longrightarrow> policies (V w) (om_name (ns_meta ns)) = {} \<Longrightarrow> Q (empty_result, None) w'"
  shows "wp (ensurePolicy E c ns) Q w"
  unfolding ensurePolicy_def wp_bind
proof (rule wp_List_ok [OF assms(1)], goal_cases)
  case (1 items w1)
  let ?p = "SleepPolicyObj (defaultSleepPolicy c (om_name (ns_meta ns)))"
  note L = policies_listed [OF 1(4)]
  have empty: "items = [] \<longleftrightarrow> policies (V w) (om_name (ns_meta ns)) = {}"
    using L(1,3) by (metis map_is_Nil_conv set_empty)
  show ?case
  proof (cases "items = []")
    case True
    have k: "obj_key ?p = default_key ns" by (simp add: defaultSleepPolicy_def default_key_def)
    have missing: "V w1 (default_key ns) = None"
      using list_names_ex [OF 1(4) [unfolded True], of "\<lambda>y. y = DefaultSleepPolicyName"] 1(3)
      by (simp add: default_key_def)
    have "wp (x_Create E ?p) (\<lambda>r. wp (ret (case (case r of Inl e \<Rightarrow> Some e | Inr _ \<Rightarrow> None) of
        Some err \<Rightarrow> (empty_result, Some err) | None \<Rightarrow> (empty_result, None))) Q) w1"
    proof (rule wp_Create_ok [OF 1(1)], goal_cases)
      case (2 cr rv ob' w')
      from default_created [OF 2(3)] obtain p where p: "ob' = SleepPolicyObj p"
        "is_default_policy c (om_name (ns_meta ns)) p" by blast
      have "V w' = (V w)(default_key ns \<mapsto> SleepPolicyObj p)" using 2(4) 1(3) unfolding k p(1) by simp
      with 1 2 p(2) True empty have "Q (empty_result, None) w'" by (intro none) (auto simp: later_def)
      then show ?case by simp
    qed (simp only: k missing)
    then show ?thesis using True by (simp add: createDefaultSleepPolicy_def)
  qed (use 1 empty in \<open>auto simp: later_def intro!: some\<close>)
qed

text \<open>The TTL branch on a namespace that carries a date, by the clock reading \<open>t\<close>.\<close>

lemma wp_checkExpiration_dated:
  assumes "H w" and stored: "V w (ns_key ns) = Some (NamespaceObj ns)"
    and Some: "annotation (NamespaceObj ns) namespaceExpirationDate = Some s"
    and bad: "\<And>w'. later w w' \<Longrightarrow> V w' = V w \<Longrightarrow> LoadLocation (x_tz E) (cf_DefaultTimezone c) = None \<or>
      (\<exists>e. ParseDateFromStr s = Inl e) \<Longrightarrow> Q (Some (empty_result, None)) w'"
    and wait: "\<And>d t w'. later w w' \<Longrightarrow> V w' = V w \<Longrightarrow> C w \<le> t \<Longrightarrow> t \<le> C w' \<Longrightarrow>
      ParseDateFromStr s = Inr d \<Longrightarrow> t < t_ns d \<Longrightarrow>
      Q (Some (requeue_after (min max_int64 (t_ns d - t)), None)) w'"
    and gone: "\<And>d t new w'. later w w' \<Longrightarrow> C w \<le> t \<Longrightarrow> t \<le> C w' \<Longrightarrow>
      ParseDateFromStr s = Inr d \<Longrightarrow> t_ns d \<le> t \<Longrightarrow>
      V w' = (V w)(ns_key ns := new) \<Longrightarrow> dropped (V w (ns_key ns)) new \<Longrightarrow> Q (Some (empty_result, None)) w'"
  shows "wp (checkExpiration E c ns) Q w"
proof -
  have b: "Option.bind (om_annotations (ns_meta ns)) (\<lambda>a. fmlookup a namespaceExpirationDate) = Some s"
    using Some by (simp add: annotation_def)
  have k: "obj_key (NamespaceObj ns) = ns_key ns" by (simp add: ns_key_def)
  show ?thesis
  proof (cases "LoadLocation (x_tz E) (cf_DefaultTimezone c)")
    case None
    then show ?thesis using bad [OF later_refl [OF assms(1)]]
      by (simp add: checkExpiration_def b calculateRequeueDuration_def)
  next
    case tz: (Some tz)
    show ?thesis
    proof (cases "ParseDateFromStr s")
      case (Inl e)
      then show ?thesis using bad [OF later_refl [OF assms(1)]] Inl
        by (simp add: checkExpiration_def b calculateRequeueDuration_def tz)
    next
      case (Inr d)
      let ?rest = "\<lambda>now. if Before (In now tz) d then ret (Some (requeue_after (Sub d (In now tz)), None))
          else do { _ \<leftarrow> x_Delete E (NamespaceObj ns); ret (Some (empty_result, None)) }"
      have "wp (Now E) (\<lambda>now. wp (?rest now) Q) w"
      proof (rule wp_Now_ok [OF assms(1)], goal_cases)
        case (1 t w1)
        show ?case
        proof (cases "t < t_ns d")
          case True
          then have "Sub d (In \<lparr>t_ns = t, t_loc = tz_local (x_tz E)\<rparr> tz) = min max_int64 (t_ns d - t)"
            by (simp add: Sub_def min_int64_def max_int64_def)
          then show ?thesis using wait [OF _ _ _ _ Inr True] 1 True by (simp add: Before_def later_def)
        next
          case False
          have "wp (x_Delete E (NamespaceObj ns)) (\<lambda>_. wp (ret (Some (empty_result, None))) Q) w1"
          proof (rule wp_Delete_ok [OF 1(1)], goal_cases)
            case (2 w')
            then have "\<exists>new. V w' = (V w)(ns_key ns := new) \<and> dropped (V w (ns_key ns)) new"
              unfolding applied_delete_def k 1(4) by (fastforce simp: dropped_def)
            then show ?case using gone [OF _ _ _ Inr, of w' t] 1 2 False by (auto simp: later_def)
          qed (simp only: k 1(4) stored option.distinct not_False_eq_True)
          then show ?thesis using False by (simp add: Before_def)
        qed
      qed
      moreover have "(let q = (if Before (In now tz) d then Sub d (In now tz) else 0) in
          if 0 < q then ret (Some (requeue_after q, None :: go_error option))
          else do { _ \<leftarrow> x_Delete E (NamespaceObj ns); ret (Some (empty_result, None)) }) = ?rest now" for now
        by (auto simp: Sub_def Before_def min_int64_def max_int64_def)
      ultimately show ?thesis
        by (simp add: checkExpiration_def b calculateRequeueDuration_def tz Inr Let_def)
    qed
  qed
qed

text \<open>And on one that does not.\<close>

lemma wp_checkExpiration_undated:
  assumes "H w" and stored: "V w (ns_key ns) = Some (NamespaceObj ns)"
    and None: "annotation (NamespaceObj ns) namespaceExpirationDate = None"
    and bad: "\<And>w'. later w w' \<Longrightarrow> V w' = V w \<Longrightarrow> LoadLocation (x_tz E) (cf_DefaultTimezone c) = None \<Longrightarrow>
      Q (Some (empty_result, None)) w'"
    and date: "\<And>tz t new w'. later w w' \<Longrightarrow> C w \<le> t \<Longrightarrow> t \<le> C w' \<Longrightarrow> om_name (ns_meta ns) \<noteq> DefaultNamespace \<Longrightarrow>
      LoadLocation (x_tz E) (cf_DefaultTimezone c) = Some tz \<Longrightarrow> dated ns new \<Longrightarrow>
      (\<forall>ob. new = Some ob \<longrightarrow> annotation ob namespaceExpirationDate =
        Some (expiration_str \<lparr>t_ns = t, t_loc = tz_local (x_tz E)\<rparr> tz (nc_ExpirationTTLInDays (cf_NamespaceConfig c)))) \<Longrightarrow>
      V w' = (V w)(ns_key ns := new) \<Longrightarrow> Q None w'"
    and skip: "\<And>w'. later w w' \<Longrightarrow> V w' = V w \<Longrightarrow> om_name (ns_meta ns) = DefaultNamespace \<Longrightarrow> Q None w'"
  shows "wp (checkExpiration E c ns) Q w"
proof -
  have b: "Option.bind (om_annotations (ns_meta ns)) (\<lambda>a. fmlookup a namespaceExpirationDate) = None"
    using None by (simp add: annotation_def)
  show ?thesis
  proof (cases "om_name (ns_meta ns) = DefaultNamespace")
    case True
    then show ?thesis using skip [OF later_refl [OF assms(1)]] by (simp add: checkExpiration_def b)
  next
    case False
    show ?thesis
    proof (cases "LoadLocation (x_tz E) (cf_DefaultTimezone c)")
      case None
      then show ?thesis using bad [OF later_refl [OF assms(1)]] False by (simp add: checkExpiration_def b)
    next
      case (Some tz)
      let ?s = "\<lambda>now. expiration_str now tz (nc_ExpirationTTLInDays (cf_NamespaceConfig c))"
      have "wp (Now E) (\<lambda>now. wp (do { _ \<leftarrow> x_Update E (NamespaceObj (set_expiration (?s now) ns)); ret None }) Q) w"
        unfolding wp_bind
      proof (rule wp_Now_ok [OF assms(1)], goal_cases)
        case (1 t w1)
        let ?now = "\<lparr>t_ns = t, t_loc = tz_local (x_tz E)\<rparr>"
        have k: "obj_key (NamespaceObj (set_expiration s ns)) = ns_key ns" for s
          by (simp add: ns_key_def set_expiration_def)
        show ?case
        proof (rule wp_Update_ok [where old = "NamespaceObj ns", OF 1(1)], goal_cases)
          case 1
          show ?case unfolding k \<open>V w1 = V w\<close> by (rule stored)
        next
          case (3 rv ob' w')
          have ap: "applied_update (V w) (NamespaceObj (set_expiration (?s ?now) ns)) ob' (V w')"
            using 3(3,4) stored \<open>V w1 = V w\<close> unfolding applied_update_def k by auto
          then obtain new where new: "V w' = (V w)(ns_key ns := new)" "dated ns new"
            using dated_update [where v = "V w" and ns = ns, OF _ stored None] by blast
          have n: "new = (if released ob' then None else Some ob')"
            using new(1) 3(4) unfolding k \<open>V w1 = V w\<close> by (metis fun_upd_same)
          have "annotation ob' namespaceExpirationDate = Some (?s ?now)"
            by (simp add: 3(3) annotation_def set_expiration_def)
          then have "Q None w'"
            using 1 3(1,2) n
            by (intro date [OF _ _ _ False Some new(2) _ new(1), where t = t]) (auto simp: later_def split: if_splits)
          then show ?case by simp
        qed (simp add: set_expiration_def)
      qed
      then show ?thesis using False by (simp add: checkExpiration_def b Some)
    qed
  qed
qed

lemma stored_namespace:
  "V w (KNamespace, a, n) = Some (NamespaceObj ns) \<Longrightarrow> V w (ns_key ns) = Some (NamespaceObj ns)"
  using view_key [of w "(KNamespace, a, n)" "NamespaceObj ns"] by (simp add: ns_key_def)

lemma wp_after_delay_later:
  assumes "H w" "V w (ns_key ns) = Some (NamespaceObj ns)"
  shows "wp (after_delay E c ns) (\<lambda>r w'. later w w') w"
proof -
  have en: "wp (ensurePolicy E c ns) (\<lambda>r w'. later w w') w1" if "later w w1" for w1
    by (rule wp_ensurePolicy_ok) (use that in \<open>auto simp: later_def\<close>)
  have "wp (checkExpiration E c ns) (\<lambda>x. wp (case x of Some r \<Rightarrow> ret r | None \<Rightarrow> ensurePolicy E c ns)
      (\<lambda>r w'. later w w')) w"
  proof (cases "annotation (NamespaceObj ns) namespaceExpirationDate")
    case None
    show ?thesis by (rule wp_checkExpiration_undated [OF assms None]) (simp_all add: en)
  next
    case (Some s)
    show ?thesis by (rule wp_checkExpiration_dated [OF assms Some]) simp_all
  qed
  moreover have "wp (excludeNamespace E c ns) (\<lambda>r w'. later w w') w"
    by (rule wp_excludeNamespace_ok [OF assms(1)])
  ultimately show ?thesis
    using en [OF later_refl [OF assms(1)]] by simp
qed

text \<open>The gate at the beginning: age.\<close>

lemma wp_reconcile_old:
  assumes "H w" "GetNamespaceDelay c \<le> C w - om_creation (ns_meta ns)"
    and "\<And>w'. later w w' \<Longrightarrow> V w' = V w \<Longrightarrow>
      wp (after_delay E c ns) Q w'"
  shows "wp (reconcileNamespace E c ns) Q w"
  unfolding reconcileNamespace_def wp_bind excluded_annotation Let_def excluded_def [symmetric]
proof (rule wp_Now_ok [OF assms(1)], goal_cases)
  case (1 t w')
  have "GetNamespaceDelay c \<le> max_int64" using wrap64_range by (simp add: GetNamespaceDelay_def)
  then have "\<not> Sub \<lparr>t_ns = t, t_loc = tz_local (x_tz E)\<rparr>
      (\<lparr>t_ns = t, t_loc = tz_local (x_tz E)\<rparr>\<lparr>t_ns := om_creation (ns_meta ns)\<rparr>) < GetNamespaceDelay c"
    using 1 assms(2) by (simp add: Sub_def min_def max_def)
  then show ?case using assms(3) [of w'] 1 by (simp add: later_def)
qed

end

section \<open>Properties\<close>

text \<open>
  C31: whatever calls fail, a reconciliation of a namespace never touches a workload or an order.  In an
  excluded namespace policies may be deleted and nothing else changes.  In any other one a default
  policy may be created, and only where there is none; with the TTL enabled the namespace may also get
  an expiration date (keeping everything else of it), or be deleted, but only when it carries a date
  that can be read.  A namespace that is not in the cluster leaves everything as it is.
\<close>

theorem Reconcile_Namespace_frame:
  assumes "kube_api E V"
    and "run_state (Reconcile_Namespace E c name) w = (r, w')"
  shows "V w' = V w \<or>
    (\<exists>ns. V w (KNamespace, '''', name) = Some (NamespaceObj ns) \<and> ns_effect c ns (V w) (V w'))"
  using wp_run [OF kube_api.wp_Reconcile_Namespace [OF assms(1)] assms(2)] .

lemma ns_effect_frame:
  "ns_effect c ns v v' \<Longrightarrow> K \<notin> {KNamespace, KSleepPolicy} \<Longrightarrow> v' (K, a, b) = v (K, a, b)"
  by (auto simp: ns_effect_def cleared_def provided_def ns_key_def default_key_def split: if_splits)

text \<open>A namespace two minutes old, in a cluster with one workload.\<close>

definition ex_ns :: namespace_obj where
  "ex_ns = \<lparr>ns_meta = ex_pol_meta\<lparr>om_name := ''shop'', om_namespace := ''''\<rparr>\<rparr>"

definition ex_cluster :: "namespace_obj \<Rightarrow> client_object list \<Rightarrow> mem" where
  "ex_cluster ns obs = \<lparr>m_objs = NamespaceObj ns # ex_web_dep # obs, m_rv = 1, m_clock = 120000000000, m_faults = []\<rparr>"

lemma ex_cluster_simps [simp]:
  "mem_view (ex_cluster ns obs) (KDeployment, ''shop'', ''web'') = Some ex_web_dep"
  "mem_healthy (ex_cluster ns obs)" "m_clock (ex_cluster ns obs) = 120000000000"
  by (simp_all add: mem_view_def ex_cluster_def ex_web_dep_def mem_healthy_def)

lemma ex_cluster_ns:
  "om_name (ns_meta ns) = ''shop'' \<Longrightarrow> om_namespace (ns_meta ns) = '''' \<Longrightarrow>
   mem_view (ex_cluster ns obs) (KNamespace, '''', ''shop'') = Some (NamespaceObj ns)"
  by (simp add: mem_view_def ex_cluster_def)

theorem Reconcile_Namespace_frame_witness:
  "mem_view (snd (run_state (Reconcile_Namespace ex_utc ex_config ''shop'') (ex_cluster ex_ns [])))
     (KDeployment, ''shop'', ''web'') = Some ex_web_dep"
proof -
  obtain r w' where run: "run_state (Reconcile_Namespace ex_utc ex_config ''shop'') (ex_cluster ex_ns []) = (r, w')"
    by (cases "run_state (Reconcile_Namespace ex_utc ex_config ''shop'') (ex_cluster ex_ns [])")
  have "mem_view w' (KDeployment, ''shop'', ''web'') = mem_view (ex_cluster ex_ns []) (KDeployment, ''shop'', ''web'')"
    using Reconcile_Namespace_frame [OF mem.kube_api_axioms run]
    by (elim disjE exE conjE) (simp, erule ns_effect_frame, simp)
  then show ?thesis by (simp add: run)
qed

text \<open>
  C32: a namespace younger than the configured delay is left alone: nothing is written, and the run asks
  to be called again when the namespace will be old enough.
\<close>

theorem young_namespace_waits:
  assumes "healthy_controllers E V H C" and "H w"
    and "V w (KNamespace, '''', name) = Some (NamespaceObj ns)"
    and "om_creation (ns_meta ns) \<le> C w"
    and "run_state (Reconcile_Namespace E c name) w = (r, w')"
    and "C w' - om_creation (ns_meta ns) < GetNamespaceDelay c"
  shows "V w' = V w \<and> (\<exists>d. r = (requeue_after d, None) \<and> 0 < d \<and>
    om_creation (ns_meta ns) + GetNamespaceDelay c - C w' \<le> d \<and> d \<le> om_creation (ns_meta ns) + GetNamespaceDelay c - C w)"
proof -
  let ?D = "GetNamespaceDelay c" and ?cr = "om_creation (ns_meta ns)"
  have E: "reliable_api E V H C" using assms(1) by (simp add: healthy_controllers_def)
  have max: "?D \<le> max_int64" using wrap64_range by (simp add: GetNamespaceDelay_def)
  have "wp (Reconcile_Namespace E c name) (\<lambda>r w'. C w' - ?cr < ?D \<longrightarrow> V w' = V w \<and>
      (\<exists>d. r = (requeue_after d, None) \<and> 0 < d \<and> ?cr + ?D - C w' \<le> d \<and> d \<le> ?cr + ?D - C w)) w"
    unfolding Reconcile_Namespace_def wp_bind
  proof (rule reliable_api.wp_Get_ok [OF E assms(2,3)], goal_cases)
    case (1 w1)
    have stored: "V w1 (ns_key ns) = Some (NamespaceObj ns)"
      using healthy_controllers.stored_namespace [OF assms(1,3)] 1(3) by simp
    have "wp (reconcileNamespace E c ns) (\<lambda>r w'. C w' - ?cr < ?D \<longrightarrow> V w' = V w \<and>
      (\<exists>d. r = (requeue_after d, None) \<and> 0 < d \<and> ?cr + ?D - C w' \<le> d \<and> d \<le> ?cr + ?D - C w)) w1"
      unfolding reconcileNamespace_def wp_bind excluded_annotation Let_def excluded_def [symmetric]
    proof (rule reliable_api.wp_Now_ok [OF E 1(1)], goal_cases)
      case (1 t w2)
      have age: "Sub \<lparr>t_ns = t, t_loc = tz_local (x_tz E)\<rparr> (\<lparr>t_ns = t, t_loc = tz_local (x_tz E)\<rparr>\<lparr>t_ns := ?cr\<rparr>)
          = min max_int64 (t - ?cr)" (is "?age = _")
        using 1 \<open>C w \<le> C w1\<close> assms(4) by (simp add: Sub_def min_int64_def max_int64_def)
      show ?case
      proof (cases "?age < ?D")
        case True
        then have t: "?age = t - ?cr" "t - ?cr < ?D" using age max by auto
        then have "wrap64 (?D - ?age) = ?D - (t - ?cr)"
          using 1 \<open>C w \<le> C w1\<close> assms(4) max by (simp add: max_int64_def)
        then show ?thesis using True t 1 \<open>C w \<le> C w1\<close> \<open>V w1 = V w\<close>
          by (auto intro!: exI [of _ "?D - (t - ?cr)"])
      next
        case False
        have "wp (after_delay E c ns) (\<lambda>r w'. C w2 \<le> C w') w2"
          by (rule wp_mono [OF healthy_controllers.wp_after_delay_later [OF assms(1)]])
            (use 1 stored in \<open>simp_all add: reliable_api.later_def [OF E]\<close>)
        then have "wp (after_delay E c ns) (\<lambda>r w'. C w' - ?cr < ?D \<longrightarrow> P r w') w2" for P
          by (rule wp_mono) (use False 1 age in \<open>auto simp: min_def split: if_splits\<close>)
        then show ?thesis using False by simp
      qed
    qed
    then show ?case by (simp add: as_Namespace_def)
  qed
  from wp_run [OF this assms(5)] assms(6) show ?thesis by blast
qed

text \<open>With a delay of five minutes.\<close>

definition ex_slow :: config where
  "ex_slow = Load (\<lambda>k. if k = ''SLEEPOD_NAMESPACE_DELAY_SECONDS'' then ''300'' else '''')"

theorem young_namespace_waits_witness:
  "mem_view (snd (run_state (Reconcile_Namespace ex_utc ex_slow ''shop'') (ex_cluster ex_ns []))) =
     mem_view (ex_cluster ex_ns [])"
proof -
  let ?run = "run_state (Reconcile_Namespace ex_utc ex_slow ''shop'') (ex_cluster ex_ns [])"
  have d: "GetNamespaceDelay ex_slow = 300000000000" "m_clock (snd ?run) = 120000000001" by code_simp+
  have st: "mem_view (ex_cluster ex_ns []) (KNamespace, '''', ''shop'') = Some (NamespaceObj ex_ns)"
    by (rule ex_cluster_ns) (simp_all add: ex_ns_def)
  have cr: "om_creation (ns_meta ex_ns) = 0" by (simp add: ex_ns_def ex_pol_meta_def)
  show ?thesis
    using young_namespace_waits [OF mem.healthy_controllers_axioms _ st _ surjective_pairing] by (simp add: d cr)
qed

section \<open>Old namespaces\<close>

context healthy_controllers
begin

lemma wp_Reconcile_Namespace_old:
  assumes "H w" and st: "V w (KNamespace, '''', name) = Some (NamespaceObj ns)"
    and "GetNamespaceDelay c \<le> C w - om_creation (ns_meta ns)"
    and Q: "\<And>w'. H w' \<Longrightarrow> C w \<le> C w' \<Longrightarrow> V w' = V w \<Longrightarrow> V w' (ns_key ns) = Some (NamespaceObj ns) \<Longrightarrow>
      wp (after_delay E c ns) Q w'"
  shows "wp (Reconcile_Namespace E c name) Q w"
  unfolding Reconcile_Namespace_def wp_bind
proof (rule wp_Get_ok [OF assms(1) st], goal_cases)
  case (1 w1)
  have "wp (reconcileNamespace E c ns) Q w1"
  proof (rule wp_reconcile_old, goal_cases)
    case (3 w')
    show ?case by (rule Q) (use 3 1 stored_namespace [OF st] in \<open>simp_all add: later_def\<close>)
  qed (use 1 assms(3) in simp_all)
  then show ?case by (simp add: as_Namespace_def)
qed

end

text \<open>
  C33: in a healthy world, one run over an old enough excluded namespace (by the configuration or by its
  own annotation) deletes every policy of the namespace, or marks it when a finalizer holds it, and
  changes nothing else: no default policy, no expiration date.
\<close>

theorem excluded_namespace_cleared:
  assumes "healthy_controllers E V H C" and "H w"
    and "V w (KNamespace, '''', name) = Some (NamespaceObj ns)"
    and "GetNamespaceDelay c \<le> C w - om_creation (ns_meta ns)"
    and "excluded c ns"
    and "run_state (Reconcile_Namespace E c name) w = (r, w')"
  shows "r = (empty_result, None) \<and>
    discarded (V w (KSleepPolicy, om_name (ns_meta ns), x)) (V w' (KSleepPolicy, om_name (ns_meta ns), x)) \<and>
    (K \<noteq> KSleepPolicy \<or> a \<noteq> om_name (ns_meta ns) \<longrightarrow> V w' (K, a, b) = V w (K, a, b))"
proof -
  have "wp (Reconcile_Namespace E c name) (\<lambda>r w'. r = (empty_result, None) \<and>
    discarded (V w (KSleepPolicy, om_name (ns_meta ns), x)) (V w' (KSleepPolicy, om_name (ns_meta ns), x)) \<and>
    (K \<noteq> KSleepPolicy \<or> a \<noteq> om_name (ns_meta ns) \<longrightarrow> V w' (K, a, b) = V w (K, a, b))) w"
  proof (rule healthy_controllers.wp_Reconcile_Namespace_old [OF assms(1-4)], goal_cases)
    case (1 w1)
    then show ?case
      using 1 assms(5) by (auto intro!: healthy_controllers.wp_excludeNamespace_ok [OF assms(1)])
  qed
  from wp_run [OF this assms(6)] show ?thesis .
qed

definition ex_ns_out :: namespace_obj where
  "ex_ns_out = ex_ns\<lparr>ns_meta := (ns_meta ex_ns)\<lparr>om_annotations := Some (fmupd namespaceExcludeAnnotation ''true'' fmempty)\<rparr>\<rparr>"

theorem excluded_namespace_cleared_witness:
  "mem_view (snd (run_state (Reconcile_Namespace ex_utc ex_config ''shop'') (ex_cluster ex_ns_out [SleepPolicyObj ex_policy])))
     (KSleepPolicy, ''shop'', ''office'') = None"
proof -
  let ?w = "ex_cluster ex_ns_out [SleepPolicyObj ex_policy]"
  obtain r w' where run: "run_state (Reconcile_Namespace ex_utc ex_config ''shop'') ?w = (r, w')"
    by (cases "run_state (Reconcile_Namespace ex_utc ex_config ''shop'') ?w")
  have n: "om_name (ns_meta ex_ns_out) = ''shop''" "om_namespace (ns_meta ex_ns_out) = ''''"
    "om_creation (ns_meta ex_ns_out) = 0"
    by (simp_all add: ex_ns_out_def ex_ns_def ex_pol_meta_def)
  have old: "GetNamespaceDelay ex_config \<le> m_clock ?w - om_creation (ns_meta ex_ns_out)"
  proof -
    have "GetNamespaceDelay ex_config = 20000000000" by code_simp
    then show ?thesis by (simp add: n)
  qed
  have p: "mem_view ?w (KSleepPolicy, ''shop'', ''office'') = Some (SleepPolicyObj ex_policy)"
    by (simp add: mem_view_def ex_cluster_def ex_web_dep_def ex_policy_def)
  have ex: "excluded ex_config ex_ns_out" by (simp add: excluded_def annotation_def ex_ns_out_def)
  have "discarded (Some (SleepPolicyObj ex_policy)) (mem_view w' (KSleepPolicy, ''shop'', ''office''))"
    using excluded_namespace_cleared [OF mem.healthy_controllers_axioms ex_cluster_simps(2)
        ex_cluster_ns [OF n(1,2)] old ex run, of "''office''"] by (simp add: n p)
  then have "mem_view w' (KSleepPolicy, ''shop'', ''office'') = None"
    by (simp add: discarded_def ex_policy_def)
  then show ?thesis by (simp only: run snd_conv)
qed

text \<open>
  C34: in a healthy world with the TTL disabled, one run over an old enough namespace that is not
  excluded gives it the default policy when it has no policy, and otherwise changes nothing.
\<close>

theorem default_policy_provided:
  assumes "healthy_controllers E V H C" and "H w"
    and "V w (KNamespace, '''', name) = Some (NamespaceObj ns)"
    and "GetNamespaceDelay c \<le> C w - om_creation (ns_meta ns)"
    and "\<not> excluded c ns" and "\<not> nc_TTLEnabled (cf_NamespaceConfig c)"
    and "run_state (Reconcile_Namespace E c name) w = (r, w')"
  shows "r = (empty_result, None) \<and>
    (if policies (V w) (om_name (ns_meta ns)) = {}
     then \<exists>p. is_default_policy c (om_name (ns_meta ns)) p \<and> V w' = (V w)(default_key ns \<mapsto> SleepPolicyObj p)
     else V w' = V w)"
proof -
  have "wp (Reconcile_Namespace E c name) (\<lambda>r w'. r = (empty_result, None) \<and>
    (if policies (V w) (om_name (ns_meta ns)) = {}
     then \<exists>p. is_default_policy c (om_name (ns_meta ns)) p \<and> V w' = (V w)(default_key ns \<mapsto> SleepPolicyObj p)
     else V w' = V w)) w"
  proof (rule healthy_controllers.wp_Reconcile_Namespace_old [OF assms(1-4)], goal_cases)
    case (1 w1)
    have "wp (ensurePolicy E c ns) (\<lambda>r w'. r = (empty_result, None) \<and>
      (if policies (V w) (om_name (ns_meta ns)) = {}
       then \<exists>p. is_default_policy c (om_name (ns_meta ns)) p \<and> V w' = (V w)(default_key ns \<mapsto> SleepPolicyObj p)
       else V w' = V w)) w1"
      by (rule healthy_controllers.wp_ensurePolicy_ok [OF assms(1) 1(1)]) (use 1 in auto)
    then show ?case using assms(5,6) by simp
  qed
  from wp_run [OF this assms(7)] show ?thesis .
qed

theorem default_policy_provided_witness:
  "\<exists>p. mem_view (snd (run_state (Reconcile_Namespace ex_utc ex_config ''shop'') (ex_cluster ex_ns [])))
     (KSleepPolicy, ''shop'', ''default-sleeppolicy'') = Some (SleepPolicyObj p) \<and> is_default_policy ex_config ''shop'' p"
proof -
  let ?w = "ex_cluster ex_ns []"
  obtain r w' where run: "run_state (Reconcile_Namespace ex_utc ex_config ''shop'') ?w = (r, w')"
    by (cases "run_state (Reconcile_Namespace ex_utc ex_config ''shop'') ?w")
  have n: "om_name (ns_meta ex_ns) = ''shop''" "om_namespace (ns_meta ex_ns) = ''''" "om_creation (ns_meta ex_ns) = 0"
    by (simp_all add: ex_ns_def ex_pol_meta_def)
  have c: "GetNamespaceDelay ex_config = 20000000000" "\<not> nc_TTLEnabled (cf_NamespaceConfig ex_config)"
    "\<not> IsNamespaceExcludedFromConfig ex_config ''shop''" by code_simp+
  have old: "GetNamespaceDelay ex_config \<le> m_clock ?w - om_creation (ns_meta ex_ns)" by (simp add: c n)
  have ex: "\<not> excluded ex_config ex_ns"
    using c(3) by (simp add: excluded_def n annotation_def) (simp add: ex_ns_def ex_pol_meta_def)
  have "mem_view ?w (KSleepPolicy, ''shop'', x) = None" for x
    by (simp add: mem_view_def ex_cluster_def ex_web_dep_def)
  then have none: "policies (mem_view ?w) ''shop'' = {}" by (simp add: policies_def)
  from default_policy_provided [OF mem.healthy_controllers_axioms ex_cluster_simps(2) ex_cluster_ns [OF n(1,2)]
      old ex c(2) run] none
  show ?thesis unfolding run by (auto simp: n default_key_def DefaultSleepPolicyName_def)
qed

text \<open>The parameters that the configuration gives to a workload without settings of its own.\<close>

definition default_params :: "config \<Rightarrow> string \<Rightarrow> string \<Rightarrow> string \<Rightarrow> resource_sleep_params" where
  "default_params c n k m = \<lparr>rp_Name = m, rp_Namespace = n, rp_Kind = k, rp_SleepAt = cf_DefaultSleepAt c,
     rp_WakeAt = cf_DefaultWakeAt c, rp_Timezone = cf_DefaultTimezone c,
     rp_WorkingDays = (if cf_ExcludeWeekend c \<and> cf_Weekend c \<noteq> '''' then calculateWorkingDays (cf_Weekend c)
       else ''Monday,Tuesday,Wednesday,Thursday,Friday,Saturday,Sunday'')\<rparr>"

lemma default_policy_desired:
  "valid_policy v (defaultSleepPolicy c n) \<and>
   (desired_entry c (defaultSleepPolicy c n) v x q \<longleftrightarrow>
      cf_DefaultPolicyEnabled c \<and>
      (\<exists>K k m. (K = KDeployment \<and> k = kindDeployment \<or> K = KStatefulSet \<and> k = kindStatefulSet) \<and>
         v (K, n, m) \<noteq> None \<and> x = getSleepOrderName DefaultSleepPolicyName k m \<and> q = default_params c n k m))"
proof -
  have ne: "fmupd k y f \<noteq> fmempty" for k :: string and y :: policy_config and f
    by (metis fmupd_lookup fmempty_lookup option.distinct(1))
  have "valid_policy v (defaultSleepPolicy c n)"
    by (auto simp: valid_policy_def policy_validated_def validated_def covered_def nil_lookup_def made_map_def
        defaultSleepPolicy_def default_entry_def ne)
  moreover have eff: "getEffectiveParams c n m k (Some (default_entry c)) = Some q \<longleftrightarrow>
      cf_DefaultPolicyEnabled c \<and> q = default_params c n k m" for m k q
    by (auto simp: getEffectiveParams_def resolveParams_def nil_lookup_def default_entry_def default_params_def)
  moreover have "om_namespace (pol_meta (defaultSleepPolicy c n)) = n"
    "om_name (pol_meta (defaultSleepPolicy c n)) = DefaultSleepPolicyName"
    "sp_Deployments (pol_spec (defaultSleepPolicy c n)) = Some (default_entry c)"
    "sp_StatefulSets (pol_spec (defaultSleepPolicy c n)) = Some (default_entry c)"
    by (simp_all add: defaultSleepPolicy_def)
  ultimately show ?thesis
    by (auto simp: desired_entry_def entry_of_def)
qed

text \<open>
  C35: the two controllers agree on the default policy.  The SleepPolicy controller finds the policy that
  the Namespace controller creates valid as it is, whatever workloads the namespace has; it asks for an
  order of the configured default shift for every Deployment and StatefulSet when the configuration
  enables default policies, and, as with the default configuration, for nothing at all when it does not.
\<close>

theorem default_policy_orders:
  "valid_policy v (defaultSleepPolicy c n) \<and>
   (desired_entry c (defaultSleepPolicy c n) v x q \<longleftrightarrow>
      cf_DefaultPolicyEnabled c \<and>
      (\<exists>K k m. (K = KDeployment \<and> k = kindDeployment \<or> K = KStatefulSet \<and> k = kindStatefulSet) \<and>
         v (K, n, m) \<noteq> None \<and> x = getSleepOrderName DefaultSleepPolicyName k m \<and> q = default_params c n k m))"
  by (rule default_policy_desired)

section \<open>Expiration\<close>

text \<open>
  C36: in a healthy world with the TTL enabled (it is not by default) and a default time zone that
  can be loaded, take a namespace that is old enough, not excluded, and carries a readable date.  A run
  that starts at or after that date (midnight UTC) deletes it, or marks it for deletion, and changes nothing
  else; a run that ends before the date leaves it alone and asks for the next run no later than the date.
\<close>

theorem namespace_expires:
  assumes "healthy_controllers E V H C" and "H w"
    and "V w (KNamespace, '''', name) = Some (NamespaceObj ns)"
    and "GetNamespaceDelay c \<le> C w - om_creation (ns_meta ns)"
    and "\<not> excluded c ns" and "nc_TTLEnabled (cf_NamespaceConfig c)"
    and "annotation (NamespaceObj ns) namespaceExpirationDate = Some s" and "ParseDateFromStr s = Inr d"
    and "LoadLocation (x_tz E) (cf_DefaultTimezone c) \<noteq> None"
    and "run_state (Reconcile_Namespace E c name) w = (r, w')"
  shows "if t_ns d \<le> C w then
      r = (empty_result, None) \<and> (\<exists>new. V w' = (V w)(ns_key ns := new) \<and> dropped (V w (ns_key ns)) new)
    else if C w' < t_ns d then
      V w' = V w \<and> (\<exists>q. r = (requeue_after q, None) \<and> 0 < q \<and> q \<le> t_ns d - C w)
    else True"
proof -
  let ?Q = "\<lambda>r w'. if t_ns d \<le> C w then
      r = (empty_result, None) \<and> (\<exists>new. V w' = (V w)(ns_key ns := new) \<and> dropped (V w (ns_key ns)) new)
    else if C w' < t_ns d then
      V w' = V w \<and> (\<exists>q. r = (requeue_after q, None) \<and> 0 < q \<and> q \<le> t_ns d - C w)
    else True"
  have "wp (Reconcile_Namespace E c name) ?Q w"
  proof (rule healthy_controllers.wp_Reconcile_Namespace_old [OF assms(1-4)], goal_cases)
    case (1 w1)
    have "wp (checkExpiration E c ns) (\<lambda>x. wp (case x of Some r \<Rightarrow> ret r | None \<Rightarrow> ensurePolicy E c ns) ?Q) w1"
      by (rule healthy_controllers.wp_checkExpiration_dated [OF assms(1) 1(1,4) assms(7)])
        (use 1 assms(8,9) in \<open>auto simp: max_int64_def\<close>)
    then show ?case using assms(5,6) by simp
  qed
  from wp_run [OF this assms(10)] show ?thesis .
qed

text \<open>With the TTL enabled, and a date long past on the namespace.\<close>

definition ex_ttl :: config where
  "ex_ttl = Load (\<lambda>k. if k = ''SLEEPOD_NAMESPACE_TTL_ENABLED'' then ''true'' else '''')"

definition ex_ns_due :: namespace_obj where
  "ex_ns_due = ex_ns\<lparr>ns_meta := (ns_meta ex_ns)\<lparr>om_annotations := Some (fmupd namespaceExpirationDate ''01/01/1970'' fmempty)\<rparr>\<rparr>"

theorem namespace_expires_witness:
  "mem_view (snd (run_state (Reconcile_Namespace ex_utc ex_ttl ''shop'') (ex_cluster ex_ns_due [])))
     (KNamespace, '''', ''shop'') \<in> {None} \<union> {Some ob | ob. om_deletion (obj_meta ob) \<noteq> None}"
proof -
  let ?w = "ex_cluster ex_ns_due []"
  obtain r w' where run: "run_state (Reconcile_Namespace ex_utc ex_ttl ''shop'') ?w = (r, w')"
    by (cases "run_state (Reconcile_Namespace ex_utc ex_ttl ''shop'') ?w")
  have n: "om_name (ns_meta ex_ns_due) = ''shop''" "om_namespace (ns_meta ex_ns_due) = ''''"
    "om_creation (ns_meta ex_ns_due) = 0" "om_finalizers (ns_meta ex_ns_due) = []"
    by (simp_all add: ex_ns_due_def ex_ns_def ex_pol_meta_def)
  have c: "GetNamespaceDelay ex_ttl = 20000000000" "nc_TTLEnabled (cf_NamespaceConfig ex_ttl)"
    "\<not> IsNamespaceExcludedFromConfig ex_ttl ''shop''" "cf_DefaultTimezone ex_ttl = ''UTC''" by code_simp+
  have old: "GetNamespaceDelay ex_ttl \<le> m_clock ?w - om_creation (ns_meta ex_ns_due)" by (simp add: c n)
  have ex: "\<not> excluded ex_ttl ex_ns_due"
    using c(3) by (simp add: excluded_def n annotation_def)
      (simp add: ex_ns_due_def namespaceExcludeAnnotation_def namespaceExpirationDate_def)
  have ann: "annotation (NamespaceObj ex_ns_due) namespaceExpirationDate = Some ''01/01/1970''"
    by (simp add: annotation_def ex_ns_due_def)
  have "(case ParseDateFromStr ''01/01/1970'' of Inl e \<Rightarrow> False | Inr d \<Rightarrow> t_ns d = 0)" by code_simp
  then obtain d where d: "ParseDateFromStr ''01/01/1970'' = Inr d" "t_ns d = 0"
    by (auto split: sum.splits)
  have tz: "LoadLocation (x_tz ex_utc) (cf_DefaultTimezone ex_ttl) \<noteq> None"
    by (simp add: c LoadLocation_def)
  have st: "mem_view ?w (KNamespace, '''', ''shop'') = Some (NamespaceObj ex_ns_due)"
    by (rule ex_cluster_ns [OF n(1,2)])
  have "t_ns d \<le> m_clock ?w" by (simp add: d)
  then have "\<exists>new. mem_view w' = (mem_view ?w)(ns_key ex_ns_due := new) \<and> dropped (mem_view ?w (ns_key ex_ns_due)) new"
    using namespace_expires [OF mem.healthy_controllers_axioms ex_cluster_simps(2) st old ex c(2) ann d(1) tz run]
    by simp
  then have "dropped (Some (NamespaceObj ex_ns_due)) (mem_view w' (KNamespace, '''', ''shop''))"
    using st by (auto simp: ns_key_def n)
  then show ?thesis by (auto simp: dropped_def run)
qed

text \<open>
  C37: the date that the controller writes can be read back by the controller.  In a zone of constant
  offset, and if the year has at most four digits, it stands for midnight UTC, not local midnight, of the
  local date \<open>days\<close> days after now.  As an instant this is \<open>days\<close> times 24 hours after now, plus the offset
  of the zone, less the local time of day.  So in UTC the namespace expires up to a day early; east of it
  possibly later than \<open>days\<close> days from now, by at most the offset; and west of it more than the time of day
  early, by the offset.
\<close>

theorem expiration_roundtrip:
  assumes "YearMonthDay (AddDate (In now (fixed_zone off)) 0 0 days) = (y, m, dd)" and "0 \<le> y" and "y \<le> 9999"
  shows "\<exists>d. ParseDateFromStr (expiration_str now (fixed_zone off) days) = Inr d \<and> t_loc d = utc \<and>
    t_ns d = (local_ns off now div ns_per_day + days) * ns_per_day \<and>
    t_ns d = t_ns now + days * ns_per_day + off * ns_per_sec - local_ns off now mod ns_per_day \<and>
    t_ns now + (days - 1) * ns_per_day + off * ns_per_sec < t_ns d \<and>
    t_ns d \<le> t_ns now + days * ns_per_day + off * ns_per_sec"
proof -
  let ?e = "AddDate (In now (fixed_zone off)) 0 0 days"
  have civ: "days_to_civil (local_day ?e) = (y, m, dd)" using assms(1) by (simp add: YearMonthDay_def)
  have "local_day ?e = (local_ns off now + days * ns_per_day) div ns_per_day"
    using AddDate_fixed [of "In now (fixed_zone off)" off days]
    by (simp add: local_day_fixed local_ns_def algebra_simps)
  then have day: "local_day ?e = local_ns off now div ns_per_day + days" by simp
  have "ParseDateFromStr (expiration_str now (fixed_zone off) days) = Inr (Date y m dd 0 0 0 0 utc)"
    using Parse_Format [OF assms] by (simp add: ParseDateFromStr_def expiration_str_def)
  moreover have "t_ns (Date y m dd 0 0 0 0 utc) = (local_ns off now div ns_per_day + days) * ns_per_day"
    using Date_fixed [of m 0 y dd 0 0 0 0] days_to_civil_month [OF civ] civil_of_days [OF civ] day
    by (simp add: utc_def local_ns_def)
  moreover have "(local_ns off now div ns_per_day + days) * ns_per_day =
      t_ns now + days * ns_per_day + off * ns_per_sec - local_ns off now mod ns_per_day"
    using div_mult_mod_eq [of "local_ns off now" ns_per_day] by (simp add: local_ns_def algebra_simps)
  moreover have "0 \<le> local_ns off now mod ns_per_day" "local_ns off now mod ns_per_day < ns_per_day" by simp_all
  ultimately show ?thesis by (auto simp: algebra_simps)
qed

theorem expiration_roundtrip_witness:
  "\<exists>d. ParseDateFromStr (expiration_str \<lparr>t_ns = 1735689600000000000, t_loc = utc\<rparr> (fixed_zone 3600) 30) = Inr d \<and>
    t_ns d = 1735689600000000000 + 30 * 86400000000000"
proof -
  let ?now = "\<lparr>t_ns = 1735689600000000000, t_loc = utc\<rparr>"
  have y: "YearMonthDay (AddDate (In ?now (fixed_zone 3600)) 0 0 30) = (2025, 1, 31)" by code_simp
  have "local_ns 3600 ?now div ns_per_day = 20089" by code_simp
  then show ?thesis using expiration_roundtrip [OF y] by auto
qed

end
