(* ===== verification/Cluster.thy ===== *)
theory Cluster
  imports Sleep_Order_Props Namespace_Props
begin

text \<open>
  The controllers together: an interleaving of runs of the three controllers with the rest of the
  cluster as a step relation, what it keeps of a workload, and the way of a new namespace from the
  Namespace controller over the SleepPolicy controller to the SleepOrder controller.
\<close>

section \<open>Orders under deletion\<close>

lemma kept_like:
  "like t' t \<Longrightarrow> om_deletion (obj_meta t') = om_deletion (obj_meta t) \<Longrightarrow> kept (Some t) (Some t')"
  by (simp add: kept_def like_sym)

context healthy_controllers
begin

text \<open>Waking the target of an order under deletion, with whatever annotation it carries.\<close>

lemma wp_restoreTarget_any:
  assumes h: "H w" and t: "stored (V w) t" and c: "getReplicas t = Inr 0"
    and fail: "\<And>e w'. later w w' \<Longrightarrow> V w' = V w \<Longrightarrow> \<not> IsConflict e \<Longrightarrow> Q (Some (Some e), t) w'"
    and ok: "\<And>t' w'. later w w' \<Longrightarrow> V w' = (V w)(obj_key t \<mapsto> t') \<Longrightarrow> kept (Some t) (Some t') \<Longrightarrow>
      Q (None, t') w'"
  shows "wp (restoreTargetStep E t) Q w"
proof -
  let ?rest = "\<lambda>(r, t1). case r of Inl e \<Rightarrow> ret (Some (Some e), t1)
      | Inr n \<Rightarrow> (case setReplicas t1 n of Inl e \<Rightarrow> ret (Some (Some e), t1)
         | Inr t2 \<Rightarrow> do { u \<leftarrow> x_Update E t2;
             (case u of Inl e \<Rightarrow> ret (Some (IgnoreNotFound e), t2) | Inr t3 \<Rightarrow> ret (None, t3)) })"
  have zero: "wp (?rest (Inr 0, t)) Q w1" if w1: "later w w1" "V w1 = V w" for w1
  proof -
    obtain t2 where t2: "setReplicas t 0 = Inr t2"
      using t setReplicas_workload by (auto simp: stored_def)
    note s = setReplicas_simps [OF t2]
    have st: "stored (V w1) t" and h1: "H w1" using t w1 by (simp_all add: later_def)
    have "wp (x_Update E t2) (\<lambda>u. wp (case u of Inl e \<Rightarrow> ret (Some (IgnoreNotFound e), t2)
        | Inr t3 \<Rightarrow> ret (None, t3)) Q) w1"
    proof (rule wp_target_write_ok [OF h1 st], goal_cases)
      case (4 t3 w2)
      have "like t3 t" using 4(4) set_replicas_id [OF c t2] by (auto simp: same_state_def intro: like_trans)
      moreover have "om_deletion (obj_meta t3) = om_deletion (obj_meta t)"
        using 4(3) t by (simp add: stored_def)
      ultimately have "kept (Some t) (Some t3)" by (rule kept_like)
      then have "Q (None, t3) w2" using 4 w1 by (intro ok) (auto intro: later_trans)
      then show ?case by simp
    qed (use s in simp_all)
    then show ?thesis by (simp add: t2)
  qed
  have bad: "wp (?rest (Inl e, t)) Q w1" if "later w w1" "V w1 = V w" "\<not> IsConflict e" for e w1
    using fail that by simp
  show ?thesis
  proof (cases "\<exists>val i. annotation t originalReplicasAnnotationKey = Some val \<and> Atoi val = Some i")
    case True
    then obtain val i where val: "annotation t originalReplicasAnnotationKey = Some val" "Atoi val = Some i" by blast
    show ?thesis
      by (rule wp_restoreTargetStep_ok [OF h t c val])
        (rule ok, assumption, assumption, rule kept_like, simp_all add: settled_def)
  next
    case False
    have "wp (restoreReplicas E t) (\<lambda>x. wp (?rest x) Q) w"
      unfolding restoreReplicas_def wp_bind
    proof (rule wp_refresh_ok [OF h t], goal_cases)
      case (1 w1)
      then show ?case
        using False zero [of w1] bad [of w1]
        by (auto simp: annotation_def IsConflict_def split: option.splits)
    qed
    then show ?thesis unfolding restoreTargetStep_def wp_bind by (rule wp_mono) auto
  qed
qed

end

context healthy_controllers
begin

text \<open>
  One attempt at the finalizer of an order under deletion: it ends the run, or fails before anything is
  written, and not with a conflict.
\<close>

lemma wp_finalizerAttempt_leaving:
  assumes h: "H w" and t: "stored (V w) t" and cur: "V w (order_key so) = Some (SleepOrderObj cur)"
    and d: "om_deletion (ord_meta cur) \<noteq> None"
    and ne: "order_key so \<noteq> obj_key t" and c: "getReplicas t = Inr c"
    and stop: "\<And>so1 t1 w'. intact (order_key so) (obj_key t) (V w) (V w') \<Longrightarrow> Q (None, (so1, t1, True)) w'"
    and fail: "\<And>e w'. later w w' \<Longrightarrow> V w' = V w \<Longrightarrow> \<not> IsConflict e \<Longrightarrow> Q (Some e, (cur, t, False)) w'"
  shows "wp (finalizerAttempt E c (so, t, False)) Q w"
  unfolding finalizerAttempt_def prod.case wp_bind
proof (rule wp_getSleepOrder_ok [OF h cur [unfolded order_key_def]], goal_cases)
  case (1 w1)
  have key: "order_key cur = order_key so" using view_key [OF cur] by (simp add: order_key_def)
  have wl: "is_workload t" "V w (obj_key t) = Some t" using t by (simp_all add: stored_def)
  have w1: "later w w1" "V w1 = V w" "H w1" "stored (V w1) t"
    using 1 t by (simp_all add: later_def)
  have same: "V w1 = (V w)(obj_key t \<mapsto> t)" using w1(2) wl(2) by (simp add: fun_upd_idem)
  have tt: "kept (Some t) (Some t)" by (rule kept_like) (simp_all add: like_refl wl)
  have remove: "wp (removeFinalizerStep E (cur, t1, False)) Q w2"
    if w2: "later w w2" "V w2 = (V w)(obj_key t \<mapsto> t')" "kept (Some t) (Some t')" for t1 t' w2
  proof (rule wp_removeFinalizerStep_ok [OF _ _ d], goal_cases)
    case (3 so1 w' x)
    show ?case by (rule stop) (use 3 w2 key wl ne in \<open>auto simp: intact_def\<close>)
  qed (use w2 cur key ne in \<open>simp_all add: later_def\<close>)
  show ?case
  proof (cases "x_ContainsFinalizer E (ord_meta cur) sleepOrderFinalizer")
    case False
    have "Q (None, (cur, t, True)) w1" by (rule stop) (simp add: w1(2) intact_refl wl)
    then show ?thesis unfolding sum.case if_not_P [OF d] if_not_P [OF False] wp_return .
  next
    case f: True
    show ?thesis
    proof (cases "c = 0")
      case False
      show ?thesis unfolding sum.case if_not_P [OF d] if_P [OF f] if_not_P [OF False] by (rule remove [OF w1(1) same tt])
    next
      case True
      have "wp (restoreTargetStep E t) (\<lambda>r. wp (case r of (early, t1) \<Rightarrow>
          (case early of Some err \<Rightarrow> ret (err, (cur, t1, False))
           | None \<Rightarrow> removeFinalizerStep E (cur, t1, False))) Q) w1"
      proof (rule wp_restoreTarget_any [OF w1(3,4)], goal_cases)
        case (2 e w2)
        then show ?case using fail w1 by (auto intro: later_trans)
      next
        case (3 t' w2)
        have "later w w2" using w1(1) 3(1) by (rule later_trans)
        moreover have "V w2 = (V w)(obj_key t \<mapsto> t')" using 3(2) w1(2) by simp
        ultimately show ?case unfolding prod.case option.case by (rule remove) (rule 3(3))
      qed (use c True in simp)
      then show ?thesis unfolding sum.case if_not_P [OF d] if_P [OF f] if_P [OF True] wp_bind .
    qed
  qed
qed

text \<open>So there is no second attempt.\<close>

lemma wp_handleFinalizer_leaving:
  assumes h: "H w" and t: "stored (V w) t" and cur: "V w (order_key so) = Some (SleepOrderObj cur)"
    and d: "om_deletion (ord_meta cur) \<noteq> None"
    and ne: "order_key so \<noteq> obj_key t" and c: "getReplicas t = Inr c"
    and stop: "\<And>e so1 t1 w'. intact (order_key so) (obj_key t) (V w) (V w') \<Longrightarrow> Q ((True, e), so1, t1) w'"
    and go: "\<And>e so1 w'. later w w' \<Longrightarrow> V w' = V w \<Longrightarrow> order_key so1 = order_key so \<Longrightarrow> Q ((False, e), so1, t) w'"
  shows "wp (handleFinalizer E so t c) Q w"
  unfolding handleFinalizer_def wp_bind
proof (rule wp_retry_first [OF conflict_retry_axioms], rule wp_finalizerAttempt_leaving [OF assms(1-6)], goal_cases)
  case (2 e w')
  moreover have "order_key cur = order_key so" using view_key [OF cur] by (simp add: order_key_def)
  ultimately show ?case by (simp add: go)
qed (simp add: stop)

lemma wp_reconcileTarget_leaving:
  assumes h: "H w" and t: "stored (V w) t" and cur: "V w (order_key so) = Some (SleepOrderObj so)"
    and d: "om_deletion (ord_meta so) \<noteq> None" and ne: "order_key so \<noteq> obj_key t"
  shows "wp (reconcileTarget E so t) (\<lambda>r w'. intact (order_key so) (obj_key t) (V w) (V w')) w"
proof -
  let ?I = "\<lambda>r w'. intact (order_key so) (obj_key t) (V w) (V w')"
  have wl: "is_workload t" "V w (obj_key t) = Some t" using t by (simp_all add: stored_def)
  obtain c where c: "getReplicas t = Inr c" using wl by (auto simp: getReplicas_workload)
  note refl = intact_refl [OF wl(2,1), of "order_key so"]
  have step: "wp (if asleep then handleSleep E so1 t ev else handleWake E so1 t c ev) ?I w1"
    if "V w1 = V w" "order_key so1 = order_key so" for asleep so1 ev w1
    using wp_handleWake [of w1 t c so1 ev] wp_handleSleep [of so1 t "V w" w1 t ev] that c refl wl ne like_refl [OF wl(1)]
    by simp
  show ?thesis
    unfolding reconcileTarget_def wp_bind
  proof (rule wp_Now_ok [OF h], goal_cases)
    case (1 now w1)
    have w1: "H w1" "stored (V w1) t" "V w1 (order_key so) = Some (SleepOrderObj so)" using 1 t cur by simp_all
    have "wp (handleFinalizer E so t c) (\<lambda>r. wp (case r of ((stop, err), so1, t1) \<Rightarrow>
        (if stop then ret (empty_result, err)
         else if asleep then handleSleep E so1 t1 ev else handleWake E so1 t1 c ev)) ?I) w1" for asleep ev
      by (rule wp_handleFinalizer_leaving [OF w1 d ne c])
        (use 1 in \<open>simp_all add: step [simplified]\<close>)
    note run = wp_mono [OF this]
    show ?case
    proof (cases "order_state E so now")
      case (Inr g)
      obtain asleep ev k where "g = (asleep, ev, k)" by (cases g)
      then show ?thesis using Inr by (auto simp: Let_def order_state_def c intro!: run)
    qed (use 1 refl in \<open>simp add: Let_def order_state_def\<close>)
  qed
qed

end

text \<open>
  The runs of an order that keep its target: any run of a living order, and the runs of an order under
  deletion in a healthy world, on a target that is not itself being deleted.
\<close>

definition safe_run :: "('w \<Rightarrow> view) \<Rightarrow> ('w \<Rightarrow> bool) \<Rightarrow> 'w \<Rightarrow> string \<Rightarrow> string \<Rightarrow> bool" where
  "safe_run V H w ns n \<longleftrightarrow>
     (\<forall>so. V w (KSleepOrder, ns, n) = Some (SleepOrderObj so) \<longrightarrow>
        om_deletion (ord_meta so) = None \<or>
        H w \<and> (\<forall>T t. target_key ns (so_TargetRef (ord_spec so)) = Some T \<longrightarrow> V w T = Some t \<longrightarrow>
          om_deletion (obj_meta t) = None))"

context kube_api
begin

lemma wp_Reconcile_absent:
  assumes "V w (KSleepOrder, ns, n) = None"
  shows "wp (Reconcile_SleepOrder E ns n) (\<lambda>r w'. V w' = V w) w"
  unfolding Reconcile_SleepOrder_def FetchSleepOrderOrContinue_def wp_bind
  by (rule wp_getSleepOrder) (use assms in \<open>auto simp: order_result_def split: sum.splits\<close>)

end

context healthy_controllers
begin

lemma workload_at: "V w T = Some t \<Longrightarrow> fst T = KDeployment \<or> fst T = KStatefulSet \<Longrightarrow> is_workload t"
  using view_key by (cases T) (auto simp: obj_key_def is_workload_def)

lemma wp_Reconcile_leaving:
  assumes h: "H w" and so: "V w (KSleepOrder, ns, n) = Some (SleepOrderObj so)" and d: "om_deletion (ord_meta so) \<noteq> None"
    and T: "target_key ns (so_TargetRef (ord_spec so)) = Some T" and t: "V w T = Some t" "om_deletion (obj_meta t) = None"
  shows "wp (Reconcile_SleepOrder E ns n) (\<lambda>r w'. intact (KSleepOrder, ns, n) T (V w) (V w')) w"
proof -
  have key: "order_key so = (KSleepOrder, ns, n)" using view_key [OF so] by (simp add: order_key_def)
  have T': "T = obj_key t" using view_key [OF t(1)] by simp
  have st: "stored (V w) t"
    using t T' workload_at [OF t(1)] target_key_kind [OF T] by (auto simp: stored_def)
  show ?thesis
    unfolding T'
  proof (rule wp_Reconcile_target [OF h so T [unfolded T'] t(1) [unfolded T']])
    fix w1
    assume w1: "later w w1" "V w1 = V w"
    then have "H w1" "stored (V w1) t" "V w1 (order_key so) = Some (SleepOrderObj so)"
      using st so key by (simp_all add: later_def)
    from wp_reconcileTarget_leaving [OF this d]
    show "wp (reconcileTarget E so t) (\<lambda>r w'. intact (KSleepOrder, ns, n) (obj_key t) (V w) (V w')) w1"
      using w1(2) target_key_ne [OF T, of ns n] T' key by simp
  qed
qed

end

context controllers
begin

text \<open>With no target to be found a run writes nothing but the order.\<close>

lemma wp_Reconcile_untargeted:
  assumes so: "V w (KSleepOrder, ns, n) = Some (SleepOrderObj so)"
    and T: "target_key ns (so_TargetRef (ord_spec so)) = Some T" and t: "V w T = None"
  shows "wp (Reconcile_SleepOrder E ns n) (\<lambda>r w'. unchanged_but (KSleepOrder, ns, n) (V w) (V w')) w"
proof -
  let ?S = "(KSleepOrder, ns, n)"
  have k: "order_key so = ?S" using view_key [OF so] by (simp add: order_key_def)
  have missing: "wp (targetNotFound E so) (\<lambda>r w'. unchanged_but ?S (V w) (V w')) w2" if "V w2 = V w" for w2
    unfolding targetNotFound_def using that k
    by (auto simp: Let_def split: sum.splits
        intro!: wp_Now' wp_updateSleepOrder wp_updateStatus_frame) (blast intro: unchanged_trans)+
  show ?thesis
    unfolding Reconcile_SleepOrder_def FetchSleepOrderOrContinue_def wp_bind
  proof (rule wp_getSleepOrder, goal_cases)
    case (1 g w1)
    show ?case
    proof (cases g)
      case (Inr so')
      then have so': "so' = so" using 1 so by (simp add: order_result_def)
      show ?thesis
        unfolding Inr so' sum.case wp_return option.case wp_bind
        using T t 1 missing
        by (auto simp: getTargetObject_def target_key_def get_result_def split: if_splits sum.splits intro!: wp_Get)
    qed (use 1 in auto)
  qed
qed

end

definition workload_key :: "okey \<Rightarrow> bool" where
  "workload_key T \<longleftrightarrow> fst T = KDeployment \<or> fst T = KStatefulSet"

definition workloads_kept :: "view \<Rightarrow> view \<Rightarrow> bool" where
  "workloads_kept v v' \<longleftrightarrow> (\<forall>T. workload_key T \<longrightarrow> kept (v T) (v' T))"

lemma workloads_keptD: "workloads_kept v v' \<Longrightarrow> workload_key T \<Longrightarrow> kept (v T) (v' T)"
  unfolding workloads_kept_def by blast

lemma workloads_kept_trans: "workloads_kept u v \<Longrightarrow> workloads_kept v w \<Longrightarrow> workloads_kept u w"
  unfolding workloads_kept_def using kept_trans by blast

context healthy_controllers
begin

lemma workloads_same: "(\<And>T. workload_key T \<Longrightarrow> v T = V w T) \<Longrightarrow> workloads_kept (V w) v"
  unfolding workloads_kept_def workload_key_def by (metis kept_refl workload_at)

lemma workloads_intact: "intact (KSleepOrder, ns, n) T (V w) v \<Longrightarrow> workloads_kept (V w) v"
proof -
  assume i: "intact (KSleepOrder, ns, n) T (V w) v"
  show ?thesis
    unfolding workloads_kept_def
  proof (intro allI impI)
    fix T'
    assume T': "workload_key T'"
    then have "kept (V w T') (V w T')" unfolding workload_key_def by (auto intro: kept_refl workload_at)
    moreover have "T' \<noteq> (KSleepOrder, ns, n)" using T' by (auto simp: workload_key_def)
    ultimately show "kept (V w T') (v T')" using i unfolding intact_def by (cases "T' = T") metis+
  qed
qed

lemma wp_safe_run:
  assumes "safe_run V H w ns n"
  shows "wp (Reconcile_SleepOrder E ns n) (\<lambda>r w'. workloads_kept (V w) (V w')) w"
proof (cases "V w (KSleepOrder, ns, n)")
  case None
  from wp_Reconcile_absent [OF this] show ?thesis by (rule wp_mono) (simp add: workloads_same)
next
  case (Some ob)
  then obtain so where so: "V w (KSleepOrder, ns, n) = Some (SleepOrderObj so)"
    using order_cases by metis
  show ?thesis
  proof (cases "target_key ns (so_TargetRef (ord_spec so))")
    case None
    from wp_unsupported_kind [OF so None] show ?thesis by (rule wp_mono) (simp add: workloads_same)
  next
    case T: (Some T)
    show ?thesis
    proof (cases "om_deletion (ord_meta so)")
      case None
      from wp_Reconcile_alive [OF so None T] show ?thesis by (rule wp_mono) (rule workloads_intact)
    next
      case (Some d)
      with assms so have h: "H w" "\<And>t. V w T = Some t \<Longrightarrow> om_deletion (obj_meta t) = None"
        using T unfolding safe_run_def by (simp, metis option.distinct(1))
      show ?thesis
      proof (cases "V w T")
        case None
        from wp_Reconcile_untargeted [OF so T None] show ?thesis
          by (rule wp_mono) (rule workloads_same, rule unchangedD, auto simp: workload_key_def)
      next
        case t: (Some t)
        from wp_Reconcile_leaving [OF h(1) so _ T t h(2) [OF t]] Some show ?thesis
          by (auto elim!: wp_mono intro: workloads_intact)
      qed
    qed
  qed
qed

end

section \<open>The cluster as a transition system\<close>

text \<open>
  Seen from the workload \<open>T\<close>, a step is a run of one of the three controllers, whatever its calls meet,
  or anything else: users, autoscalers and other controllers may write or delete any object, \<open>T\<close>
  included, time may pass, the network may break.  Next to the world goes the workload as the last of
  those others to change it has left it.  Runs of an order under deletion have to be safe.
\<close>

inductive cluster_step ::
  "'w env \<Rightarrow> ('w \<Rightarrow> view) \<Rightarrow> ('w \<Rightarrow> bool) \<Rightarrow> config \<Rightarrow> okey \<Rightarrow>
   'w \<times> client_object option \<Rightarrow> 'w \<times> client_object option \<Rightarrow> bool"
  for E V H c T where
  order_step: "safe_run V H w ns n \<Longrightarrow> run_state (Reconcile_SleepOrder E ns n) w = (r, w') \<Longrightarrow>
     cluster_step E V H c T (w, x) (w', x)"
| policy_step: "run_state (Reconcile_SleepPolicy E c ns n) w = (r, w') \<Longrightarrow> cluster_step E V H c T (w, x) (w', x)"
| namespace_step: "run_state (Reconcile_Namespace E c n) w = (r, w') \<Longrightarrow> cluster_step E V H c T (w, x) (w', x)"
| other_step: "cluster_step E V H c T (w, x) (w', if V w' T = V w T then x else V w' T)"

inductive cluster_runs ::
  "'w env \<Rightarrow> ('w \<Rightarrow> view) \<Rightarrow> ('w \<Rightarrow> bool) \<Rightarrow> config \<Rightarrow> okey \<Rightarrow> 'w \<Rightarrow> 'w \<times> client_object option \<Rightarrow> bool"
  for E V H c T w where
  runs_refl: "cluster_runs E V H c T w (w, V w T)"
| runs_step: "cluster_runs E V H c T w s \<Longrightarrow> cluster_step E V H c T s s' \<Longrightarrow> cluster_runs E V H c T w s'"

inductive_cases cluster_stepE: "cluster_step E V H c T s s'"

lemma cluster_step_kept:
  assumes E: "healthy_controllers E V H C" and T: "workload_key T" and step: "cluster_step E V H c T s s'"
    and before: "kept (snd s) (V (fst s) T)"
  shows "kept (snd s') (V (fst s') T)"
  using step
proof (rule cluster_stepE)
  note cc = healthy_controllers.axioms(1) [OF E]
  have refl: "kept (V w T) (V w T)" for w
    by (rule workloads_keptD [OF healthy_controllers.workloads_same [OF E] T]) simp
  have run: ?thesis if "s = (w, x)" "s' = (w', x)" "kept (V w T) (V w' T)" for w w' x
    using kept_trans [OF _ that(3)] before that(1,2) by simp
  show ?thesis if "s = (w, x)" "s' = (w', x)" "safe_run V H w ns n"
    "run_state (Reconcile_SleepOrder E ns n) w = (r, w')" for w ns n r w' x
    using wp_run [OF healthy_controllers.wp_safe_run [OF E that(3)] that(4)] T
    by (intro run [OF that(1,2)]) (rule workloads_keptD)
  show ?thesis if s: "s = (w, x)" "s' = (w', x)" and run_policy: "run_state (Reconcile_SleepPolicy E c ns n) w = (r, w')"
    for w ns n r w' x
  proof -
    have "policy_run c ns n (V w) (V w')"
      using wp_run [OF controllers.wp_Reconcile_SleepPolicy [OF cc] run_policy] .
    then have "V w' T = V w T"
      using policy_run_frame [of c ns n "V w" "V w'" "fst T" "fst (snd T)" "snd (snd T)"]
        controllers.ruling_stored(1) [OF cc] T by (auto simp: workload_key_def)
    then show ?thesis using run [OF s] refl by simp
  qed
  show ?thesis if s: "s = (w, x)" "s' = (w', x)" and run_ns: "run_state (Reconcile_Namespace E c n) w = (r, w')"
    for w n r w' x
  proof -
    have "V w' T = V w T"
      using wp_run [OF kube_api.wp_Reconcile_Namespace [OF controllers.axioms(1) [OF cc]] run_ns]
        ns_effect_frame [of c _ "V w" "V w'" "fst T" "fst (snd T)" "snd (snd T)"] T
      by (auto simp: workload_key_def)
    then show ?thesis using run [OF s] refl by simp
  qed
  show ?thesis if "s = (w, x)" "s' = (w', if V w' T = V w T then x else V w' T)" for w x w'
    using that before refl by (cases "V w' T = V w T") simp_all
qed

text \<open>
  C2: the runs of the three controllers come one after the other in any order, any of their calls may
  fail, and between them anything may happen to the cluster.  Then a workload stays, on the part of the
  controllers, as the others have last left it: it has the replica count to go back to that it had then,
  and all else of it but the controller's own annotation, the current count and the version; it is there,
  unless they had begun to delete it, and a workload that they have deleted is not brought back.  The
  condition is on orders under deletion: their runs start in a healthy world, on a target that is not
  being deleted (\<open>deletion_retry_loses_replicas\<close> shows what happens otherwise).
\<close>

theorem cluster_keeps_workloads:
  assumes "healthy_controllers E V H C" and "workload_key T"
    and "cluster_runs E V H c T w (w', last_left)"
  shows "case last_left of
      None \<Rightarrow> V w' T = None
    | Some t \<Rightarrow> om_deletion (obj_meta t) = None \<longrightarrow>
        (\<exists>t'. V w' T = Some t' \<and> same_workload t t' \<and> remembered t' = remembered t)"
proof -
  have "kept (snd s) (V (fst s) T)" if "cluster_runs E V H c T w s" for s
    using that
  proof (induction rule: cluster_runs.induct)
    case runs_refl
    show ?case
      using workloads_keptD [OF healthy_controllers.workloads_same [OF assms(1)] assms(2), of "V w" w] by simp
  next
    case (runs_step s s')
    then show ?case using cluster_step_kept [OF assms(1,2)] by blast
  qed
  from this [OF assms(3)] show ?thesis by (auto simp: kept_def like_def split: option.splits)
qed

text \<open>
  The order is reconciled while a reply is lost and a write conflicts, then the policy and the namespace
  are.  A user scales the workload, asleep or not, to 5 and clears the annotation, and the order is
  reconciled again.
\<close>

definition ex_scaled :: client_object where
  "ex_scaled = Deployment \<lparr>wl_meta = ex_meta ''web'', wl_replicas = Some 5, wl_rest = ''nginx''\<rparr>"

definition ex_turmoil :: mem where
  "ex_turmoil =
     (let w1 = snd (run_state (Reconcile_SleepOrder (mem_env ex_tz) ''shop'' ''web-order'') ex_storm);
          w2 = snd (run_state (Reconcile_SleepPolicy (mem_env ex_tz) ex_config ''shop'' ''office'') w1)
      in snd (run_state (Reconcile_Namespace (mem_env ex_tz) ex_config ''shop'') w2))"

definition ex_second_night :: mem where
  "ex_second_night = ex_mem ex_evening [ConnRefused] [SleepOrderObj ex_order, ex_scaled]"

theorem cluster_keeps_workloads_witness:
  "(\<exists>t'. mem_view ex_turmoil (KDeployment, ''shop'', ''web'') = Some t' \<and> remembered t' = Some 3) \<and>
   (\<exists>t'. mem_view (snd (run_state (Reconcile_SleepOrder (mem_env ex_tz) ''shop'' ''web-order'') ex_second_night))
      (KDeployment, ''shop'', ''web'') = Some t' \<and> remembered t' = Some 5)"
proof -
  let ?E = "mem_env ex_tz" and ?T = "(KDeployment, ''shop'', ''web'')"
  let ?step = "cluster_step ?E mem_view mem_healthy ex_config ?T"
  let ?runs = "cluster_runs ?E mem_view mem_healthy ex_config ?T ex_storm"
  have view: "mem_view ex_storm (KSleepOrder, ''shop'', ''web-order'') = Some (SleepOrderObj ex_order)"
    "mem_view ex_storm ?T = Some ex_web"
    "mem_view ex_second_night (KSleepOrder, ''shop'', ''web-order'') = Some (SleepOrderObj ex_order)"
    "mem_view ex_second_night ?T = Some ex_scaled"
    by (simp_all add: ex_storm_def ex_second_night_def mem_view_def ex_order_simps ex_scaled_def ex_meta_def)
  have safe: "safe_run mem_view mem_healthy ex_storm ''shop'' ''web-order''"
    "safe_run mem_view mem_healthy ex_second_night ''shop'' ''web-order''"
    using view(1,3) by (simp_all add: safe_run_def ex_order_simps)
  have T: "workload_key ?T" by (simp add: workload_key_def)
  note keeps = cluster_keeps_workloads [OF mem.healthy_controllers_axioms T]
  let ?w1 = "snd (run_state (Reconcile_SleepOrder ?E ''shop'' ''web-order'') ex_storm)"
  let ?w2 = "snd (run_state (Reconcile_SleepPolicy ?E ex_config ''shop'' ''office'') ?w1)"
  let ?w5 = "snd (run_state (Reconcile_SleepOrder ?E ''shop'' ''web-order'') ex_second_night)"
  have 1: "?step (ex_storm, Some ex_web) (?w1, Some ex_web)"
    by (rule order_step [OF safe(1) surjective_pairing])
  have 2: "?step (?w1, Some ex_web) (?w2, Some ex_web)" by (rule policy_step [OF surjective_pairing])
  have 3: "?step (?w2, Some ex_web) (ex_turmoil, Some ex_web)"
    unfolding ex_turmoil_def Let_def by (rule namespace_step [OF surjective_pairing])
  note first = runs_step [OF runs_step [OF runs_step [OF _ 1] 2] 3]
  have turmoil: "?runs (ex_turmoil, Some ex_web)" by (rule first) (metis runs_refl view(2))
  from keeps [OF this] obtain t' where t': "mem_view ex_turmoil ?T = Some t'" "remembered t' = Some 3"
    by (auto simp: ex_web_facts)
  have scaled: "remembered ex_scaled = Some 5" "om_deletion (obj_meta ex_scaled) = None"
    by (simp_all add: ex_scaled_def ex_meta_def remembered_def annotation_def)
  have "mem_view ex_second_night ?T \<noteq> mem_view ex_turmoil ?T" using t' view(4) scaled by auto
  then have 4: "?step (ex_turmoil, Some ex_web) (ex_second_night, Some ex_scaled)"
    using other_step [where V = mem_view and T = ?T and w = ex_turmoil and w' = ex_second_night] view(4) by simp
  have 5: "?step (ex_second_night, Some ex_scaled) (?w5, Some ex_scaled)"
    by (rule order_step [OF safe(2) surjective_pairing])
  from keeps [OF runs_step [OF runs_step [OF turmoil 4] 5]] t' scaled show ?thesis by auto
qed

section \<open>A new namespace\<close>

text \<open>
  The three controllers one after the other: the namespace is reconciled, then the policy until it asks
  for nothing more, then one of the orders.
\<close>

definition onboard :: "'w env \<Rightarrow> config \<Rightarrow> string \<Rightarrow> string \<Rightarrow> ('w, reconcile_result) state" where
  "onboard E c n x = do {
     _ \<leftarrow> Reconcile_Namespace E c n;
     _ \<leftarrow> requeue_loop 3 E c n DefaultSleepPolicyName;
     Reconcile_SleepOrder E n x }"

lemma default_policy_facts:
  assumes "is_default_policy c n p"
  shows "om_namespace (pol_meta p) = n" "om_name (pol_meta p) = DefaultSleepPolicyName"
    "om_deletion (pol_meta p) = None" "om_finalizers (pol_meta p) = []"
    "valid_policy v p" "desired_entry c p v = desired_entry c (defaultSleepPolicy c n) v"
proof -
  show m: "om_namespace (pol_meta p) = n" "om_name (pol_meta p) = DefaultSleepPolicyName"
    "om_deletion (pol_meta p) = None" "om_finalizers (pol_meta p) = []"
    using assms by (simp_all add: is_default_policy_def policy_key_def)
  have d: "om_namespace (pol_meta (defaultSleepPolicy c n)) = n"
    "om_name (pol_meta (defaultSleepPolicy c n)) = DefaultSleepPolicyName"
    by (simp_all add: defaultSleepPolicy_def)
  have spec: "pol_spec p = pol_spec (defaultSleepPolicy c n)" using assms by (simp add: is_default_policy_def)
  show "valid_policy v p"
    by (rule valid_policy_cong [where p = "defaultSleepPolicy c n" and v = v])
      (use spec m d default_policy_desired in auto)
  show "desired_entry c p v = desired_entry c (defaultSleepPolicy c n) v"
    by (rule desired_entry_cong) (use spec m d in simp_all)
qed

lemma single_ruling: "P = {p} \<Longrightarrow> om_deletion (pol_meta p) = None \<Longrightarrow> ruling P name p"
  by (simp add: ruling_def leaving_def)

context healthy_controllers
begin

text \<open>The policy controller on a fresh default policy: one run enrols it, the next applies it.\<close>

lemma wp_default_applied:
  assumes "H w" and p: "is_default_policy c n p" "policies (V w) n = {p}"
    and none: "V w (KSleepOrder, n, x) = None" and D: "desired_entry c p (V w) x q"
    and Q: "\<And>r so p1 w'. later w w' \<Longrightarrow> (\<And>K m. K \<in> {KDeployment, KStatefulSet} \<Longrightarrow> V w' (K, n, m) = V w (K, n, m)) \<Longrightarrow>
      V w' (KSleepOrder, n, x) = Some (SleepOrderObj so) \<Longrightarrow> made_for p1 q so \<Longrightarrow> Q r w'"
  shows "wp (requeue_loop (Suc (Suc (Suc k))) E c n DefaultSleepPolicyName) Q w"
proof -
  note f = default_policy_facts [OF p(1)]
  have rul: "ruling (policies (V w) n) DefaultSleepPolicyName p" by (rule single_ruling [OF p(2) f(3)])
  show ?thesis
    unfolding requeue_loop.simps(2) [of "Suc (Suc k)"] wp_bind
  proof (rule wp_Reconcile_SleepPolicy_ok [OF assms(1) rul f(3)], goal_cases)
    case (2 p1 w1)
    have m1: "om_namespace (pol_meta p1) = n" "om_name (pol_meta p1) = DefaultSleepPolicyName"
      "om_deletion (pol_meta p1) = None" "pol_spec p1 = pol_spec p"
      using 2 f by (auto simp: replaces_def policy_key_def)
    have rul1: "ruling (policies (V w1) n) DefaultSleepPolicyName p1"
      by (rule ruling_put [OF rul]) (use 2 in auto)
    have valid1: "valid_policy (V w1) p1"
      by (rule valid_policy_cong [OF 2(1)]) (use 2 m1 f in \<open>auto simp: policy_key_def\<close>)
    have D1: "desired_entry c p1 (V w1) = desired_entry c p (V w)"
      by (rule desired_entry_cong) (use 2 m1 f in \<open>auto simp: policy_key_def\<close>)
    have "wp (requeue_loop (Suc (Suc k)) E c n DefaultSleepPolicyName) Q w1"
      unfolding requeue_loop.simps(2) [of "Suc k"] wp_bind
    proof (rule wp_Reconcile_SleepPolicy_ok [OF _ rul1 m1(3)], goal_cases)
      case (4 w2)
      note A = 4(4) [unfolded policy_applied_def m1(1) D1]
      have "served p1 q (V w1 (KSleepOrder, n, x)) (V w2 (KSleepOrder, n, x))" using A D by blast
      moreover have "V w1 (KSleepOrder, n, x) = None" using 2(4) none by (simp add: policy_key_def)
      ultimately obtain so where so: "V w2 (KSleepOrder, n, x) = Some (SleepOrderObj so)" "made_for p1 q so"
        by (auto simp: served_def hashed_def deleting_def)
      have "V w2 (K, n, m) = V w (K, n, m)" if "K \<in> {KDeployment, KStatefulSet}" for K m
      proof -
        have "(K, n, m) \<noteq> policy_key p1" "(K, n, m) \<noteq> policy_key p" "\<forall>y. (K, n, m) \<noteq> (KSleepOrder, n, y)"
          using that by (auto simp: policy_key_def)
        then show ?thesis using A 2(4) by (metis fun_upd_other)
      qed
      with so have "Q (Some (empty_result, None)) w2"
        using later_trans [OF 2(3) 4(3)] by (intro Q)
      then show ?case by (simp add: empty_result_def)
    qed (use 2 valid1 in \<open>simp_all add: later_def\<close>)
    then show ?case by (simp add: requeue_now_def)
  qed (use f in simp_all)
qed

end

text \<open>The workload after its order has been reconciled, by the default schedule at the reading \<open>now\<close>.\<close>

definition on_schedule :: "'w env \<Rightarrow> config \<Rightarrow> int \<Rightarrow> client_object \<Rightarrow> client_object option \<Rightarrow> go_error option \<Rightarrow> bool" where
  "on_schedule E c now t new err \<longleftrightarrow>
     (case GetTimeState (x_tz E) \<lparr>t_ns = now, t_loc = tz_local (x_tz E)\<rparr> (cf_DefaultWakeAt c) (cf_DefaultSleepAt c)
        (cf_DefaultTimezone c) (rp_WorkingDays (default_params c '''' '''' '''')) of
        Inl e \<Rightarrow> err = Some e \<and> new = Some t
      | Inr (asleep, _) \<Rightarrow> err = None \<and> (\<exists>t'. new = Some t' \<and> settled asleep t t'))"

lemma run_effect_scheduled:
  assumes "run_effect (order_state E so now) so t v r v'" "v (obj_key t) = Some t" "order_key so \<noteq> obj_key t"
    and "ord_spec so = ord_spec (newSleepOrder p1 (default_params c n k m))"
  shows "on_schedule E c now t (v' (obj_key t)) (snd r)"
proof -
  have "order_state E so now = GetTimeState (x_tz E) \<lparr>t_ns = now, t_loc = tz_local (x_tz E)\<rparr> (cf_DefaultWakeAt c)
      (cf_DefaultSleepAt c) (cf_DefaultTimezone c) (rp_WorkingDays (default_params c '''' '''' ''''))"
    using assms(4) by (simp add: order_state_def newSleepOrder_def default_params_def)
  then show ?thesis
    using assms(1-3) by (auto simp: on_schedule_def run_effect_def split: sum.splits prod.splits)
qed

context healthy_controllers
begin

lemma wp_onboard:
  assumes h: "H w" and ns: "V w (KNamespace, '''', n) = Some (NamespaceObj ns)"
    and old: "GetNamespaceDelay c \<le> C w - om_creation (ns_meta ns)"
    and c: "\<not> excluded c ns" "\<not> nc_TTLEnabled (cf_NamespaceConfig c)" "cf_DefaultPolicyEnabled c"
    and fresh: "policies (V w) n = {}"
    and K: "K = KDeployment \<and> k = kindDeployment \<or> K = KStatefulSet \<and> k = kindStatefulSet"
    and none: "V w (KSleepOrder, n, getSleepOrderName DefaultSleepPolicyName k m) = None"
    and t: "obj_key t = (K, n, m)" "stored (V w) t" "remembered t \<noteq> None"
      "getReplicas t = Inr 0 \<Longrightarrow> annotation t originalReplicasAnnotationKey \<noteq> None"
  shows "wp (onboard E c n (getSleepOrderName DefaultSleepPolicyName k m))
    (\<lambda>r w'. \<exists>now. C w \<le> now \<and> now \<le> C w' \<and> on_schedule E c now t (V w' (obj_key t)) (snd r)) w"
    (is "wp (onboard E c n ?x) ?Q w")
  unfolding onboard_def wp_bind
proof (rule wp_Reconcile_Namespace_old [OF h ns old], goal_cases)
  case (1 w1)
  have name: "om_name (ns_meta ns) = n" using view_key [OF ns] by simp
  have "wp (ensurePolicy E c ns) (\<lambda>_. wp (requeue_loop 3 E c n DefaultSleepPolicyName)
      (\<lambda>_. wp (Reconcile_SleepOrder E n ?x) ?Q)) w1"
  proof (rule wp_ensurePolicy_ok [OF 1(1)], goal_cases)
    case (2 p w2)
    let ?q = "default_params c n k m"
    have V2: "V w2 = (V w)(default_key ns \<mapsto> SleepPolicyObj p)" and p: "is_default_policy c n p"
      using 2 1(3) name by simp_all
    have one: "policies (V w2) n = {p}"
      using fresh unfolding V2 policies_def default_key_def name by auto
    have none2: "V w2 (KSleepOrder, n, ?x) = None" using none by (simp add: V2 default_key_def)
    have want: "desired_entry c p (V w2) ?x ?q"
      unfolding default_policy_facts(6) [OF p] using c(3) K t(1,2)
      by (auto simp: conjunct2 [OF default_policy_desired] V2 default_key_def stored_def)
    have h2: "H w2" using 2 by (simp add: later_def)
    have "wp (requeue_loop (Suc (Suc (Suc 0))) E c n DefaultSleepPolicyName)
        (\<lambda>_. wp (Reconcile_SleepOrder E n ?x) ?Q) w2"
    proof (rule wp_default_applied [OF h2 p one none2 want], goal_cases)
      case (1 r so p1 w3)
      have h3: "H w3" and le: "C w \<le> C w3" using 1(1) 2(1) \<open>C w \<le> C w1\<close> by (auto simp: later_def)
      have t3: "V w3 (obj_key t) = V w (obj_key t)"
        using 1(2) [of K m] K unfolding t(1) V2 by (auto simp: default_key_def)
      have st3: "stored (V w3) t" using t(2) t3 by (simp add: stored_def)
      have T: "target_key n (so_TargetRef (ord_spec so)) = Some (obj_key t)"
        using 1(4) K t(1)
        by (auto simp: made_for_def newSleepOrder_def default_params_def target_key_def kindDeployment_def kindStatefulSet_def)
      have "wp (Reconcile_SleepOrder E n ?x)
        (\<lambda>r w'. H w' \<and> (\<exists>now. C w3 \<le> now \<and> now \<le> C w' \<and> run_effect (order_state E so now) so t (V w3) r (V w'))) w3"
        by (rule wp_Reconcile_ok [OF h3 1(3) _ T st3 t(3,4)]) (use 1(4) in \<open>simp_all add: made_for_def\<close>)
      then show ?case
      proof (rule wp_mono)
        fix r' w'
        assume "H w' \<and> (\<exists>now. C w3 \<le> now \<and> now \<le> C w' \<and> run_effect (order_state E so now) so t (V w3) r' (V w'))"
        then obtain now where now: "C w3 \<le> now" "now \<le> C w'" and eff: "run_effect (order_state E so now) so t (V w3) r' (V w')"
          by blast
        have "on_schedule E c now t (V w' (obj_key t)) (snd r')"
          by (rule run_effect_scheduled [OF eff])
            (use st3 1(4) view_key [OF 1(3)] K t(1) in \<open>auto simp: stored_def made_for_def order_key_def\<close>)
        then show "\<exists>now. C w \<le> now \<and> now \<le> C w' \<and> on_schedule E c now t (V w' (obj_key t)) (snd r')"
          using now le by (intro exI [of _ now]) simp
      qed
    qed
    then show ?case by (simp add: numeral_3_eq_3)
  qed (use fresh 1 name in simp)
  then show ?case using c by simp
qed

end

lemma on_schedule_readable:
  assumes "on_schedule E c now t new err" and "LoadLocation (x_tz E) (cf_DefaultTimezone c) \<noteq> None"
    and "Parse_hhmm (cf_DefaultWakeAt c) \<noteq> None" and "Parse_hhmm (cf_DefaultSleepAt c) \<noteq> None"
  shows "err = None \<and> (\<exists>asleep t'. new = Some t' \<and> settled asleep t t' \<and>
    ShouldBeAsleep (x_tz E) \<lparr>t_ns = now, t_loc = tz_local (x_tz E)\<rparr> (cf_DefaultWakeAt c) (cf_DefaultSleepAt c)
      (cf_DefaultTimezone c) (rp_WorkingDays (default_params c '''' '''' '''')) = Inr asleep)"
proof (cases "GetTimeState (x_tz E) \<lparr>t_ns = now, t_loc = tz_local (x_tz E)\<rparr> (cf_DefaultWakeAt c) (cf_DefaultSleepAt c)
    (cf_DefaultTimezone c) (rp_WorkingDays (default_params c '''' '''' ''''))")
  case (Inl e)
  with assms(2-4) show ?thesis
    by (auto simp: GetTimeState_def parseSchedule_def parseTimeToLocation_def Let_def
        split: option.splits prod.splits if_splits)
next
  case (Inr r)
  with assms(1) show ?thesis by (cases r) (auto simp: on_schedule_def ShouldBeAsleep_def)
qed

text \<open>
  C9: the way of a workload in a new namespace.  The world is healthy.  Default policies are enabled (they
  are not by default) and the TTL is not; the configured default times parse, which is what the
  validation of the API asks of the orders made from them, and the default time zone can be loaded.  The
  namespace is old enough, not excluded and without any policy.  The workload is stored, not being deleted,
  has a replica count to go back to, in the annotation if it has 0 replicas, and has no order yet.  Then
  one run of the Namespace controller, the runs of the SleepPolicy controller that its policy asks for, and
  one run of the SleepOrder controller on the order it made end without error and bring the workload into
  the state of the configured default schedule: asleep with 0 replicas and the count to go back to
  remembered, or awake.
\<close>

theorem onboard_workload:
  assumes "healthy_controllers E V H C" and "H w"
    and "V w (KNamespace, '''', n) = Some (NamespaceObj ns)"
    and "GetNamespaceDelay c \<le> C w - om_creation (ns_meta ns)"
    and "\<not> excluded c ns" and "\<not> nc_TTLEnabled (cf_NamespaceConfig c)" and "cf_DefaultPolicyEnabled c"
    and "LoadLocation (x_tz E) (cf_DefaultTimezone c) \<noteq> None"
    and "Parse_hhmm (cf_DefaultWakeAt c) \<noteq> None" and "Parse_hhmm (cf_DefaultSleepAt c) \<noteq> None"
    and "policies (V w) n = {}"
    and "K = KDeployment \<and> k = kindDeployment \<or> K = KStatefulSet \<and> k = kindStatefulSet"
    and "V w (KSleepOrder, n, getSleepOrderName DefaultSleepPolicyName k m) = None"
    and "obj_key t = (K, n, m)" and "stored (V w) t" and "remembered t \<noteq> None"
    and "getReplicas t = Inr 0 \<Longrightarrow> annotation t originalReplicasAnnotationKey \<noteq> None"
    and "run_state (onboard E c n (getSleepOrderName DefaultSleepPolicyName k m)) w = (r, w')"
  shows "snd r = None \<and> (\<exists>now asleep t'. C w \<le> now \<and> now \<le> C w' \<and>
    V w' (K, n, m) = Some t' \<and> settled asleep t t' \<and>
    ShouldBeAsleep (x_tz E) \<lparr>t_ns = now, t_loc = tz_local (x_tz E)\<rparr> (cf_DefaultWakeAt c) (cf_DefaultSleepAt c)
      (cf_DefaultTimezone c) (rp_WorkingDays (default_params c '''' '''' '''')) = Inr asleep)"
proof -
  obtain now where "C w \<le> now" "now \<le> C w'" "on_schedule E c now t (V w' (K, n, m)) (snd r)"
    using wp_run [OF healthy_controllers.wp_onboard [OF assms(1-7,11-17)] assms(18)] unfolding assms(14) by blast
  with on_schedule_readable [OF this(3) assms(8-10)] show ?thesis by blast
qed

text \<open>A sleeping workload, in a configuration without any sleeping time.\<close>

definition ex_sleepless :: config where
  "ex_sleepless = Load (\<lambda>k. if k = ''SLEEPOD_DEFAULT_POLICY_ENABLED'' then ''true''
     else if k = ''SLEEPOD_DEFAULT_SLEEP_AT'' then ''08:00'' else '''')"

definition ex_fresh :: mem where
  "ex_fresh = \<lparr>m_objs = [NamespaceObj ex_ns, ex_slept], m_rv = 1, m_clock = 120000000000, m_faults = []\<rparr>"

lemma ex_sleepless_state:
  "\<exists>ev. GetTimeState (x_tz ex_utc) t (cf_DefaultWakeAt ex_sleepless) (cf_DefaultSleepAt ex_sleepless) (cf_DefaultTimezone ex_sleepless)
     (rp_WorkingDays (default_params ex_sleepless a b d)) = Inr (False, ev)"
proof -
  have "cf_DefaultWakeAt ex_sleepless = ''08:00''" "cf_DefaultSleepAt ex_sleepless = ''08:00''"
    "cf_DefaultTimezone ex_sleepless = ''UTC''" "\<not> cf_ExcludeWeekend ex_sleepless" by code_simp+
  note c = this
  have all: "list_all (\<lambda>d. list_ex (part_matches d)
      (Split CHR '','' (ToLower ''Monday,Tuesday,Wednesday,Thursday,Friday,Saturday,Sunday''))) [0, 1, 2, 3, 4, 5, 6]"
    by code_simp
  have day: "Weekday s \<in> set [0, 1, 2, 3, 4, 5, 6]" for s
  proof -
    have "0 \<le> Weekday s \<and> Weekday s < 7" by (simp add: Weekday_def weekday_of_day_def)
    then show ?thesis by auto
  qed
  have days: "isDayWorking s ''Monday,Tuesday,Wednesday,Thursday,Friday,Saturday,Sunday''" for s
    using bspec [OF all [unfolded list_all_iff] day [of s]] by (simp add: isDayWorking_def)
  have "\<exists>tw tn. parseSchedule (x_tz ex_utc) t ''08:00'' ''08:00'' ''UTC'' = Inr (tn, tw, tw)"
    by (simp add: parseSchedule_def parseTimeToLocation_def LoadLocation_def ex_0800 split: prod.splits)
  then show ?thesis
    using days by (auto simp: c default_params_def GetTimeState_def Let_def Before_def After_def Equal_def)
qed

theorem onboard_workload_witness:
  "\<exists>t'. mem_view (snd (run_state (onboard ex_utc ex_sleepless ''shop'' (getSleepOrderName DefaultSleepPolicyName kindDeployment ''web''))
       ex_fresh)) (KDeployment, ''shop'', ''web'') = Some t' \<and> getReplicas t' = Inr 3"
proof -
  have n: "om_name (ns_meta ex_ns) = ''shop''" "om_namespace (ns_meta ex_ns) = ''''" "om_creation (ns_meta ex_ns) = 0"
    by (simp_all add: ex_ns_def ex_pol_meta_def)
  have view: "mem_view ex_fresh (KNamespace, '''', ''shop'') = Some (NamespaceObj ex_ns)"
    "mem_view ex_fresh (KDeployment, ''shop'', ''web'') = Some ex_slept"
    using ex_slept_facts(6) by (simp_all add: ex_fresh_def mem_view_def n ex_slept_def [symmetric])
  have none: "mem_view ex_fresh (KSleepPolicy, a, b) = None" "mem_view ex_fresh (KSleepOrder, a, b) = None" for a b
    by (simp_all add: ex_fresh_def mem_view_def ex_slept_def)
  have c: "GetNamespaceDelay ex_sleepless = 20000000000" "\<not> nc_TTLEnabled (cf_NamespaceConfig ex_sleepless)"
    "\<not> IsNamespaceExcludedFromConfig ex_sleepless ''shop''" "cf_DefaultPolicyEnabled ex_sleepless" by code_simp+
  have old: "GetNamespaceDelay ex_sleepless \<le> m_clock ex_fresh - om_creation (ns_meta ex_ns)"
    by (simp add: c n ex_fresh_def)
  have ex: "\<not> excluded ex_sleepless ex_ns"
    using c(3) by (simp add: excluded_def n annotation_def) (simp add: ex_ns_def ex_pol_meta_def)
  have st: "stored (mem_view ex_fresh) ex_slept"
    by (simp add: stored_def ex_slept_facts view)
  have K: "KDeployment = KDeployment \<and> kindDeployment = kindDeployment \<or>
      KDeployment = KStatefulSet \<and> kindDeployment = kindStatefulSet" by simp
  let ?run = "run_state (onboard ex_utc ex_sleepless ''shop'' (getSleepOrderName DefaultSleepPolicyName kindDeployment ''web'')) ex_fresh"
  have "mem_healthy ex_fresh" "policies (mem_view ex_fresh) ''shop'' = {}"
    by (simp add: mem_healthy_def ex_fresh_def) (simp add: policies_def none)
  note fresh = this
  have "cf_DefaultTimezone ex_sleepless = ''UTC''" "cf_DefaultWakeAt ex_sleepless = ''08:00''"
    "cf_DefaultSleepAt ex_sleepless = ''08:00''" by code_simp+
  then have readable: "LoadLocation (x_tz ex_utc) (cf_DefaultTimezone ex_sleepless) \<noteq> None"
    "Parse_hhmm (cf_DefaultWakeAt ex_sleepless) \<noteq> None" "Parse_hhmm (cf_DefaultSleepAt ex_sleepless) \<noteq> None"
    by (simp_all add: LoadLocation_def ex_0800)
  from onboard_workload [OF mem.healthy_controllers_axioms fresh(1) view(1) old ex c(2,4) readable fresh(2) K none(2)
      ex_slept_facts(6) st _ _ surjective_pairing]
  obtain now asleep t' where t': "mem_view (snd ?run) (KDeployment, ''shop'', ''web'') = Some t'" "settled asleep ex_slept t'"
    and says: "ShouldBeAsleep (x_tz ex_utc) \<lparr>t_ns = now, t_loc = tz_local (x_tz ex_utc)\<rparr> (cf_DefaultWakeAt ex_sleepless)
      (cf_DefaultSleepAt ex_sleepless) (cf_DefaultTimezone ex_sleepless)
      (rp_WorkingDays (default_params ex_sleepless '''' '''' '''')) = Inr asleep"
    by (auto simp: ex_slept_facts)
  moreover obtain ev where "GetTimeState (x_tz ex_utc) \<lparr>t_ns = now, t_loc = tz_local (x_tz ex_utc)\<rparr>
      (cf_DefaultWakeAt ex_sleepless) (cf_DefaultSleepAt ex_sleepless) (cf_DefaultTimezone ex_sleepless)
      (rp_WorkingDays (default_params ex_sleepless '''' '''' '''')) = Inr (False, ev)"
    using ex_sleepless_state by blast
  ultimately have "\<not> asleep" by (cases ev) (auto simp: ShouldBeAsleep_def)
  with t'(2) have "settled False ex_slept t'" by simp
  from settled_awake [OF this] have "getReplicas t' = Inr 3" by (simp add: ex_slept_facts)
  with t'(1) show ?thesis by blast
qed

end
