(* ===== verification/Manager.thy ===== *)
theory Manager
  imports Config Sleep_Policy
begin

text \<open>
  \<open>cmd/main.go\<close> and the three \<open>SetupWithManager\<close> methods: how the process is configured and started.
  The flags are an argument, with the defaults of the code; the libraries (certificate watchers, the
  manager of controller-runtime) are calls that succeed or fail, and the model records the calls in the
  order in which they are made.  Registration of the Go types with the scheme and the logger setup are
  left out.
\<close>

section \<open>Options\<close>















section \<open>The start\<close>
















section \<open>What a start does\<close>












end
