(* ===== verification/Deep_Copy.thy ===== *)
theory Deep_Copy
  imports Api_Types "HOL-Library.Monad_Syntax" "HOL-Library.Sublist"
begin

text \<open>
  The generated deep copies (\<open>api/v1alpha1/zz_generated.deepcopy.go\<close>) on an explicit memory, where
  pointers, maps and slices can be shared.  Elsewhere in the development an object is a value and
  assigning it copies it; here it is shown that a deep copy makes that true: it reads as the same value
  and shares no memory with the original.  \<open>updateStatus\<close> relies on it when it edits a copy of the
  status and then compares it with the original.
\<close>

section \<open>Memory\<close>

text \<open>
  The structs as they lie in memory: a pointer, map or slice is an address, \<open>None\<close> when nil.  The
  in-memory forms of \<open>metav1.ObjectMeta\<close> (\<open>'m\<close>), \<open>metav1.ListMeta\<close> (\<open>'l\<close>) and the memory behind them
  (\<open>'x\<close>) belong to the library.  \<open>TypeMeta\<close> is a struct of two strings.
\<close>

type_synonym addr = nat

record type_meta =
  tm_Kind :: string
  tm_APIVersion :: string

record status_mem =
  sm_CurrentState :: string
  sm_OriginalReplicas :: "addr option"
  sm_LastTransitionTime :: "addr option"
  sm_NextOperationTime :: "addr option"

record 'm order_mem =
  om_TypeMeta :: type_meta
  om_ObjectMeta :: 'm
  om_Spec :: sleep_order_spec
  om_Status :: status_mem

record policy_spec_mem =
  pm_Timezone :: string
  pm_Deployments :: "addr option"
  pm_StatefulSets :: "addr option"

record policy_status_mem =
  pm_State :: "addr option"

record 'm policy_mem =
  pm_TypeMeta :: type_meta
  pm_ObjectMeta :: 'm
  pm_Spec :: policy_spec_mem
  pm_Status :: policy_status_mem

text \<open>\<open>SleepOrderList\<close> and \<open>SleepPolicyList\<close>.\<close>

record 'l list_mem =
  lm_TypeMeta :: type_meta
  lm_ListMeta :: 'l
  lm_Items :: "addr option"

text \<open>What an address can hold; \<open>new\<close> and \<open>make\<close> give zeroed memory.\<close>

datatype ('m, 'l, 'x) cell =
    Zeroed
  | Int32C int32
  | TimeC int
  | ConfigsC config_map
  | ParamsMapC desired_state
  | ConfigC policy_config
  | ParamsC resource_sleep_params
  | TargetC target_ref
  | OrderSpecC sleep_order_spec
  | StatusC status_mem
  | OrderC "'m order_mem"
  | OrdersC "'m order_mem list"
  | OrderListC "'l list_mem"
  | PolicySpecC policy_spec_mem
  | PolicyStatusC policy_status_mem
  | PolicyC "'m policy_mem"
  | PoliciesC "'m policy_mem list"
  | PolicyListC "'l list_mem"
  | Foreign 'x

fun int32_of where "int32_of (Int32C n) = Some n" | "int32_of _ = None"
fun time_of where "time_of (TimeC t) = Some t" | "time_of _ = None"
fun configs_of where "configs_of (ConfigsC m) = Some m" | "configs_of _ = None"
fun params_map_of where "params_map_of (ParamsMapC m) = Some m" | "params_map_of _ = None"
fun config_of where "config_of (ConfigC s) = Some s" | "config_of _ = None"
fun params_of where "params_of (ParamsC s) = Some s" | "params_of _ = None"
fun target_of where "target_of (TargetC s) = Some s" | "target_of _ = None"
fun order_spec_of where "order_spec_of (OrderSpecC s) = Some s" | "order_spec_of _ = None"
fun status_of where "status_of (StatusC s) = Some s" | "status_of _ = None"
fun order_of where "order_of (OrderC s) = Some s" | "order_of _ = None"
fun orders_of where "orders_of (OrdersC s) = Some s" | "orders_of _ = None"
fun order_list_of where "order_list_of (OrderListC s) = Some s" | "order_list_of _ = None"
fun policy_spec_of where "policy_spec_of (PolicySpecC s) = Some s" | "policy_spec_of _ = None"
fun policy_status_of where "policy_status_of (PolicyStatusC s) = Some s" | "policy_status_of _ = None"
fun policy_of where "policy_of (PolicyC s) = Some s" | "policy_of _ = None"
fun policies_of where "policies_of (PoliciesC s) = Some s" | "policies_of _ = None"
fun policy_list_of where "policy_list_of (PolicyListC s) = Some s" | "policy_list_of _ = None"
fun foreign_of where "foreign_of (Foreign x) = Some x" | "foreign_of _ = None"

text \<open>
  A memory is the list of the cells allocated so far.  Reading through a pointer that dangles or has
  the wrong type has no answer, which stands for a panic.
\<close>

type_synonym ('m, 'l, 'x) memory = "('m, 'l, 'x) cell list"

definition load :: "(('m, 'l, 'x) cell \<Rightarrow> 'a option) \<Rightarrow> ('m, 'l, 'x) memory \<Rightarrow> addr \<Rightarrow> 'a option" where
  "load sel h a = (if a < length h then sel (h ! a) else None)"

definition allocate :: "('m, 'l, 'x) memory \<Rightarrow> addr \<times> ('m, 'l, 'x) memory" where
  "allocate h = (length h, h @ [Zeroed])"

text \<open>
  \<open>DeepCopyInto\<close> writes the struct \<open>*out\<close> from the struct \<open>*in\<close> and may allocate: it is a function from
  the one to the other and from memory to memory.
\<close>

type_synonym ('m, 'l, 'x, 's) copy_into = "'s \<Rightarrow> ('m, 'l, 'x) memory \<Rightarrow> ('s \<times> ('m, 'l, 'x) memory) option"

text \<open>\<open>out := new(T); in.DeepCopyInto(out)\<close>, and the test for nil around it.\<close>

definition copy_ref ::
  "(('m, 'l, 'x) cell \<Rightarrow> 's option) \<Rightarrow> ('s \<Rightarrow> ('m, 'l, 'x) cell) \<Rightarrow> ('m, 'l, 'x, 's) copy_into \<Rightarrow>
   ('m, 'l, 'x, addr) copy_into" where
  "copy_ref sel wrap into a h = do {
     let (out, h1) = allocate h;
     s \<leftarrow> load sel h1 a;
     (s', h2) \<leftarrow> into s h1;
     Some (out, h2[out := wrap s']) }"

definition nilable :: "('m, 'l, 'x, 's) copy_into \<Rightarrow> ('m, 'l, 'x, 's option) copy_into" where
  "nilable into p h =
     (case p of
        None \<Rightarrow> Some (None, h)
      | Some s \<Rightarrow> do { (s', h1) \<leftarrow> into s h; Some (Some s', h1) })"

text \<open>\<open>*out = *in\<close>: a struct without pointers.\<close>

definition assign :: "('m, 'l, 'x, 's) copy_into" where
  "assign s h = Some (s, h)"

text \<open>A loop over the elements of a slice, each copied into its place.\<close>

fun copy_items :: "('m, 'l, 'x, 's) copy_into \<Rightarrow> ('m, 'l, 'x, 's list) copy_into" where
  "copy_items into [] h = Some ([], h)"
| "copy_items into (x # xs) h = do {
     (x', h1) \<leftarrow> into x h;
     (xs', h2) \<leftarrow> copy_items into xs h1;
     Some (x' # xs', h2) }"

text \<open>A loop over a map that inserts every entry in a new one, in the order in which \<open>range\<close> yields them.\<close>

definition copy_entries :: "(('k, 'v) fmap \<Rightarrow> ('k \<times> 'v) list) \<Rightarrow> ('m, 'l, 'x, ('k, 'v) fmap) copy_into" where
  "copy_entries range_of m h = Some (fold (\<lambda>(key, val) out. fmupd key val out) (range_of m) fmempty, h)"

section \<open>The generated functions\<close>

text \<open>What they call: the copies of the metadata and of times, and \<open>range\<close> over the two types of maps.\<close>

record ('m, 'l, 'x) copy_lib =
  l_ObjectMeta :: "('m, 'l, 'x, 'm) copy_into"
  l_ListMeta :: "('m, 'l, 'x, 'l) copy_into"
  l_Time :: "('m, 'l, 'x, addr) copy_into"
  l_range_configs :: "config_map \<Rightarrow> (string \<times> policy_config) list"
  l_range_params :: "desired_state \<Rightarrow> (string \<times> resource_sleep_params) list"

definition DeepCopyInto_PolicyConfig :: "('m, 'l, 'x, policy_config) copy_into" where
  "DeepCopyInto_PolicyConfig = assign"

definition DeepCopy_PolicyConfig :: "('m, 'l, 'x, addr option) copy_into" where
  "DeepCopy_PolicyConfig = nilable (copy_ref config_of ConfigC DeepCopyInto_PolicyConfig)"

definition DeepCopyInto_ResourceSleepParams :: "('m, 'l, 'x, resource_sleep_params) copy_into" where
  "DeepCopyInto_ResourceSleepParams = assign"

definition DeepCopy_ResourceSleepParams :: "('m, 'l, 'x, addr option) copy_into" where
  "DeepCopy_ResourceSleepParams = nilable (copy_ref params_of ParamsC DeepCopyInto_ResourceSleepParams)"

definition DeepCopyInto_TargetRef :: "('m, 'l, 'x, target_ref) copy_into" where
  "DeepCopyInto_TargetRef = assign"

definition DeepCopy_TargetRef :: "('m, 'l, 'x, addr option) copy_into" where
  "DeepCopy_TargetRef = nilable (copy_ref target_of TargetC DeepCopyInto_TargetRef)"

definition DeepCopyInto_SleepOrderSpec :: "('m, 'l, 'x, sleep_order_spec) copy_into" where
  "DeepCopyInto_SleepOrderSpec s h = do {
     (out, h1) \<leftarrow> assign s h;
     Some (out\<lparr>so_TargetRef := so_TargetRef s\<rparr>, h1) }"

definition DeepCopy_SleepOrderSpec :: "('m, 'l, 'x, addr option) copy_into" where
  "DeepCopy_SleepOrderSpec = nilable (copy_ref order_spec_of OrderSpecC DeepCopyInto_SleepOrderSpec)"

definition DeepCopyInto_SleepOrderStatus :: "('m, 'l, 'x) copy_lib \<Rightarrow> ('m, 'l, 'x, status_mem) copy_into" where
  "DeepCopyInto_SleepOrderStatus L s h = do {
     (out, h1) \<leftarrow> assign s h;
     (r, h2) \<leftarrow> nilable (copy_ref int32_of Int32C assign) (sm_OriginalReplicas s) h1;
     (t, h3) \<leftarrow> nilable (l_Time L) (sm_LastTransitionTime s) h2;
     (u, h4) \<leftarrow> nilable (l_Time L) (sm_NextOperationTime s) h3;
     Some (out\<lparr>sm_OriginalReplicas := r, sm_LastTransitionTime := t, sm_NextOperationTime := u\<rparr>, h4) }"

definition DeepCopy_SleepOrderStatus :: "('m, 'l, 'x) copy_lib \<Rightarrow> ('m, 'l, 'x, addr option) copy_into" where
  "DeepCopy_SleepOrderStatus L = nilable (copy_ref status_of StatusC (DeepCopyInto_SleepOrderStatus L))"

definition DeepCopyInto_SleepOrder :: "('m, 'l, 'x) copy_lib \<Rightarrow> ('m, 'l, 'x, 'm order_mem) copy_into" where
  "DeepCopyInto_SleepOrder L s h = do {
     (out, h1) \<leftarrow> assign s h;
     let out = out\<lparr>om_TypeMeta := om_TypeMeta s\<rparr>;
     (m, h2) \<leftarrow> l_ObjectMeta L (om_ObjectMeta s) h1;
     let out = out\<lparr>om_ObjectMeta := m, om_Spec := om_Spec s\<rparr>;
     (st, h3) \<leftarrow> DeepCopyInto_SleepOrderStatus L (om_Status s) h2;
     Some (out\<lparr>om_Status := st\<rparr>, h3) }"

definition DeepCopy_SleepOrder :: "('m, 'l, 'x) copy_lib \<Rightarrow> ('m, 'l, 'x, addr option) copy_into" where
  "DeepCopy_SleepOrder L = nilable (copy_ref order_of OrderC (DeepCopyInto_SleepOrder L))"

definition DeepCopyInto_SleepOrderList :: "('m, 'l, 'x) copy_lib \<Rightarrow> ('m, 'l, 'x, 'l list_mem) copy_into" where
  "DeepCopyInto_SleepOrderList L s h = do {
     (out, h1) \<leftarrow> assign s h;
     let out = out\<lparr>lm_TypeMeta := lm_TypeMeta s\<rparr>;
     (m, h2) \<leftarrow> l_ListMeta L (lm_ListMeta s) h1;
     let out = out\<lparr>lm_ListMeta := m\<rparr>;
     (p, h3) \<leftarrow> nilable (copy_ref orders_of OrdersC (copy_items (DeepCopyInto_SleepOrder L))) (lm_Items s) h2;
     Some (out\<lparr>lm_Items := p\<rparr>, h3) }"

definition DeepCopy_SleepOrderList :: "('m, 'l, 'x) copy_lib \<Rightarrow> ('m, 'l, 'x, addr option) copy_into" where
  "DeepCopy_SleepOrderList L = nilable (copy_ref order_list_of OrderListC (DeepCopyInto_SleepOrderList L))"

definition DeepCopyInto_SleepPolicySpec :: "('m, 'l, 'x) copy_lib \<Rightarrow> ('m, 'l, 'x, policy_spec_mem) copy_into" where
  "DeepCopyInto_SleepPolicySpec L s h = do {
     (out, h1) \<leftarrow> assign s h;
     (d, h2) \<leftarrow> nilable (copy_ref configs_of ConfigsC (copy_entries (l_range_configs L))) (pm_Deployments s) h1;
     let out = out\<lparr>pm_Deployments := d\<rparr>;
     (t, h3) \<leftarrow> nilable (copy_ref configs_of ConfigsC (copy_entries (l_range_configs L))) (pm_StatefulSets s) h2;
     Some (out\<lparr>pm_StatefulSets := t\<rparr>, h3) }"

definition DeepCopy_SleepPolicySpec :: "('m, 'l, 'x) copy_lib \<Rightarrow> ('m, 'l, 'x, addr option) copy_into" where
  "DeepCopy_SleepPolicySpec L = nilable (copy_ref policy_spec_of PolicySpecC (DeepCopyInto_SleepPolicySpec L))"

definition DeepCopyInto_SleepPolicyStatus :: "('m, 'l, 'x) copy_lib \<Rightarrow> ('m, 'l, 'x, policy_status_mem) copy_into" where
  "DeepCopyInto_SleepPolicyStatus L s h = do {
     (out, h1) \<leftarrow> assign s h;
     (p, h2) \<leftarrow> nilable (copy_ref params_map_of ParamsMapC (copy_entries (l_range_params L))) (pm_State s) h1;
     Some (out\<lparr>pm_State := p\<rparr>, h2) }"

definition DeepCopy_SleepPolicyStatus :: "('m, 'l, 'x) copy_lib \<Rightarrow> ('m, 'l, 'x, addr option) copy_into" where
  "DeepCopy_SleepPolicyStatus L = nilable (copy_ref policy_status_of PolicyStatusC (DeepCopyInto_SleepPolicyStatus L))"

definition DeepCopyInto_SleepPolicy :: "('m, 'l, 'x) copy_lib \<Rightarrow> ('m, 'l, 'x, 'm policy_mem) copy_into" where
  "DeepCopyInto_SleepPolicy L s h = do {
     (out, h1) \<leftarrow> assign s h;
     let out = out\<lparr>pm_TypeMeta := pm_TypeMeta s\<rparr>;
     (m, h2) \<leftarrow> l_ObjectMeta L (pm_ObjectMeta s) h1;
     let out = out\<lparr>pm_ObjectMeta := m\<rparr>;
     (sp, h3) \<leftarrow> DeepCopyInto_SleepPolicySpec L (pm_Spec s) h2;
     let out = out\<lparr>pm_Spec := sp\<rparr>;
     (st, h4) \<leftarrow> DeepCopyInto_SleepPolicyStatus L (pm_Status s) h3;
     Some (out\<lparr>pm_Status := st\<rparr>, h4) }"

definition DeepCopy_SleepPolicy :: "('m, 'l, 'x) copy_lib \<Rightarrow> ('m, 'l, 'x, addr option) copy_into" where
  "DeepCopy_SleepPolicy L = nilable (copy_ref policy_of PolicyC (DeepCopyInto_SleepPolicy L))"

definition DeepCopyInto_SleepPolicyList :: "('m, 'l, 'x) copy_lib \<Rightarrow> ('m, 'l, 'x, 'l list_mem) copy_into" where
  "DeepCopyInto_SleepPolicyList L s h = do {
     (out, h1) \<leftarrow> assign s h;
     let out = out\<lparr>lm_TypeMeta := lm_TypeMeta s\<rparr>;
     (m, h2) \<leftarrow> l_ListMeta L (lm_ListMeta s) h1;
     let out = out\<lparr>lm_ListMeta := m\<rparr>;
     (p, h3) \<leftarrow> nilable (copy_ref policies_of PoliciesC (copy_items (DeepCopyInto_SleepPolicy L))) (lm_Items s) h2;
     Some (out\<lparr>lm_Items := p\<rparr>, h3) }"

definition DeepCopy_SleepPolicyList :: "('m, 'l, 'x) copy_lib \<Rightarrow> ('m, 'l, 'x, addr option) copy_into" where
  "DeepCopy_SleepPolicyList L = nilable (copy_ref policy_list_of PolicyListC (DeepCopyInto_SleepPolicyList L))"

text \<open>
  \<open>runtime.Object\<close>: an interface value is nil or holds a pointer of one of the four types, which may
  itself be nil.  \<open>DeepCopyObject\<close> returns the nil interface for a nil pointer.
\<close>

datatype runtime_object =
    SleepOrderPtr "addr option"
  | SleepOrderListPtr "addr option"
  | SleepPolicyPtr "addr option"
  | SleepPolicyListPtr "addr option"

definition boxed ::
  "(addr option \<Rightarrow> runtime_object) \<Rightarrow> (addr option \<times> ('m, 'l, 'x) memory) option \<Rightarrow>
   (runtime_object option \<times> ('m, 'l, 'x) memory) option" where
  "boxed box r = do { (c, h) \<leftarrow> r; Some (if c \<noteq> None then Some (box c) else None, h) }"

definition DeepCopyObject_SleepOrder where
  "DeepCopyObject_SleepOrder L p h = boxed SleepOrderPtr (DeepCopy_SleepOrder L p h)"

definition DeepCopyObject_SleepOrderList where
  "DeepCopyObject_SleepOrderList L p h = boxed SleepOrderListPtr (DeepCopy_SleepOrderList L p h)"

definition DeepCopyObject_SleepPolicy where
  "DeepCopyObject_SleepPolicy L p h = boxed SleepPolicyPtr (DeepCopy_SleepPolicy L p h)"

definition DeepCopyObject_SleepPolicyList where
  "DeepCopyObject_SleepPolicyList L p h = boxed SleepPolicyListPtr (DeepCopy_SleepPolicyList L p h)"

end
