(* ===== verification/Deep_Copy_Props.thy ===== *)
theory Deep_Copy_Props
  imports Deep_Copy "HOL-Library.List_Lexorder" "HOL-Library.Char_ord"
begin

text \<open>
  What a deep copy promises, as a locale over the value that a struct in memory stands for and the
  addresses behind it; the combinators keep the promise, so every generated function does.
\<close>

section \<open>The promise\<close>

text \<open>Memory \<open>h'\<close> holds at the addresses \<open>A\<close> what \<open>h\<close> does.\<close>

definition same_on :: "addr set \<Rightarrow> ('m, 'l, 'x) memory \<Rightarrow> ('m, 'l, 'x) memory \<Rightarrow> bool" where
  "same_on A h h' \<longleftrightarrow> (\<forall>a\<in>A. a < length h' \<and> h' ! a = h ! a)"

text \<open>
  \<open>val\<close> is the value of a struct, if every pointer behind it is good; \<open>refs\<close> are the addresses that it
  depends on.  A copy adds memory and changes none, and what it returns has the same value and lies in
  the memory that was added.
\<close>

locale copier =
  fixes val :: "('m, 'l, 'x) memory \<Rightarrow> 's \<Rightarrow> 'v option"
    and refs :: "('m, 'l, 'x) memory \<Rightarrow> 's \<Rightarrow> addr set"
    and into :: "('m, 'l, 'x, 's) copy_into"
  assumes val_local: "val h s = Some v \<Longrightarrow> same_on (refs h s) h h' \<Longrightarrow> val h' s = Some v \<and> refs h' s = refs h s"
    and refs_below: "val h s = Some v \<Longrightarrow> refs h s \<subseteq> {..<length h}"
    and into_law: "val h s = Some v \<Longrightarrow> \<exists>s' h'. into s h = Some (s', h') \<and> prefix h h' \<and>
      val h' s' = Some v \<and> refs h' s' \<subseteq> {length h..<length h'}"
begin

lemma val_grow:
  assumes "val h s = Some v" "prefix h h'"
  shows "val h' s = Some v" "refs h' s = refs h s"
proof -
  have "same_on (refs h s) h h'"
    using refs_below [OF assms(1)] assms(2) by (auto simp: same_on_def prefix_def nth_append)
  from val_local [OF assms(1) this] show "val h' s = Some v" "refs h' s = refs h s" by simp_all
qed

lemma into_grow:
  assumes "val h0 s = Some v" "prefix h0 h"
  obtains s' h' where "into s h = Some (s', h')" "prefix h h'" "val h' s' = Some v"
    and "refs h' s' \<subseteq> {length h..<length h'}"
  using into_law [OF val_grow(1) [OF assms]] by blast

lemma copy_independent:
  assumes "val h s = Some v"
  shows "\<exists>s' h'. into s h = Some (s', h') \<and> prefix h h' \<and>
    (\<forall>h2. same_on {length h..<length h'} h' h2 \<longrightarrow> val h2 s' = Some v) \<and>
    (\<forall>h2. same_on {..<length h} h h2 \<longrightarrow> val h2 s = Some v)"
proof -
  obtain s' h' where r: "into s h = Some (s', h')" "prefix h h'" "val h' s' = Some v"
    and f: "refs h' s' \<subseteq> {length h..<length h'}"
    using into_law [OF assms] by blast
  have "val h2 s' = Some v" if "same_on {length h..<length h'} h' h2" for h2
    using val_local [OF r(3), of h2] f that by (auto simp: same_on_def)
  moreover have "val h2 s = Some v" if "same_on {..<length h} h h2" for h2
    using val_local [OF assms, of h2] refs_below [OF assms] that by (auto simp: same_on_def)
  ultimately show ?thesis using r by blast
qed

end

section \<open>Values of the combinators\<close>

definition plain_val :: "('m, 'l, 'x) memory \<Rightarrow> 's \<Rightarrow> 's option" where
  "plain_val h s = Some s"

definition no_refs :: "('m, 'l, 'x) memory \<Rightarrow> 's \<Rightarrow> addr set" where
  "no_refs h s = {}"

definition ref_val :: "(('m, 'l, 'x) cell \<Rightarrow> 's option) \<Rightarrow> (('m, 'l, 'x) memory \<Rightarrow> 's \<Rightarrow> 'v option) \<Rightarrow>
    ('m, 'l, 'x) memory \<Rightarrow> addr \<Rightarrow> 'v option" where
  "ref_val sel val h a = do { s \<leftarrow> load sel h a; val h s }"

definition ref_refs :: "(('m, 'l, 'x) cell \<Rightarrow> 's option) \<Rightarrow> (('m, 'l, 'x) memory \<Rightarrow> 's \<Rightarrow> addr set) \<Rightarrow>
    ('m, 'l, 'x) memory \<Rightarrow> addr \<Rightarrow> addr set" where
  "ref_refs sel refs h a = insert a (case load sel h a of None \<Rightarrow> {} | Some s \<Rightarrow> refs h s)"

definition nil_val :: "(('m, 'l, 'x) memory \<Rightarrow> 's \<Rightarrow> 'v option) \<Rightarrow> ('m, 'l, 'x) memory \<Rightarrow> 's option \<Rightarrow> 'v option option" where
  "nil_val val h p = (case p of None \<Rightarrow> Some None | Some s \<Rightarrow> map_option Some (val h s))"

definition nil_refs :: "(('m, 'l, 'x) memory \<Rightarrow> 's \<Rightarrow> addr set) \<Rightarrow> ('m, 'l, 'x) memory \<Rightarrow> 's option \<Rightarrow> addr set" where
  "nil_refs refs h p = (case p of None \<Rightarrow> {} | Some s \<Rightarrow> refs h s)"

fun items_val :: "(('m, 'l, 'x) memory \<Rightarrow> 's \<Rightarrow> 'v option) \<Rightarrow> ('m, 'l, 'x) memory \<Rightarrow> 's list \<Rightarrow> 'v list option" where
  "items_val val h [] = Some []"
| "items_val val h (x # xs) = do { v \<leftarrow> val h x; vs \<leftarrow> items_val val h xs; Some (v # vs) }"

definition items_refs :: "(('m, 'l, 'x) memory \<Rightarrow> 's \<Rightarrow> addr set) \<Rightarrow> ('m, 'l, 'x) memory \<Rightarrow> 's list \<Rightarrow> addr set" where
  "items_refs refs h xs = \<Union> (refs h ` set xs)"

text \<open>Two parts of a struct, copied one after the other.\<close>

definition both_val where
  "both_val val1 val2 h p = do { v \<leftarrow> val1 h (fst p); u \<leftarrow> val2 h (snd p); Some (v, u) }"

definition both_refs :: "(('m, 'l, 'x) memory \<Rightarrow> 's \<Rightarrow> addr set) \<Rightarrow> (('m, 'l, 'x) memory \<Rightarrow> 't \<Rightarrow> addr set) \<Rightarrow>
    ('m, 'l, 'x) memory \<Rightarrow> 's \<times> 't \<Rightarrow> addr set" where
  "both_refs refs1 refs2 h p = refs1 h (fst p) \<union> refs2 h (snd p)"

definition both_into where
  "both_into into1 into2 p h = do {
     (s, h1) \<leftarrow> into1 (fst p) h;
     (t, h2) \<leftarrow> into2 (snd p) h1;
     Some ((s, t), h2) }"

section \<open>The combinators keep the promise\<close>

lemma copier_assign: "copier plain_val no_refs assign"
  by unfold_locales (auto simp: plain_val_def no_refs_def assign_def)

lemma copier_entries:
  assumes "\<And>m. map_of (range_of m) = fmlookup m \<and> distinct (map fst (range_of m))"
  shows "copier plain_val no_refs (copy_entries range_of)"
proof -
  have upd: "fmlookup (fold (\<lambda>(key, val) out. fmupd key val out) xs m) k =
      (case map_of xs k of None \<Rightarrow> fmlookup m k | Some v \<Rightarrow> Some v)"
    if "distinct (map fst xs)" for xs m k
    using that
  proof (induction xs arbitrary: m)
    case (Cons x xs)
    moreover have "map_of xs (fst x) = None" using Cons.prems by (simp add: map_of_eq_None_iff)
    ultimately show ?case by (cases x) (auto split: option.splits)
  qed simp
  have "fold (\<lambda>(key, val) out. fmupd key val out) (range_of m) fmempty = m" for m
    by (rule fmap_ext) (use assms [of m] in \<open>simp add: upd split: option.splits\<close>)
  then show ?thesis
    by unfold_locales (auto simp: plain_val_def no_refs_def copy_entries_def)
qed

lemma copier_nilable:
  assumes "copier val refs into"
  shows "copier (nil_val val) (nil_refs refs) (nilable into)"
proof (unfold_locales, goal_cases)
  case (1 h p v h')
  show ?case
  proof (cases p)
    case None
    with 1 show ?thesis by (simp add: nil_val_def nil_refs_def)
  next
    case (Some s)
    with 1 obtain u where u: "val h s = Some u" "v = Some u" by (auto simp: nil_val_def)
    have "same_on (refs h s) h h'" using 1(2) Some by (simp add: nil_refs_def)
    from copier.val_local [OF assms u(1) this] Some u(2) show ?thesis by (simp add: nil_val_def nil_refs_def)
  qed
next
  case (2 h p v)
  show ?case
  proof (cases p)
    case (Some s)
    with 2 obtain u where "val h s = Some u" by (auto simp: nil_val_def)
    with Some copier.refs_below [OF assms] show ?thesis by (simp add: nil_refs_def)
  qed (simp add: nil_refs_def)
next
  case (3 h p v)
  show ?case
  proof (cases p)
    case None
    with 3 show ?thesis by (simp add: nilable_def nil_val_def nil_refs_def)
  next
    case (Some s)
    with 3 obtain u where u: "val h s = Some u" "v = Some u" by (auto simp: nil_val_def)
    from copier.into_law [OF assms u(1)] Some u(2) show ?thesis
      by (auto simp: nilable_def nil_val_def nil_refs_def)
  qed
qed

lemma copier_ref:
  assumes c: "copier val refs into" and sel: "\<And>s. sel (wrap s) = Some s"
  shows "copier (ref_val sel val) (ref_refs sel refs) (copy_ref sel wrap into)"
proof (unfold_locales, goal_cases)
  case (1 h a v h')
  then obtain s where s: "load sel h a = Some s" "val h s = Some v"
    by (auto simp: ref_val_def bind_eq_Some_conv)
  have eq: "load sel h' a = Some s" "same_on (refs h s) h h'"
    using 1(2) s(1) by (auto simp: ref_refs_def same_on_def load_def split: if_splits)
  with copier.val_local [OF c s(2) eq(2)] s show ?case by (simp add: ref_val_def ref_refs_def)
next
  case (2 h a v)
  then obtain s where "load sel h a = Some s" "val h s = Some v"
    by (auto simp: ref_val_def bind_eq_Some_conv)
  then show ?case
    using copier.refs_below [OF c] by (auto simp: ref_refs_def load_def split: if_splits)
next
  case (3 h a v)
  then obtain s where s: "load sel h a = Some s" "val h s = Some v"
    by (auto simp: ref_val_def bind_eq_Some_conv)
  let ?h1 = "h @ [Zeroed]"
  have s1: "load sel ?h1 a = Some s" using s(1) by (auto simp: load_def nth_append split: if_splits)
  obtain s' h2 where r: "into s ?h1 = Some (s', h2)" "prefix ?h1 h2" "val h2 s' = Some v"
    and f: "refs h2 s' \<subseteq> {length ?h1..<length h2}"
    by (rule copier.into_grow [OF c s(2), of ?h1]) simp
  let ?h3 = "h2[length h := wrap s']"
  obtain ys where ys: "h2 = ?h1 @ ys" using r(2) by (auto simp: prefix_def)
  have "same_on (refs h2 s') h2 ?h3" using f by (auto simp: same_on_def)
  then have "val ?h3 s' = Some v" "refs ?h3 s' = refs h2 s'"
    using copier.val_local [OF c r(3)] by simp_all
  moreover have "load sel ?h3 (length h) = Some s'" by (simp add: load_def ys sel)
  ultimately have "ref_val sel val ?h3 (length h) = Some v"
    "ref_refs sel refs ?h3 (length h) \<subseteq> {length h..<length ?h3}"
    using f by (auto simp: ref_val_def ref_refs_def ys)
  moreover have "copy_ref sel wrap into a h = Some (length h, ?h3)"
    by (simp add: copy_ref_def allocate_def s1 r(1))
  moreover have "prefix h ?h3" by (simp add: ys list_update_append)
  ultimately show ?case by blast
qed

lemma copier_both:
  assumes c1: "copier val1 refs1 into1" and c2: "copier val2 refs2 into2"
  shows "copier (both_val val1 val2) (both_refs refs1 refs2) (both_into into1 into2)"
proof (unfold_locales, goal_cases)
  case (1 h p v h')
  then obtain v1 v2 where v: "val1 h (fst p) = Some v1" "val2 h (snd p) = Some v2" "v = (v1, v2)"
    by (auto simp: both_val_def bind_eq_Some_conv)
  have "same_on (refs1 h (fst p)) h h'" "same_on (refs2 h (snd p)) h h'"
    using 1(2) by (auto simp: same_on_def both_refs_def)
  with copier.val_local [OF c1 v(1)] copier.val_local [OF c2 v(2)] v(3)
  show ?case by (simp add: both_val_def both_refs_def)
next
  case (2 h p v)
  then obtain v1 v2 where "val1 h (fst p) = Some v1" "val2 h (snd p) = Some v2"
    by (auto simp: both_val_def bind_eq_Some_conv)
  then show ?case
    using copier.refs_below [OF c1] copier.refs_below [OF c2] unfolding both_refs_def by blast
next
  case (3 h p v)
  then obtain v1 v2 where v: "val1 h (fst p) = Some v1" "val2 h (snd p) = Some v2" "v = (v1, v2)"
    by (auto simp: both_val_def bind_eq_Some_conv)
  obtain s h1 where r1: "into1 (fst p) h = Some (s, h1)" "prefix h h1" "val1 h1 s = Some v1"
    and f1: "refs1 h1 s \<subseteq> {length h..<length h1}"
    by (rule copier.into_grow [OF c1 v(1) prefix_order.refl])
  obtain t h2 where r2: "into2 (snd p) h1 = Some (t, h2)" "prefix h1 h2" "val2 h2 t = Some v2"
    and f2: "refs2 h2 t \<subseteq> {length h1..<length h2}"
    by (rule copier.into_grow [OF c2 v(2) r1(2)])
  note g = copier.val_grow [OF c1 r1(3) r2(2)]
  have "length h \<le> length h1" "length h1 \<le> length h2" using r1(2) r2(2) by (auto dest: prefix_length_le)
  with f1 f2 have "both_refs refs1 refs2 h2 (s, t) \<subseteq> {length h..<length h2}"
    unfolding both_refs_def fst_conv snd_conv g(2) by (force simp: subset_iff)
  moreover have "both_into into1 into2 p h = Some ((s, t), h2)" by (simp add: both_into_def r1(1) r2(1))
  moreover have "both_val val1 val2 h2 (s, t) = Some v" by (simp add: both_val_def g(1) r2(3) v(3))
  moreover have "prefix h h2" using r1(2) r2(2) by (rule prefix_order.trans)
  ultimately show ?case by blast
qed

lemma items_grow:
  assumes "copier val refs into" "items_val val h xs = Some v" "prefix h h'"
  shows "items_val val h' xs = Some v \<and> items_refs refs h' xs = items_refs refs h xs"
  using assms(2)
proof (induction xs arbitrary: v)
  case (Cons x xs)
  then obtain u us where v: "val h x = Some u" "items_val val h xs = Some us" "v = u # us"
    by (auto simp: bind_eq_Some_conv)
  from Cons.IH [OF v(2)] copier.val_grow [OF assms(1) v(1) assms(3)] v(3)
  show ?case by (simp add: items_refs_def)
qed (simp add: items_refs_def)

lemma copier_items:
  assumes c: "copier val refs into"
  shows "copier (items_val val) (items_refs refs) (copy_items into)"
proof (unfold_locales, goal_cases)
  case (1 h xs v h')
  then show ?case
  proof (induction xs arbitrary: v)
    case (Cons x xs)
    then obtain u us where v: "val h x = Some u" "items_val val h xs = Some us" "v = u # us"
      by (auto simp: bind_eq_Some_conv)
    have "same_on (refs h x) h h'" "same_on (items_refs refs h xs) h h'"
      using Cons.prems(2) by (auto simp: same_on_def items_refs_def)
    with Cons.IH [OF v(2)] copier.val_local [OF c v(1)] v(3) show ?case by (simp add: items_refs_def)
  qed (simp add: items_refs_def)
next
  case (2 h xs v)
  then show ?case
  proof (induction xs arbitrary: v)
    case (Cons x xs)
    then obtain u us where "val h x = Some u" "items_val val h xs = Some us"
      by (auto simp: bind_eq_Some_conv)
    with Cons.IH copier.refs_below [OF c] show ?case by (simp add: items_refs_def)
  qed (simp add: items_refs_def)
next
  case (3 h xs v)
  then show ?case
  proof (induction xs arbitrary: h v)
    case Nil
    then show ?case by (simp add: items_refs_def)
  next
    case (Cons x xs)
    then obtain u us where v: "val h x = Some u" "items_val val h xs = Some us" "v = u # us"
      by (auto simp: bind_eq_Some_conv)
    obtain x' h1 where r1: "into x h = Some (x', h1)" "prefix h h1" "val h1 x' = Some u"
      and f1: "refs h1 x' \<subseteq> {length h..<length h1}"
      by (rule copier.into_grow [OF c v(1) prefix_order.refl])
    obtain xs' h2 where r2: "copy_items into xs h1 = Some (xs', h2)" "prefix h1 h2" "items_val val h2 xs' = Some us"
      and f2: "items_refs refs h2 xs' \<subseteq> {length h1..<length h2}"
      using Cons.IH [of h1 us] items_grow [OF c v(2) r1(2)] by blast
    note g = copier.val_grow [OF c r1(3) r2(2)]
    have "length h \<le> length h1" "length h1 \<le> length h2" using r1(2) r2(2) by (auto dest: prefix_length_le)
    with f1 f2 have "items_refs refs h2 (x' # xs') \<subseteq> {length h..<length h2}"
      unfolding items_refs_def list.set image_insert Union_insert g(2) by (force simp: subset_iff)
    moreover have "prefix h h2" using r1(2) r2(2) by (rule prefix_order.trans)
    ultimately show ?case using r1(1) r2(1,3) g(1) v(3) by auto
  qed
qed

text \<open>A struct whose parts \<open>f s\<close> are copied and put in place of the old ones.\<close>

lemma copier_struct:
  assumes c: "copier val refs into"
    and eqs: "\<And>h s. val' h s = map_option (g s) (val h (f s))" "\<And>h s. refs' h s = refs h (f s)"
      "\<And>h s. into' s h = map_option (\<lambda>(x, h'). (put x s, h')) (into (f s) h)"
    and put: "\<And>x s. f (put x s) = x" "\<And>x s. g (put x s) = g s"
  shows "copier val' refs' into'"
proof (unfold_locales, goal_cases)
  case (1 h s v h')
  then obtain u where "val h (f s) = Some u" "v = g s u" by (auto simp: eqs)
  with 1(2) copier.val_local [OF c, of h "f s" u h'] show ?case by (simp add: eqs)
next
  case (2 h s v)
  then show ?case using copier.refs_below [OF c, of h "f s"] by (auto simp: eqs)
next
  case (3 h s v)
  then obtain u where u: "val h (f s) = Some u" "v = g s u" by (auto simp: eqs)
  from copier.into_law [OF c u(1)] u(2) show ?case by (fastforce simp: eqs put)
qed

section \<open>The values of the structs\<close>

text \<open>How the library's metadata reads, and what it depends on.\<close>

record ('m, 'l, 'x, 'k) meta_view =
  mv_val :: "('m, 'l, 'x) memory \<Rightarrow> 'm \<Rightarrow> object_meta option"
  mv_refs :: "('m, 'l, 'x) memory \<Rightarrow> 'm \<Rightarrow> addr set"
  lv_val :: "('m, 'l, 'x) memory \<Rightarrow> 'l \<Rightarrow> 'k option"
  lv_refs :: "('m, 'l, 'x) memory \<Rightarrow> 'l \<Rightarrow> addr set"

definition status_val :: "('m, 'l, 'x) memory \<Rightarrow> status_mem \<Rightarrow> sleep_order_status option" where
  "status_val h s = do {
     r \<leftarrow> nil_val (ref_val int32_of plain_val) h (sm_OriginalReplicas s);
     t \<leftarrow> nil_val (ref_val time_of plain_val) h (sm_LastTransitionTime s);
     u \<leftarrow> nil_val (ref_val time_of plain_val) h (sm_NextOperationTime s);
     Some \<lparr>ss_CurrentState = sm_CurrentState s, ss_OriginalReplicas = r, ss_LastTransitionTime = t,
       ss_NextOperationTime = u\<rparr> }"

definition status_refs :: "('m, 'l, 'x) memory \<Rightarrow> status_mem \<Rightarrow> addr set" where
  "status_refs h s = nil_refs (ref_refs int32_of no_refs) h (sm_OriginalReplicas s) \<union>
     (nil_refs (ref_refs time_of no_refs) h (sm_LastTransitionTime s) \<union>
      nil_refs (ref_refs time_of no_refs) h (sm_NextOperationTime s))"

definition order_val :: "('m, 'l, 'x, 'k) meta_view \<Rightarrow> ('m, 'l, 'x) memory \<Rightarrow> 'm order_mem \<Rightarrow>
    (type_meta \<times> sleep_order) option" where
  "order_val W h s = do {
     m \<leftarrow> mv_val W h (om_ObjectMeta s);
     st \<leftarrow> status_val h (om_Status s);
     Some (om_TypeMeta s, \<lparr>ord_meta = m, ord_spec = om_Spec s, ord_status = st\<rparr>) }"

definition order_refs :: "('m, 'l, 'x, 'k) meta_view \<Rightarrow> ('m, 'l, 'x) memory \<Rightarrow> 'm order_mem \<Rightarrow> addr set" where
  "order_refs W h s = mv_refs W h (om_ObjectMeta s) \<union> status_refs h (om_Status s)"

definition policy_spec_val :: "('m, 'l, 'x) memory \<Rightarrow> policy_spec_mem \<Rightarrow> sleep_policy_spec option" where
  "policy_spec_val h s = do {
     d \<leftarrow> nil_val (ref_val configs_of plain_val) h (pm_Deployments s);
     t \<leftarrow> nil_val (ref_val configs_of plain_val) h (pm_StatefulSets s);
     Some \<lparr>sp_Timezone = pm_Timezone s, sp_Deployments = d, sp_StatefulSets = t\<rparr> }"

definition policy_spec_refs :: "('m, 'l, 'x) memory \<Rightarrow> policy_spec_mem \<Rightarrow> addr set" where
  "policy_spec_refs h s = nil_refs (ref_refs configs_of no_refs) h (pm_Deployments s) \<union>
     nil_refs (ref_refs configs_of no_refs) h (pm_StatefulSets s)"

definition policy_status_val :: "('m, 'l, 'x) memory \<Rightarrow> policy_status_mem \<Rightarrow> sleep_policy_status option" where
  "policy_status_val h s =
     map_option (\<lambda>st. \<lparr>st_State = st\<rparr>) (nil_val (ref_val params_map_of plain_val) h (pm_State s))"

definition policy_status_refs :: "('m, 'l, 'x) memory \<Rightarrow> policy_status_mem \<Rightarrow> addr set" where
  "policy_status_refs h s = nil_refs (ref_refs params_map_of no_refs) h (pm_State s)"

definition policy_val :: "('m, 'l, 'x, 'k) meta_view \<Rightarrow> ('m, 'l, 'x) memory \<Rightarrow> 'm policy_mem \<Rightarrow>
    (type_meta \<times> sleep_policy) option" where
  "policy_val W h s = do {
     m \<leftarrow> mv_val W h (pm_ObjectMeta s);
     sp \<leftarrow> policy_spec_val h (pm_Spec s);
     st \<leftarrow> policy_status_val h (pm_Status s);
     Some (pm_TypeMeta s, \<lparr>pol_meta = m, pol_spec = sp, pol_status = st\<rparr>) }"

definition policy_refs :: "('m, 'l, 'x, 'k) meta_view \<Rightarrow> ('m, 'l, 'x) memory \<Rightarrow> 'm policy_mem \<Rightarrow> addr set" where
  "policy_refs W h s = mv_refs W h (pm_ObjectMeta s) \<union>
     (policy_spec_refs h (pm_Spec s) \<union> policy_status_refs h (pm_Status s))"

text \<open>A list: type, metadata and items, which are nil or the values of the elements.\<close>

definition list_val where
  "list_val W sel val h s = do {
     m \<leftarrow> lv_val W h (lm_ListMeta s);
     xs \<leftarrow> nil_val (ref_val sel (items_val val)) h (lm_Items s);
     Some (lm_TypeMeta s, m, xs) }"

definition list_refs where
  "list_refs W sel refs h s = lv_refs W h (lm_ListMeta s) \<union> nil_refs (ref_refs sel (items_refs refs)) h (lm_Items s)"

section \<open>The generated functions keep the promise\<close>

text \<open>The library: its own copies are deep, and \<open>range\<close> meets every entry once.\<close>

locale memory_lib =
  meta: copier "mv_val W" "mv_refs W" "l_ObjectMeta L" +
  list_meta: copier "lv_val W" "lv_refs W" "l_ListMeta L" +
  time: copier "ref_val time_of plain_val" "ref_refs time_of no_refs" "l_Time L"
  for L :: "('m, 'l, 'x) copy_lib" and W :: "('m, 'l, 'x, 'k) meta_view" +
  assumes range_configs: "map_of (l_range_configs L m) = fmlookup m \<and> distinct (map fst (l_range_configs L m))"
    and range_params: "map_of (l_range_params L d) = fmlookup d \<and> distinct (map fst (l_range_params L d))"

lemmas copy_parts = both_val_def both_refs_def both_into_def assign_def Let_def

interpretation policy_config: copier plain_val no_refs DeepCopyInto_PolicyConfig
  unfolding DeepCopyInto_PolicyConfig_def by (rule copier_assign)

interpretation params: copier plain_val no_refs DeepCopyInto_ResourceSleepParams
  unfolding DeepCopyInto_ResourceSleepParams_def by (rule copier_assign)

interpretation target: copier plain_val no_refs DeepCopyInto_TargetRef
  unfolding DeepCopyInto_TargetRef_def by (rule copier_assign)

lemma DeepCopyInto_SleepOrderSpec_assign: "DeepCopyInto_SleepOrderSpec = assign"
  by (intro ext) (simp add: DeepCopyInto_SleepOrderSpec_def assign_def)

interpretation order_spec: copier plain_val no_refs DeepCopyInto_SleepOrderSpec
  unfolding DeepCopyInto_SleepOrderSpec_assign by (rule copier_assign)

sublocale memory_lib \<subseteq> status: copier status_val status_refs "DeepCopyInto_SleepOrderStatus L"
proof -
  note time = copier_nilable [OF time.copier_axioms]
  note int = copier_nilable [OF copier_ref [OF copier_assign, of int32_of Int32C]]
  show "copier status_val status_refs (DeepCopyInto_SleepOrderStatus L)"
    by (rule copier_struct [OF copier_both [OF int copier_both [OF time time]],
          where f = "\<lambda>s. (sm_OriginalReplicas s, sm_LastTransitionTime s, sm_NextOperationTime s)"
            and put = "\<lambda>(r, t, u) s. s\<lparr>sm_OriginalReplicas := r, sm_LastTransitionTime := t, sm_NextOperationTime := u\<rparr>"
            and g = "\<lambda>s (r, t, u). \<lparr>ss_CurrentState = sm_CurrentState s, ss_OriginalReplicas = r,
              ss_LastTransitionTime = t, ss_NextOperationTime = u\<rparr>"])
      (auto simp: status_val_def status_refs_def DeepCopyInto_SleepOrderStatus_def copy_parts
        split: Option.bind_splits)
qed

sublocale memory_lib \<subseteq> order: copier "order_val W" "order_refs W" "DeepCopyInto_SleepOrder L"
  by (rule copier_struct [OF copier_both [OF meta.copier_axioms status.copier_axioms],
        where f = "\<lambda>s. (om_ObjectMeta s, om_Status s)"
          and put = "\<lambda>(m, st) s. s\<lparr>om_ObjectMeta := m, om_Status := st\<rparr>"
          and g = "\<lambda>s (m, st). (om_TypeMeta s, \<lparr>ord_meta = m, ord_spec = om_Spec s, ord_status = st\<rparr>)"])
    (auto simp: order_val_def order_refs_def DeepCopyInto_SleepOrder_def copy_parts split: Option.bind_splits)

sublocale memory_lib \<subseteq> policy_spec: copier policy_spec_val policy_spec_refs "DeepCopyInto_SleepPolicySpec L"
proof -
  note entries = copier_nilable [OF copier_ref [OF copier_entries [OF range_configs], of configs_of ConfigsC]]
  show "copier policy_spec_val policy_spec_refs (DeepCopyInto_SleepPolicySpec L)"
    by (rule copier_struct [OF copier_both [OF entries entries],
          where f = "\<lambda>s. (pm_Deployments s, pm_StatefulSets s)"
            and put = "\<lambda>(d, t) s. s\<lparr>pm_Deployments := d, pm_StatefulSets := t\<rparr>"
            and g = "\<lambda>s (d, t). \<lparr>sp_Timezone = pm_Timezone s, sp_Deployments = d, sp_StatefulSets = t\<rparr>"])
      (auto simp: policy_spec_val_def policy_spec_refs_def DeepCopyInto_SleepPolicySpec_def copy_parts
        split: Option.bind_splits)
qed

sublocale memory_lib \<subseteq> policy_status: copier policy_status_val policy_status_refs "DeepCopyInto_SleepPolicyStatus L"
proof -
  note entries = copier_nilable [OF copier_ref [OF copier_entries [OF range_params], of params_map_of ParamsMapC]]
  show "copier policy_status_val policy_status_refs (DeepCopyInto_SleepPolicyStatus L)"
    by (rule copier_struct [OF entries, where f = pm_State and put = "\<lambda>p s. s\<lparr>pm_State := p\<rparr>"
            and g = "\<lambda>s st. \<lparr>st_State = st\<rparr>"])
      (auto simp: policy_status_val_def policy_status_refs_def DeepCopyInto_SleepPolicyStatus_def copy_parts
        split: Option.bind_splits)
qed

sublocale memory_lib \<subseteq> policy: copier "policy_val W" "policy_refs W" "DeepCopyInto_SleepPolicy L"
  by (rule copier_struct [OF copier_both [OF meta.copier_axioms copier_both [OF policy_spec.copier_axioms policy_status.copier_axioms]],
        where f = "\<lambda>s. (pm_ObjectMeta s, pm_Spec s, pm_Status s)"
          and put = "\<lambda>(m, sp, st) s. s\<lparr>pm_ObjectMeta := m, pm_Spec := sp, pm_Status := st\<rparr>"
          and g = "\<lambda>s (m, sp, st). (pm_TypeMeta s, \<lparr>pol_meta = m, pol_spec = sp, pol_status = st\<rparr>)"])
    (auto simp: policy_val_def policy_refs_def DeepCopyInto_SleepPolicy_def copy_parts split: Option.bind_splits)

sublocale memory_lib \<subseteq> order_list: copier "list_val W orders_of (order_val W)" "list_refs W orders_of (order_refs W)"
  "DeepCopyInto_SleepOrderList L"
proof -
  note items = copier_nilable [OF copier_ref [OF copier_items [OF order.copier_axioms], of orders_of OrdersC]]
  show "copier (list_val W orders_of (order_val W)) (list_refs W orders_of (order_refs W)) (DeepCopyInto_SleepOrderList L)"
    by (rule copier_struct [OF copier_both [OF list_meta.copier_axioms items],
          where f = "\<lambda>s. (lm_ListMeta s, lm_Items s)" and put = "\<lambda>(m, p) s. s\<lparr>lm_ListMeta := m, lm_Items := p\<rparr>"
            and g = "\<lambda>s (m, xs). (lm_TypeMeta s, m, xs)"])
      (auto simp: list_val_def list_refs_def DeepCopyInto_SleepOrderList_def copy_parts split: Option.bind_splits)
qed

sublocale memory_lib \<subseteq> policy_list: copier "list_val W policies_of (policy_val W)" "list_refs W policies_of (policy_refs W)"
  "DeepCopyInto_SleepPolicyList L"
proof -
  note items = copier_nilable [OF copier_ref [OF copier_items [OF policy.copier_axioms], of policies_of PoliciesC]]
  show "copier (list_val W policies_of (policy_val W)) (list_refs W policies_of (policy_refs W)) (DeepCopyInto_SleepPolicyList L)"
    by (rule copier_struct [OF copier_both [OF list_meta.copier_axioms items],
          where f = "\<lambda>s. (lm_ListMeta s, lm_Items s)" and put = "\<lambda>(m, p) s. s\<lparr>lm_ListMeta := m, lm_Items := p\<rparr>"
            and g = "\<lambda>s (m, xs). (lm_TypeMeta s, m, xs)"])
      (auto simp: list_val_def list_refs_def DeepCopyInto_SleepPolicyList_def copy_parts split: Option.bind_splits)
qed

section \<open>A reference library\<close>

text \<open>
  Metadata with its annotations, finalizers and deletion time behind pointers, list metadata with a
  pointer to a count, copied field by field, and \<open>range\<close> in the order of the keys.
\<close>

datatype meta_cell = AnnotationsM "(string, string) fmap" | StringsM "string list" | CountM int

record meta_mem =
  mm_scalars :: object_meta
  mm_annotations :: "addr option"
  mm_finalizers :: "addr option"
  mm_deletion :: "addr option"

record list_meta_mem =
  ll_ResourceVersion :: string
  ll_Remaining :: "addr option"

fun annotations_of where "annotations_of (Foreign (AnnotationsM m)) = Some m" | "annotations_of _ = None"
fun strings_of where "strings_of (Foreign (StringsM m)) = Some m" | "strings_of _ = None"
fun count_of where "count_of (Foreign (CountM n)) = Some n" | "count_of _ = None"

definition ref_meta_copy :: "(meta_mem, list_meta_mem, meta_cell, meta_mem) copy_into" where
  "ref_meta_copy s h = do {
     (a, h1) \<leftarrow> nilable (copy_ref annotations_of (\<lambda>m. Foreign (AnnotationsM m)) assign) (mm_annotations s) h;
     (f, h2) \<leftarrow> nilable (copy_ref strings_of (\<lambda>xs. Foreign (StringsM xs)) assign) (mm_finalizers s) h1;
     (d, h3) \<leftarrow> nilable (copy_ref time_of TimeC assign) (mm_deletion s) h2;
     Some (s\<lparr>mm_annotations := a, mm_finalizers := f, mm_deletion := d\<rparr>, h3) }"

definition ref_list_meta_copy :: "(meta_mem, list_meta_mem, meta_cell, list_meta_mem) copy_into" where
  "ref_list_meta_copy s h = do {
     (n, h1) \<leftarrow> nilable (copy_ref count_of (\<lambda>n. Foreign (CountM n)) assign) (ll_Remaining s) h;
     Some (s\<lparr>ll_Remaining := n\<rparr>, h1) }"

definition ref_lib :: "(meta_mem, list_meta_mem, meta_cell) copy_lib" where
  "ref_lib = \<lparr>l_ObjectMeta = ref_meta_copy, l_ListMeta = ref_list_meta_copy,
     l_Time = copy_ref time_of TimeC assign, l_range_configs = sorted_list_of_fmap,
     l_range_params = sorted_list_of_fmap\<rparr>"

definition ref_meta_value ::
  "meta_mem \<Rightarrow> (string, string) fmap option \<times> string list option \<times> int option \<Rightarrow> object_meta" where
  "ref_meta_value s = (\<lambda>(a, f, d). (mm_scalars s)\<lparr>om_annotations := a,
     om_finalizers := (case f of None \<Rightarrow> [] | Some xs \<Rightarrow> xs), om_deletion := d\<rparr>)"

definition ref_view :: "(meta_mem, list_meta_mem, meta_cell, string \<times> int option) meta_view" where
  "ref_view = \<lparr>
     mv_val = (\<lambda>h s. map_option (ref_meta_value s)
       (both_val (nil_val (ref_val annotations_of plain_val))
         (both_val (nil_val (ref_val strings_of plain_val)) (nil_val (ref_val time_of plain_val))) h
         (mm_annotations s, mm_finalizers s, mm_deletion s))),
     mv_refs = (\<lambda>h s. both_refs (nil_refs (ref_refs annotations_of no_refs))
       (both_refs (nil_refs (ref_refs strings_of no_refs)) (nil_refs (ref_refs time_of no_refs))) h
       (mm_annotations s, mm_finalizers s, mm_deletion s)),
     lv_val = (\<lambda>h s. map_option (Pair (ll_ResourceVersion s)) (nil_val (ref_val count_of plain_val) h (ll_Remaining s))),
     lv_refs = (\<lambda>h s. nil_refs (ref_refs count_of no_refs) h (ll_Remaining s))\<rparr>"

lemma ref_simps:
  "l_ObjectMeta ref_lib = ref_meta_copy" "l_ListMeta ref_lib = ref_list_meta_copy"
  "l_Time ref_lib = copy_ref time_of TimeC assign"
  "l_range_configs ref_lib = sorted_list_of_fmap" "l_range_params ref_lib = sorted_list_of_fmap"
  by (simp_all add: ref_lib_def)

lemma ref_meta_copier: "copier (mv_val ref_view) (mv_refs ref_view) ref_meta_copy"
proof -
  note ptr = copier_nilable [OF copier_ref [OF copier_assign]]
  show ?thesis
    by (rule copier_struct [OF copier_both [OF ptr [of annotations_of "\<lambda>m. Foreign (AnnotationsM m)"]
            copier_both [OF ptr [of strings_of "\<lambda>xs. Foreign (StringsM xs)"] ptr [of time_of TimeC]]],
          where f = "\<lambda>s. (mm_annotations s, mm_finalizers s, mm_deletion s)"
            and put = "\<lambda>(a, f, d) s. s\<lparr>mm_annotations := a, mm_finalizers := f, mm_deletion := d\<rparr>"
            and g = ref_meta_value])
      (auto simp: ref_view_def ref_meta_value_def ref_meta_copy_def copy_parts split: Option.bind_splits)
qed

lemma ref_list_meta_copier: "copier (lv_val ref_view) (lv_refs ref_view) ref_list_meta_copy"
  by (rule copier_struct [OF copier_nilable [OF copier_ref [OF copier_assign, of count_of "\<lambda>n. Foreign (CountM n)"]],
        where f = ll_Remaining and put = "\<lambda>n s. s\<lparr>ll_Remaining := n\<rparr>" and g = "\<lambda>s. Pair (ll_ResourceVersion s)"])
    (auto simp: ref_view_def ref_list_meta_copy_def split: Option.bind_splits)

lemma sorted_entries: "map_of (sorted_list_of_fmap m) = fmlookup m \<and> distinct (map fst (sorted_list_of_fmap m))"
proof -
  have "map fst (sorted_list_of_fmap m) = sorted_list_of_fset (fmdom m)"
    by (simp add: sorted_list_of_fmap_def comp_def)
  then show ?thesis by (simp add: sorted_list_of_fset.rep_eq)
qed

interpretation ref: memory_lib ref_lib ref_view
proof (intro memory_lib.intro memory_lib_axioms.intro)
  show "copier (mv_val ref_view) (mv_refs ref_view) (l_ObjectMeta ref_lib)"
    unfolding ref_simps by (rule ref_meta_copier)
  show "copier (lv_val ref_view) (lv_refs ref_view) (l_ListMeta ref_lib)"
    unfolding ref_simps by (rule ref_list_meta_copier)
  show "copier (ref_val time_of plain_val) (ref_refs time_of no_refs) (l_Time ref_lib)"
    unfolding ref_simps by (rule copier_ref [OF copier_assign]) simp
qed (simp_all only: ref_simps sorted_entries)

section \<open>Properties\<close>

text \<open>
  What a deep copy of a pointer gives: it succeeds on every well-formed original; afterwards the copy
  has its value whatever happens to all other memory, and the original has, whatever happens to the
  memory of the copy.
\<close>

definition deep ::
  "(('m, 'l, 'x) memory \<Rightarrow> 'p \<Rightarrow> 'v option) \<Rightarrow> ('m, 'l, 'x, 'p) copy_into \<Rightarrow> bool" where
  "deep val copy \<longleftrightarrow> (\<forall>h p v. val h p = Some v \<longrightarrow>
     (\<exists>q h'. copy p h = Some (q, h') \<and> prefix h h' \<and>
        (\<forall>h2. same_on {length h..<length h'} h' h2 \<longrightarrow> val h2 q = Some v) \<and>
        (\<forall>h2. same_on {..<length h} h h2 \<longrightarrow> val h2 p = Some v)))"

lemma copier_deep: "copier val refs copy \<Longrightarrow> deep val copy"
  unfolding deep_def by (intro allI impI) (rule copier.copy_independent)

lemma copier_pointer:
  assumes "copier val refs into" "\<And>s. sel (wrap s) = Some s"
  shows "deep (nil_val (ref_val sel val)) (nilable (copy_ref sel wrap into))"
  using copier_deep [OF copier_nilable [OF copier_ref [OF assms]]] .

context memory_lib
begin

lemmas copies = status.copier_axioms order.copier_axioms order_list.copier_axioms policy_spec.copier_axioms
  policy_status.copier_axioms policy.copier_axioms policy_list.copier_axioms

end

text \<open>
  C39: every generated \<open>DeepCopy\<close> is deep: for each of the eleven types it turns a well-formed pointer
  into one with the same value, nil for nil, in newly allocated memory, without changing memory that
  was there before, and later writes to either leave the value of the other as it was.
\<close>

theorem DeepCopy_independent:
  fixes L :: "('m, 'l, 'x) copy_lib"
  assumes "memory_lib L W"
  shows "deep (nil_val (ref_val config_of plain_val)) (DeepCopy_PolicyConfig :: ('m, 'l, 'x, addr option) copy_into) \<and>
    deep (nil_val (ref_val params_of plain_val)) (DeepCopy_ResourceSleepParams :: ('m, 'l, 'x, addr option) copy_into) \<and>
    deep (nil_val (ref_val target_of plain_val)) (DeepCopy_TargetRef :: ('m, 'l, 'x, addr option) copy_into) \<and>
    deep (nil_val (ref_val order_spec_of plain_val)) (DeepCopy_SleepOrderSpec :: ('m, 'l, 'x, addr option) copy_into) \<and>
    deep (nil_val (ref_val status_of status_val)) (DeepCopy_SleepOrderStatus L) \<and>
    deep (nil_val (ref_val order_of (order_val W))) (DeepCopy_SleepOrder L) \<and>
    deep (nil_val (ref_val order_list_of (list_val W orders_of (order_val W)))) (DeepCopy_SleepOrderList L) \<and>
    deep (nil_val (ref_val policy_spec_of policy_spec_val)) (DeepCopy_SleepPolicySpec L) \<and>
    deep (nil_val (ref_val policy_status_of policy_status_val)) (DeepCopy_SleepPolicyStatus L) \<and>
    deep (nil_val (ref_val policy_of (policy_val W))) (DeepCopy_SleepPolicy L) \<and>
    deep (nil_val (ref_val policy_list_of (list_val W policies_of (policy_val W)))) (DeepCopy_SleepPolicyList L)"
  unfolding DeepCopy_PolicyConfig_def DeepCopy_ResourceSleepParams_def DeepCopy_TargetRef_def
      DeepCopy_SleepOrderSpec_def DeepCopy_SleepOrderStatus_def DeepCopy_SleepOrder_def DeepCopy_SleepOrderList_def
      DeepCopy_SleepPolicySpec_def DeepCopy_SleepPolicyStatus_def DeepCopy_SleepPolicy_def DeepCopy_SleepPolicyList_def
  by (intro conjI; rule copier_pointer; (rule policy_config.copier_axioms params.copier_axioms target.copier_axioms
        order_spec.copier_axioms memory_lib.copies [OF assms])?) simp_all

text \<open>A policy in memory: its Deployments at address 0, the pointer is 1.\<close>

definition ex_configs :: config_map where
  "ex_configs = fmap_of_list [(''web'', \<lparr>pc_Enable = True, pc_WakeAt = ''08:00'', pc_SleepAt = ''20:00'',
     pc_Timezone = ''UTC'', pc_WorkingDays = ''''\<rparr>)]"

definition ex_scalars :: object_meta where
  "ex_scalars = \<lparr>om_name = ''office'', om_namespace = ''shop'', om_annotations = None, om_finalizers = [],
     om_owner = None, om_creation = 0, om_deletion = None, om_rv = 1\<rparr>"

definition ex_policy_mem :: "meta_mem policy_mem" where
  "ex_policy_mem = \<lparr>pm_TypeMeta = \<lparr>tm_Kind = ''SleepPolicy'', tm_APIVersion = ''sleepod.sleepod.io/v1alpha1''\<rparr>,
     pm_ObjectMeta = \<lparr>mm_scalars = ex_scalars, mm_annotations = None, mm_finalizers = None, mm_deletion = None\<rparr>,
     pm_Spec = \<lparr>pm_Timezone = ''UTC'', pm_Deployments = Some 0, pm_StatefulSets = None\<rparr>,
     pm_Status = \<lparr>pm_State = None\<rparr>\<rparr>"

definition ex_memory :: "(meta_mem, list_meta_mem, meta_cell) memory" where
  "ex_memory = [ConfigsC ex_configs, PolicyC ex_policy_mem]"

lemma ex_policy_value:
  "nil_val (ref_val policy_of (policy_val ref_view)) ex_memory (Some 1) =
     Some (Some (pm_TypeMeta ex_policy_mem, \<lparr>pol_meta = ex_scalars,
       pol_spec = \<lparr>sp_Timezone = ''UTC'', sp_Deployments = Some ex_configs, sp_StatefulSets = None\<rparr>,
       pol_status = \<lparr>st_State = None\<rparr>\<rparr>))"
  by (simp add: nil_val_def ref_val_def load_def ex_memory_def ex_policy_mem_def policy_val_def ref_view_def
      both_val_def ref_meta_value_def policy_spec_val_def policy_status_val_def plain_val_def ex_scalars_def)

theorem DeepCopy_independent_witness:
  "\<exists>q h'. DeepCopy_SleepPolicy ref_lib (Some 1) ex_memory = Some (q, h') \<and>
     nil_val (ref_val policy_of (policy_val ref_view)) (h'[0 := ConfigsC fmempty]) q =
     nil_val (ref_val policy_of (policy_val ref_view)) ex_memory (Some 1)"
proof -
  have "deep (nil_val (ref_val policy_of (policy_val ref_view))) (DeepCopy_SleepPolicy ref_lib)"
    using DeepCopy_independent [OF ref.memory_lib_axioms] by blast
  then obtain q h' where c: "DeepCopy_SleepPolicy ref_lib (Some 1) ex_memory = Some (q, h')"
    and keeps: "\<And>h2. same_on {length ex_memory..<length h'} h' h2 \<Longrightarrow>
      nil_val (ref_val policy_of (policy_val ref_view)) h2 q =
      nil_val (ref_val policy_of (policy_val ref_view)) ex_memory (Some 1)"
    unfolding deep_def ex_policy_value using ex_policy_value by metis
  have "same_on {length ex_memory..<length h'} h' (h'[0 := ConfigsC fmempty])"
    by (auto simp: same_on_def ex_memory_def)
  from c keeps [OF this] show ?thesis by blast
qed

text \<open>\<open>DeepCopyObject\<close> of an interface value, and the value of what it points to.\<close>

fun DeepCopyObject :: "('m, 'l, 'x) copy_lib \<Rightarrow> runtime_object \<Rightarrow> ('m, 'l, 'x) memory \<Rightarrow>
    (runtime_object option \<times> ('m, 'l, 'x) memory) option" where
  "DeepCopyObject L (SleepOrderPtr p) h = DeepCopyObject_SleepOrder L p h"
| "DeepCopyObject L (SleepOrderListPtr p) h = DeepCopyObject_SleepOrderList L p h"
| "DeepCopyObject L (SleepPolicyPtr p) h = DeepCopyObject_SleepPolicy L p h"
| "DeepCopyObject L (SleepPolicyListPtr p) h = DeepCopyObject_SleepPolicyList L p h"

datatype 'k object_value =
    OrderV "type_meta \<times> sleep_order"
  | OrderListV "type_meta \<times> 'k \<times> (type_meta \<times> sleep_order) list option"
  | PolicyV "type_meta \<times> sleep_policy"
  | PolicyListV "type_meta \<times> 'k \<times> (type_meta \<times> sleep_policy) list option"

fun object_val :: "('m, 'l, 'x, 'k) meta_view \<Rightarrow> ('m, 'l, 'x) memory \<Rightarrow> runtime_object \<Rightarrow> 'k object_value option option" where
  "object_val W h (SleepOrderPtr p) = map_option (map_option OrderV) (nil_val (ref_val order_of (order_val W)) h p)"
| "object_val W h (SleepOrderListPtr p) =
     map_option (map_option OrderListV) (nil_val (ref_val order_list_of (list_val W orders_of (order_val W))) h p)"
| "object_val W h (SleepPolicyPtr p) = map_option (map_option PolicyV) (nil_val (ref_val policy_of (policy_val W)) h p)"
| "object_val W h (SleepPolicyListPtr p) =
     map_option (map_option PolicyListV) (nil_val (ref_val policy_list_of (list_val W policies_of (policy_val W))) h p)"

text \<open>One of the four types: its pointers \<open>box p\<close>, the value behind them, and the copy.\<close>

lemma boxed_copy:
  assumes c: "copier val refs into" and sel: "\<And>s. sel (wrap s) = Some s"
    and val: "\<And>h p. oval h (box p) = map_option (map_option V) (nil_val (ref_val sel val) h p)"
    and v: "oval h (box p) = Some v"
  shows "case v of
      None \<Rightarrow> boxed box (nilable (copy_ref sel wrap into) p h) = Some (None, h)
    | Some _ \<Rightarrow> \<exists>ob' h'. boxed box (nilable (copy_ref sel wrap into) p h) = Some (Some ob', h') \<and> prefix h h' \<and>
        (\<forall>h2. same_on {length h..<length h'} h' h2 \<longrightarrow> oval h2 ob' = Some v) \<and>
        (\<forall>h2. same_on {..<length h} h h2 \<longrightarrow> oval h2 (box p) = Some v)"
proof (cases p)
  case None
  then have "v = None" using v by (simp add: val nil_val_def)
  with None show ?thesis by (simp add: nilable_def boxed_def)
next
  case (Some a)
  with v obtain u where u: "nil_val (ref_val sel val) h p = Some (Some u)" "v = Some (V u)"
    by (auto simp: val nil_val_def)
  from copier_pointer [where sel = sel and wrap = wrap, OF c sel, unfolded deep_def, rule_format, OF u(1)]
  obtain q h' where q: "nilable (copy_ref sel wrap into) p h = Some (q, h')"
    "prefix h h'"
    "\<And>h2. same_on {length h..<length h'} h' h2 \<Longrightarrow> nil_val (ref_val sel val) h2 q = Some (Some u)"
    "\<And>h2. same_on {..<length h} h h2 \<Longrightarrow> nil_val (ref_val sel val) h2 p = Some (Some u)"
    by blast
  have "same_on {length h..<length h'} h' h'" by (simp add: same_on_def)
  from q(3) [OF this] obtain b where b: "q = Some b" by (cases q) (auto simp: nil_val_def)
  have "boxed box (nilable (copy_ref sel wrap into) p h) = Some (Some (box q), h')"
    by (simp add: boxed_def q(1) b)
  moreover have "oval h2 (box q) = Some v" if "same_on {length h..<length h'} h' h2" for h2
    by (simp add: val q(3) [OF that] u(2))
  moreover have "oval h2 (box p) = Some v" if "same_on {..<length h} h h2" for h2
    by (simp add: val q(4) [OF that] u(2))
  ultimately show ?thesis unfolding u(2) option.case using q(2) by blast
qed

text \<open>
  C40: \<open>DeepCopyObject\<close> of a nil pointer of any of the four types is the nil interface, never an
  interface around a nil pointer, and allocates nothing; of a well-formed object it is an object with
  the same value in new memory, independent of the original as above.
\<close>

theorem DeepCopyObject_independent:
  assumes "memory_lib L W" and "object_val W h ob = Some v"
  shows "case v of
      None \<Rightarrow> DeepCopyObject L ob h = Some (None, h)
    | Some _ \<Rightarrow> \<exists>ob' h'. DeepCopyObject L ob h = Some (Some ob', h') \<and> prefix h h' \<and>
        (\<forall>h2. same_on {length h..<length h'} h' h2 \<longrightarrow> object_val W h2 ob' = Some v) \<and>
        (\<forall>h2. same_on {..<length h} h h2 \<longrightarrow> object_val W h2 ob = Some v)"
proof (cases ob)
  case (SleepOrderPtr p)
  show ?thesis
    unfolding SleepOrderPtr DeepCopyObject.simps DeepCopyObject_SleepOrder_def DeepCopy_SleepOrder_def
    by (rule boxed_copy [OF memory_lib.copies(2) [OF assms(1)]]) (use assms(2) SleepOrderPtr in simp_all)
next
  case (SleepOrderListPtr p)
  show ?thesis
    unfolding SleepOrderListPtr DeepCopyObject.simps DeepCopyObject_SleepOrderList_def DeepCopy_SleepOrderList_def
    by (rule boxed_copy [OF memory_lib.copies(3) [OF assms(1)]]) (use assms(2) SleepOrderListPtr in simp_all)
next
  case (SleepPolicyPtr p)
  show ?thesis
    unfolding SleepPolicyPtr DeepCopyObject.simps DeepCopyObject_SleepPolicy_def DeepCopy_SleepPolicy_def
    by (rule boxed_copy [OF memory_lib.copies(6) [OF assms(1)]]) (use assms(2) SleepPolicyPtr in simp_all)
next
  case (SleepPolicyListPtr p)
  show ?thesis
    unfolding SleepPolicyListPtr DeepCopyObject.simps DeepCopyObject_SleepPolicyList_def DeepCopy_SleepPolicyList_def
    by (rule boxed_copy [OF memory_lib.copies(7) [OF assms(1)]]) (use assms(2) SleepPolicyListPtr in simp_all)
qed

theorem DeepCopyObject_independent_witness:
  "DeepCopyObject ref_lib (SleepOrderPtr None) ex_memory = Some (None, ex_memory) \<and>
   (\<exists>ob' h'. DeepCopyObject ref_lib (SleepPolicyPtr (Some 1)) ex_memory = Some (Some ob', h') \<and>
      object_val ref_view (h'[0 := ConfigsC fmempty]) ob' = object_val ref_view ex_memory (SleepPolicyPtr (Some 1)))"
proof
  have "object_val ref_view ex_memory (SleepOrderPtr None) = Some None" by (simp add: nil_val_def)
  from DeepCopyObject_independent [OF ref.memory_lib_axioms this]
  show "DeepCopyObject ref_lib (SleepOrderPtr None) ex_memory = Some (None, ex_memory)" by simp
  obtain v where v: "object_val ref_view ex_memory (SleepPolicyPtr (Some 1)) = Some (Some v)"
    unfolding object_val.simps ex_policy_value by simp
  from DeepCopyObject_independent [OF ref.memory_lib_axioms v]
  obtain ob' h' where c: "DeepCopyObject ref_lib (SleepPolicyPtr (Some 1)) ex_memory = Some (Some ob', h')"
    and keeps: "\<And>h2. same_on {length ex_memory..<length h'} h' h2 \<Longrightarrow> object_val ref_view h2 ob' = Some (Some v)"
    by auto
  have "same_on {length ex_memory..<length h'} h' (h'[0 := ConfigsC fmempty])"
    by (auto simp: same_on_def ex_memory_def)
  from c keeps [OF this] v
  show "\<exists>ob' h'. DeepCopyObject ref_lib (SleepPolicyPtr (Some 1)) ex_memory = Some (Some ob', h') \<and>
      object_val ref_view (h'[0 := ConfigsC fmempty]) ob' = object_val ref_view ex_memory (SleepPolicyPtr (Some 1))"
    by auto
qed

end
