(* ===== verification/Spec2Isabelle.thy ===== *)
theory Spec2Isabelle
  imports Schedule_Spec Sleep_Order_Timed Sleep_Policy_Props Namespace_Props Config_Hash Cluster Manager Deep_Copy_Props
begin

text \<open>
  A model of the SleePod controller, a Kubernetes operator that scales Deployments and StatefulSets to
  0 outside their working hours and back, and the theorems that make it correct.

  \<^bold>\<open>The program.\<close>  Three controllers work on the objects of the cluster through an API server.  The
  Namespace controller (\<open>internal/controller/namespace_controller.go\<close>) gives every namespace a default
  SleepPolicy, removes the policies of excluded namespaces and deletes namespaces that have expired.
  The SleepPolicy controller (\<open>sleeppolicy_controller.go\<close>, \<open>sleeppolicy_logic.go\<close>) completes a policy,
  computes the desired sleep parameters of every workload and turns them into SleepOrders.  The
  SleepOrder controller (\<open>sleeporder_controller.go\<close>) asks the schedule logic (\<open>internal/logic/time.go\<close>)
  whether its workload should sleep, scales it, keeps the replica count to go back to in an
  annotation, and reports the state.  The configuration (\<open>internal/config\<close>) comes from environment
  variables; \<open>cmd/main.go\<close> starts everything.  The controllers share no memory: they meet only in the
  objects that they write.

  \<^bold>\<open>Theories.\<close>
  \<^item> \<open>Prelude\<close>: errors as values, computations in the state monad with their weakest preconditions
    (\<open>wp\<close>), 64-bit wrap-around.  \<open>Go_Strings\<close>, \<open>Go_Time\<close>: what the program uses of \<open>strings\<close>, \<open>strconv\<close>
    and \<open>time\<close>, with the calendar.
  \<^item> \<open>Schedule\<close>: \<open>time.go\<close>, function by function.  \<open>Schedule_Spec\<close>: shifts of working days as the
    specification, and the refinement of \<open>ShouldBeAsleep\<close> and \<open>GetNextEvent\<close> to it.
  \<^item> \<open>Api_Types\<close>: the custom resources and the objects of Kubernetes as records, constants, the pattern
    of the time fields.  \<open>Client\<close>: the API client, controller-runtime's utilities and the clock as a
    record of functions, and the locales that state what is relied on: \<open>kube_api\<close> (what a call may do,
    failing or not), \<open>reliable_api\<close> (a world without faults), \<open>controller_util\<close>, \<open>conflict_retry\<close>, and
    their sums \<open>controllers\<close> and \<open>healthy_controllers\<close>.  \<open>Mem_Api\<close>: a server in memory with scripted
    faults, on which every locale is interpreted and every example runs.
  \<^item> \<open>Sleep_Order\<close>: \<open>sleeporder_controller.go\<close>.  \<open>Sleep_Order_Safe\<close>: what runs keep whatever fails.
    \<open>Sleep_Order_Live\<close>: what they achieve in a healthy world.  \<open>Sleep_Order_Props\<close>: the properties.
    \<open>Sleep_Order_Timed\<close>: sequences of runs, between which time passes.
  \<^item> \<open>Config\<close>, \<open>Config_Hash\<close>: \<open>internal/config\<close>, with the MD5 of the hash written out.
  \<^item> \<open>Sleep_Policy\<close>: the two files of the SleepPolicy controller.  \<open>Sleep_Policy_Logic\<close>: its pure parts
    and its listings.  \<open>Sleep_Policy_Safe\<close>, \<open>Sleep_Policy_Live\<close>, \<open>Sleep_Policy_Props\<close>: as above.
  \<^item> \<open>Namespace_Ctl\<close>, \<open>Namespace_Props\<close>: the Namespace controller.
  \<^item> \<open>Cluster\<close>: runs of the three controllers interleaved with everything else as a step relation, its
    invariant by rule induction, and the composition of the three controllers on a new namespace.
  \<^item> \<open>Manager\<close>: \<open>main.go\<close> and the \<open>SetupWithManager\<close> methods as the sequence of calls of a start.
  \<^item> \<open>Deep_Copy\<close>: \<open>zz_generated.deepcopy.go\<close> on a memory of cells with pointers.  \<open>Deep_Copy_Props\<close>: the
    locale \<open>copier\<close> (same value, new memory), kept by the ways to combine copies and so by every
    generated function.

  \<^bold>\<open>Correspondence.\<close>  A definition has the name of the Go function or of the part of it that it models;
  a method \<open>Reconcile\<close> is \<open>Reconcile_SleepOrder\<close>, \<open>Reconcile_SleepPolicy\<close> or \<open>Reconcile_Namespace\<close>.  The
  cluster is a \<open>view\<close>, a map from kind, namespace and name to objects.  An object that is updated in
  place in Go is passed on; a nil map is \<open>None\<close>; \<open>int32\<close> is a 32-bit word; \<open>time.Duration\<close> is an integer
  with the wrap-around written out.  A call of the client is atomic; between two runs anything may
  happen, inside a run faults may: a refused connection, a lost reply, a conflict.

  \<^bold>\<open>What is shown.\<close>  Whatever fails, a run of an order that is not being deleted keeps the replica count
  that its workload goes back to (\<open>Reconcile_keeps_target\<close>).  However the runs of the three controllers and
  arbitrary changes by others follow each other, the controllers leave a workload as the others have left
  it last, if runs of orders under deletion meet no faults (\<open>cluster_keeps_workloads\<close>); each controller
  writes only what it is there for (the \<open>_frame\<close> theorems).  In a healthy world one run of each controller
  reaches what its inputs ask for, under the conditions that each theorem names; policies need at most
  three runs, and then come to rest if they ask for something; a workload in a new namespace ends in the
  state of the default schedule, if default policies are enabled (\<open>onboard_workload\<close>).  From run to run an
  order with two different times holds its workload to the schedule (\<open>schedule_held\<close>); the time after which
  it asks to be run again is positive unless the event is reached during the run.  In every zone of
  constant offset the schedule refines its specification and the next event is the first one; its errors
  are exactly those of unreadable fields, in any zone.  Round trips: sleep and wake, expiration
  dates.  Error paths: unreadable schedules, missing and unsupported targets.  Deep copies share no memory
  with the original, which is why objects can be values everywhere else.  Three theorems record
  defects: \<open>deletion_retry_loses_replicas\<close>, \<open>changed_order_loses_finalizers\<close>,
  \<open>wake_without_annotations_fails\<close>.

  \<^bold>\<open>Bounds.\<close>  Only two definitions take fuel.  \<open>retry_n\<close> is an attempt and its repetitions after a
  conflict; the library decides their number, and the properties hold for every number.  \<open>requeue_loop\<close>
  repeats a reconciliation that asks for it; \<open>Reconcile_SleepPolicy_converges\<close> shows that three runs are
  enough.

  \<^bold>\<open>Not modelled.\<close>  Log calls.  The parsing of the command line, the logger and the scheme registration of
  \<open>main.go\<close> and \<open>groupversion_info.go\<close>.  The helpers of the
  end-to-end tests.  Work queues, caches and leader election belong to controller-runtime: a run is
  started by anything at any time, and reads the current state of the server.  Runs come one after the
  other; the steps of two concurrent runs are not interleaved, and what a concurrent writer does to a run
  appears as a conflict.  The server neither validates nor fills in defaults, and namespaces that are
  deleted take their contents with them only as a change by others.  Time zone rules come from the system: a location is any function
  from instants to offsets, and the theorems about the schedule are for constant offsets where they say so.
\<close>

end
